(* ===== verification/Doc_Prelude.thy ===== *)
theory Doc_Prelude
  imports Main "HOL-Library.Word"
begin

unbundle bit_operations_syntax

text \<open>
  Shared vocabulary of the development: fixed-width integer types, the little-endian
  byte layout that \<open>htole16\<close>, \<open>htole32\<close> and packed structs give integers in memory,
  the decimal and hexadecimal renderings of \<open>printf\<close>, traces of resource events
  (descriptors, mappings, registrations) and two interfaces that several of the
  programs implement: an acquire/release pair and a machine with an invariant.
\<close>

section \<open>Fixed-width integers\<close>

type_synonym u8 = "8 word"
type_synonym u16 = "16 word"
type_synonym u32 = "32 word"
type_synonym u64 = "64 word"

named_theorems le_simps \<open>round trips between words and their bytes in memory\<close>
named_theorems trace_simps \<open>evaluation of resource traces\<close>

lemma unat_u8_less [simp]: "unat (x :: u8) < 256"
  using unsigned_less [of x, where 'a = nat] by simp

lemma unat_u16_less [simp]: "unat (x :: u16) < 65536"
  using unsigned_less [of x, where 'a = nat] by simp

lemma unat_u32_less [simp]: "unat (x :: u32) < 4294967296"
  using unsigned_less [of x, where 'a = nat] by simp

lemma xor_left_cancel: "x XOR a = x XOR b \<longleftrightarrow> a = (b :: 'a::len word)"
proof
  assume "x XOR a = x XOR b"
  then have "x XOR (x XOR a) = x XOR (x XOR b)" by (rule arg_cong)
  then show "a = b" by (simp flip: xor.assoc)
qed simp

lemma xor_right_cancel: "a XOR x = b XOR x \<longleftrightarrow> a = (b :: 'a::len word)"
  using xor_left_cancel [of x a b] by (simp only: xor.commute)

section \<open>Little-endian layout\<close>

fun le_bytes :: "nat \<Rightarrow> 'a::len word \<Rightarrow> u8 list" where
  "le_bytes 0 w = []"
| "le_bytes (Suc n) w = ucast w # le_bytes n (drop_bit 8 w)"

fun of_le :: "u8 list \<Rightarrow> 'a::len word" where
  "of_le [] = 0"
| "of_le (b # bs) = ucast b OR push_bit 8 (of_le bs)"

lemma length_le_bytes [simp]: "length (le_bytes n w) = n"
  by (induction n arbitrary: w) auto

lemma of_le_le_bytes [le_simps]: "of_le (le_bytes n w) = take_bit (8 * n) w"
proof (induction n arbitrary: w)
  case 0
  show ?case by simp
next
  case (Suc n)
  have "of_le (le_bytes (Suc n) w)
      = (ucast (ucast w :: u8) :: 'a word) OR push_bit 8 (take_bit (8 * n) (drop_bit 8 w))"
    by (simp add: Suc.IH)
  also have "\<dots> = take_bit (8 * Suc n) w"
    by (rule bit_word_eqI)
      (auto simp: bit_or_iff bit_ucast_iff bit_push_bit_iff bit_take_bit_iff bit_drop_bit_eq
        not_less le_Suc_ex)
  finally show ?case .
qed

lemma of_le_le_bytes_up:
  fixes w :: "'b::len word"
  assumes "LENGTH('b) \<le> LENGTH('a)"
  shows "(of_le (le_bytes n w) :: 'a::len word) = take_bit (8 * n) (ucast w)"
proof (induction n arbitrary: w)
  case 0
  show ?case by simp
next
  case (Suc n)
  have "(of_le (le_bytes (Suc n) w) :: 'a word)
      = ucast (ucast w :: u8) OR push_bit 8 (take_bit (8 * n) (ucast (drop_bit 8 w)))"
    by (simp add: Suc.IH)
  also have "\<dots> = take_bit (8 * Suc n) (ucast w)"
    using assms
    by (intro bit_word_eqI)
      (auto simp: bit_or_iff bit_ucast_iff bit_push_bit_iff bit_take_bit_iff bit_drop_bit_eq not_less
        le_Suc_ex)
  finally show ?case .
qed

lemma of_le_u16: "(of_le (le_bytes 2 (w :: u16)) :: u32) = ucast w"
proof (subst of_le_le_bytes_up)
  show "(take_bit (8 * 2) (ucast w) :: u32) = ucast w"
  proof (rule bit_word_eqI)
    fix n show "bit (take_bit (8 * 2) (ucast w) :: u32) n = bit (ucast w :: u32) n"
      using bit_imp_le_length [of w n] by (auto simp: bit_take_bit_iff bit_ucast_iff)
  qed
qed simp

lemma le_bytes_of_le [le_simps]:
  "8 * length bs \<le> LENGTH('a) \<Longrightarrow> le_bytes (length bs) (of_le bs :: 'a::len word) = bs"
proof (induction bs)
  case Nil
  show ?case by simp
next
  case (Cons b bs)
  let ?r = "of_le bs :: 'a word"
  have small: "take_bit (8 * length bs) ?r = ?r"
  proof -
    have "of_le (le_bytes (length bs) ?r) = take_bit (8 * length bs) ?r"
      by (rule of_le_le_bytes)
    with Cons show ?thesis by simp
  qed
  have hd: "ucast ((ucast b :: 'a word) OR push_bit 8 ?r) = b"
    by (rule bit_word_eqI)
      (use Cons.prems in \<open>auto simp: bit_or_iff bit_ucast_iff bit_push_bit_iff\<close>)
  have tl: "drop_bit 8 ((ucast b :: 'a word) OR push_bit 8 ?r) = ?r"
  proof (rule bit_word_eqI)
    fix n assume n: "n < LENGTH('a)"
    have "bit ?r n \<longleftrightarrow> n < 8 * length bs \<and> bit ?r n"
      using small by (metis bit_take_bit_iff)
    moreover have "\<not> bit b (8 + n)"
      using bit_imp_le_length [of b "8 + n"] by auto
    ultimately show "bit (drop_bit 8 ((ucast b :: 'a word) OR push_bit 8 ?r)) n = bit ?r n"
      using Cons.prems n
      by (auto simp: bit_or_iff bit_ucast_iff bit_push_bit_iff bit_drop_bit_eq)
  qed
  show ?case using Cons by (simp add: hd tl del: drop_bit_or)
qed


lemma of_le_bound:
  "8 * length bs < LENGTH('a) \<Longrightarrow> unat (of_le bs :: 'a::len word) < 2 ^ (8 * length bs)"
proof -
  assume len: "8 * length bs < LENGTH('a)"
  have "of_le bs = (take_bit (8 * length bs) (of_le bs) :: 'a word)"
    using len by (metis le_bytes_of_le less_imp_le of_le_le_bytes)
  then have "unat (of_le bs :: 'a word) = take_bit (8 * length bs) (unat (of_le bs :: 'a word))"
    by (metis unsigned_take_bit_eq)
  then show ?thesis by (metis take_bit_nat_less_exp)
qed

section \<open>Bounded reads\<close>

text \<open>Bytes and little-endian integers at an offset of a buffer; \<open>None\<close> outside it.\<close>

definition rd_bytes :: "u8 list \<Rightarrow> nat \<Rightarrow> nat \<Rightarrow> u8 list option" where
  "rd_bytes buf off n = (if off + n \<le> length buf then Some (take n (drop off buf)) else None)"

definition rd_word :: "u8 list \<Rightarrow> nat \<Rightarrow> nat \<Rightarrow> u32 option" where
  "rd_word buf off n = map_option of_le (rd_bytes buf off n)"

lemma rd_bytes_mid:
  "length xs = off \<Longrightarrow> length ys = n \<Longrightarrow> rd_bytes (xs @ ys @ zs) off n = Some ys"
  by (simp add: rd_bytes_def)

lemma rd_bytes_drop: "off \<le> length d \<Longrightarrow> rd_bytes d (off + k) n = rd_bytes (drop off d) k n"
  by (auto simp: rd_bytes_def add.commute)

lemma rd_bytes_take: "off + n \<le> m \<Longrightarrow> m \<le> length d \<Longrightarrow> rd_bytes (take m d) off n = rd_bytes d off n"
  by (auto simp: rd_bytes_def drop_take)

lemma rd_word_take: "off + n \<le> m \<Longrightarrow> m \<le> length d \<Longrightarrow> rd_word (take m d) off n = rd_word d off n"
  by (simp add: rd_word_def rd_bytes_take)

lemma rd_word_drop: "off \<le> length d \<Longrightarrow> rd_word d (off + k) n = rd_word (drop off d) k n"
  by (simp add: rd_word_def rd_bytes_drop)

lemma rd_word_mid:
  "length xs = off \<Longrightarrow> length ys = n \<Longrightarrow> rd_word (xs @ ys @ zs) off n = Some (of_le ys)"
  by (simp add: rd_word_def rd_bytes_mid)

section \<open>Decimal and hexadecimal text\<close>

definition digit_char :: "nat \<Rightarrow> char" where
  "digit_char d = (if d < 10 then char_of (48 + d) else char_of (87 + d))"

fun show_base :: "nat \<Rightarrow> nat \<Rightarrow> string" where
  "show_base b n =
     (if b < 2 \<or> n < b then [digit_char n] else show_base b (n div b) @ [digit_char (n mod b)])"

declare show_base.simps [simp del]

abbreviation show_nat :: "nat \<Rightarrow> string" where
  "show_nat \<equiv> show_base 10"

abbreviation show_hex :: "nat \<Rightarrow> string" where
  "show_hex \<equiv> show_base 16"

definition show_int :: "int \<Rightarrow> string" where
  "show_int i = (if i < 0 then CHR ''-'' # show_nat (nat (- i)) else show_nat (nat i))"

definition is_digit :: "char \<Rightarrow> bool" where
  "is_digit c \<longleftrightarrow> 48 \<le> (of_char c :: nat) \<and> (of_char c :: nat) \<le> 57"

definition digit_val :: "char \<Rightarrow> nat" where
  "digit_val c = of_char c - 48"

fun digits_val :: "nat \<Rightarrow> string \<Rightarrow> nat" where
  "digits_val acc [] = acc"
| "digits_val acc (c # cs) = digits_val (10 * acc + digit_val c) cs"

lemma is_digit_digit_char [simp]: "d < 10 \<Longrightarrow> is_digit (digit_char d)"
  by (simp add: is_digit_def digit_char_def)

lemma digit_val_digit_char [simp]: "d < 10 \<Longrightarrow> digit_val (digit_char d) = d"
  by (simp add: digit_val_def digit_char_def)

lemma digits_val_append:
  "digits_val acc (xs @ ys) = digits_val (digits_val acc xs) ys"
  by (induction acc xs rule: digits_val.induct) auto

lemma show_nat_digits: "\<forall>c \<in> set (show_nat n). is_digit c"
proof (induction n rule: less_induct)
  case (less n)
  show ?case
  proof (cases "n < 10")
    case True
    then show ?thesis by (simp add: show_base.simps [of 10 n])
  next
    case False
    then have "\<forall>c \<in> set (show_nat (n div 10)). is_digit c" using less [of "n div 10"] by simp
    with False show ?thesis by (auto simp: show_base.simps [of 10 n])
  qed
qed

lemma show_nat_not_Nil [simp]: "show_nat n \<noteq> []"
  by (simp add: show_base.simps [of 10 n])

lemma digits_val_show_nat [simp]: "digits_val 0 (show_nat n) = n"
proof (induction n rule: less_induct)
  case (less n)
  show ?case
  proof (cases "n < 10")
    case True
    then show ?thesis by (simp add: show_base.simps [of 10 n])
  next
    case False
    then have "n div 10 < n" by simp
    with less False show ?thesis
      by (simp add: show_base.simps [of 10 n] digits_val_append)
  qed
qed

lemma show_nat_inject: "show_nat m = show_nat n \<longleftrightarrow> m = n"
  by (metis digits_val_show_nat)

lemma length_show_nat: "n < 10 ^ k \<Longrightarrow> 0 < k \<Longrightarrow> length (show_nat n) \<le> k"
proof (induction k arbitrary: n)
  case (Suc k)
  show ?case
  proof (cases "n < 10")
    case False
    with Suc.prems have "0 < k" by (cases k) auto
    moreover have "n div 10 < 10 ^ k" using Suc.prems by (simp add: less_mult_imp_div_less mult.commute)
    ultimately show ?thesis using Suc.IH [of "n div 10"] False by (simp add: show_base.simps [of 10 n])
  qed (simp add: show_base.simps [of 10 n])
qed simp

text \<open>\<open>atoi\<close>; a number outside the int range is undefined (\<open>None\<close>).\<close>

definition c_isspace :: "char \<Rightarrow> bool" where
  "c_isspace c \<longleftrightarrow> (of_char c :: nat) = 32 \<or> 9 \<le> (of_char c :: nat) \<and> (of_char c :: nat) \<le> 13"

definition atoi :: "string \<Rightarrow> int option" where
  "atoi s =
     (let s1 = dropWhile c_isspace s;
          neg = (s1 \<noteq> [] \<and> hd s1 = CHR ''-'');
          ds = (if s1 \<noteq> [] \<and> hd s1 \<in> {CHR ''-'', CHR ''+''} then tl s1 else s1);
          v = (if neg then - int (digits_val 0 (takeWhile is_digit ds))
               else int (digits_val 0 (takeWhile is_digit ds)))
      in if - (2 ^ 31) \<le> v \<and> v < 2 ^ 31 then Some v else None)"

lemma atoi_show_nat:
  assumes "n < 2 ^ 31"
  shows "atoi (show_nat n) = Some (int n)"
proof -
  obtain c cs where s: "show_nat n = c # cs" by (cases "show_nat n") auto
  have "is_digit c" using show_nat_digits [of n] s by simp
  then have c: "\<not> c_isspace c" "c \<noteq> CHR ''-''" "c \<noteq> CHR ''+''"
    by (auto simp: is_digit_def c_isspace_def)
  have "takeWhile is_digit (show_nat n) = show_nat n"
    using show_nat_digits [of n] by (simp add: takeWhile_eq_all_conv)
  moreover have "digits_val 0 (show_nat n) = n" by simp
  ultimately show ?thesis using s c assms by (simp add: atoi_def Let_def)
qed

abbreviation newline :: char where
  "newline \<equiv> CHR 0x0A"

lemma is_digit_newline [simp]: "\<not> is_digit newline"
  by (simp add: is_digit_def)

text \<open>Comparison without regard to case.\<close>

definition c_tolower :: "char \<Rightarrow> char" where
  "c_tolower c = (let n = (of_char c :: nat) in if 65 \<le> n \<and> n \<le> 90 then char_of (n + 32) else c)"

definition strcasecmp_eq :: "string \<Rightarrow> string \<Rightarrow> bool" where
  "strcasecmp_eq a b \<longleftrightarrow> map c_tolower a = map c_tolower b"

text \<open>Division of C: towards zero.\<close>

definition c_quot :: "int \<Rightarrow> int \<Rightarrow> int" where "c_quot a b = sgn a * sgn b * (\<bar>a\<bar> div \<bar>b\<bar>)"
definition c_rem :: "int \<Rightarrow> int \<Rightarrow> int" where "c_rem a b = a - b * c_quot a b"

lemma c_quot_neg: "c_quot (- a) b = - c_quot a b"
  by (simp add: c_quot_def sgn_minus)

lemma c_quot_pos: "0 \<le> a \<Longrightarrow> 0 < b \<Longrightarrow> c_quot a b = a div b"
  by (cases "a = 0") (simp_all add: c_quot_def)

section \<open>Loops whose body can fail\<close>

text \<open>\<open>foldO\<close> runs a loop body over the values of the loop variable; \<open>None\<close> stops it.\<close>

fun foldO :: "('a \<Rightarrow> 's \<Rightarrow> 's option) \<Rightarrow> 'a list \<Rightarrow> 's \<Rightarrow> 's option" where
  "foldO f [] s = Some s"
| "foldO f (x # xs) s = (case f x s of None \<Rightarrow> None | Some s' \<Rightarrow> foldO f xs s')"

lemma foldO_append:
  "foldO f (xs @ ys) s = (case foldO f xs s of None \<Rightarrow> None | Some s' \<Rightarrow> foldO f ys s')"
  by (induction xs arbitrary: s) (auto split: option.splits)

lemma foldO_concat_map:
  "foldO (\<lambda>i. foldO (f i) js) is s = foldO (\<lambda>(i, j). f i j) (List.product is js) s"
proof (induction "is" arbitrary: s)
  case Nil
  show ?case by simp
next
  case (Cons i "is")
  have "foldO (\<lambda>(i, j). f i j) (map (Pair i) js) s = foldO (f i) js s" for s
    by (induction js arbitrary: s) (auto split: option.splits)
  with Cons show ?case by (simp add: foldO_append split: option.split)
qed

text \<open>A cell of a matrix with rows of length \<open>n\<close> is determined by its row and column.\<close>

lemma row_col_inj:
  assumes "x < n" and "i < n"
  shows "y * n + x = j * n + i \<longleftrightarrow> y = j \<and> x = (i :: nat)"
proof
  assume eq: "y * n + x = j * n + i"
  have "(y * n + x) div n = y" and "(j * n + i) div n = j"
    using assms by auto
  with eq show "y = j \<and> x = i" by simp
qed simp

text \<open>
  The values of the loop variable of \<open>for (i = 0; i < n; i += s)\<close>: the multiples of
  the step below the bound, in increasing order.
\<close>

definition upto_by :: "nat \<Rightarrow> nat \<Rightarrow> nat list" where
  "upto_by s n = filter (\<lambda>i. s dvd i) [0..<n]"

lemma set_upto_by [simp]: "set (upto_by s n) = {i. i < n \<and> s dvd i}"
  by (auto simp: upto_by_def)

lemma distinct_upto_by [simp]: "distinct (upto_by s n)"
  by (simp add: upto_by_def)

lemma sint_small:
  fixes w :: "'a::len word"
  assumes "unat w < 2 ^ (LENGTH('a) - 1)"
  shows "sint w = int (unat w)"
proof -
  have "int (unat w) < int (2 ^ (LENGTH('a) - 1))" using assms by (simp only: of_nat_less_iff)
  then have "uint w < 2 ^ (LENGTH('a) - 1)" by simp
  moreover have "- (2 ^ (LENGTH('a) - 1)) \<le> uint w" by (rule order_trans [OF _ uint_ge_0]) simp
  ultimately show ?thesis
    using signed_take_bit_int_eq_self [of "LENGTH('a) - 1" "uint w"] by (simp add: sint_uint)
qed

lemma unat_ucast_up: "unat (ucast (a :: u32) :: u64) = unat a"
  using unat_u32_less [of a]
  by (simp add: unsigned_ucast_eq take_bit_nat_eq_self_iff del: unat_u32_less)

lemma unat_of_nat_u16: "k < 2 ^ 16 \<Longrightarrow> unat (of_nat k :: u16) = k"
  by (simp add: unat_of_nat take_bit_nat_eq_self)

lemma unat_of_nat_u32: "k < 2 ^ 32 \<Longrightarrow> unat (of_nat k :: u32) = k"
  by (simp add: unat_of_nat take_bit_nat_eq_self)

lemma unat_of_nat_u64: "k < 2 ^ 64 \<Longrightarrow> unat (of_nat k :: u64) = k"
  by (simp add: unat_of_nat take_bit_nat_eq_self)

lemma ucast_of_nat_u32: "k < 2 ^ 32 \<Longrightarrow> (ucast (of_nat k :: u32) :: u64) = of_nat k"
  by (subst word_unat_eq_iff)
    (simp add: unsigned_ucast_eq unat_of_nat_u32 unat_of_nat_u64 take_bit_nat_eq_self)

lemma ucast_of_nat_u64: "k < 2 ^ 32 \<Longrightarrow> (ucast (of_nat k :: u64) :: u32) = of_nat k"
  by (subst word_unat_eq_iff)
    (simp add: unsigned_ucast_eq unat_of_nat_u32 unat_of_nat_u64 take_bit_nat_eq_self)

section \<open>Traces of resource events\<close>

text \<open>
  A program's calls to \<open>open\<close>, \<open>mmap\<close>, \<open>register\<close> and their inverses are recorded as
  a trace. \<open>run_ev\<close> replays a trace on the set of resources held: it fails on a
  resource acquired twice and on one released that is not held (a double close).
\<close>

datatype 'r ev = Acq 'r | Rel 'r

fun run_ev :: "'r set \<Rightarrow> 'r ev list \<Rightarrow> 'r set option" where
  "run_ev H [] = Some H"
| "run_ev H (Acq r # es) = (if r \<in> H then None else run_ev (insert r H) es)"
| "run_ev H (Rel r # es) = (if r \<in> H then run_ev (H - {r}) es else None)"

declare run_ev.simps [trace_simps]

lemma run_ev_append [trace_simps]:
  "run_ev H (es @ fs) = (case run_ev H es of None \<Rightarrow> None | Some K \<Rightarrow> run_ev K fs)"
  by (induction H es rule: run_ev.induct) auto

lemma run_ev_Acq_list:
  "distinct rs \<Longrightarrow> set rs \<inter> H = {} \<Longrightarrow> run_ev H (map Acq rs) = Some (H \<union> set rs)"
  by (induction rs arbitrary: H) auto

lemma run_ev_Rel_list:
  "distinct rs \<Longrightarrow> set rs \<subseteq> H \<Longrightarrow> run_ev H (map Rel rs) = Some (H - set rs)"
proof (induction rs arbitrary: H)
  case Nil
  then show ?case by simp
next
  case (Cons r rs)
  have "H - {r} - set rs = H - insert r (set rs)" by auto
  with Cons show ?case by (simp add: subset_Diff_insert)
qed

text \<open>
  The contract of an initialisation routine and its inverse: a successful \<open>init\<close>
  leaves exactly the resources the new state records, a failed one leaves none, and
  \<open>fini\<close> releases what the state records.
\<close>

locale acquire_release =
  fixes init :: "'e \<Rightarrow> 's \<Rightarrow> bool \<times> 's \<times> 'r ev list"
    and fini :: "'s \<Rightarrow> 's \<times> 'r ev list"
    and res :: "'s \<Rightarrow> 'r set"
  assumes init_ok: "init e s = (True, s', tr) \<Longrightarrow> run_ev {} tr = Some (res s')"
    and init_fail: "init e s = (False, s', tr) \<Longrightarrow> run_ev {} tr = Some {}"
    and fini_all: "fini s = (s', tr) \<Longrightarrow> run_ev (res s) tr = Some {}"
begin

definition session :: "'e \<Rightarrow> 's \<Rightarrow> 'r ev list" where
  "session e s = (case init e s of
     (ok, s', tr) \<Rightarrow> if ok then tr @ snd (fini s') else tr)"

lemma session_leaves_nothing: "run_ev {} (session e s) = Some {}"
proof -
  obtain ok s' tr where i: "init e s = (ok, s', tr)" by (metis prod_cases3)
  show ?thesis
  proof (cases ok)
    case True
    obtain s'' tr' where f: "fini s' = (s'', tr')" by (cases "fini s'")
    from i True have "run_ev {} tr = Some (res s')" using init_ok by simp
    with i f True fini_all [OF f] show ?thesis
      by (simp add: session_def run_ev_append)
  next
    case False
    with i show ?thesis by (simp add: session_def init_fail)
  qed
qed

end

text \<open>A deterministic machine all of whose operations keep an invariant.\<close>

locale inv_machine =
  fixes step :: "'s \<Rightarrow> 'o \<Rightarrow> 's"
    and inv :: "'s \<Rightarrow> bool"
  assumes step_inv: "inv s \<Longrightarrow> inv (step s x)"
begin

lemma run_inv: "inv s \<Longrightarrow> inv (foldl step s xs)"
  by (induction xs arbitrary: s) (auto intro: step_inv)

end

end
