(* ===== verification/Parse_Vdso.thy ===== *)
theory Parse_Vdso
  imports Doc_Prelude
begin

unbundle bit_operations_syntax

text \<open>
  Model of \<open>src/Documentation/vDSO/parse_vdso.c\<close>, the reference parser for the vDSO that
  the kernel maps into every process, compiled for a 64-bit little-endian machine
  (\<open>ELF_BITS\<close> is 64). Memory is a function from addresses to bytes, pointers are
  addresses with 0 for NULL, and the ELF structures are read at the offsets of
  \<open>elf.h\<close>. A loop over a table in memory need not end: those loops are partial
  functions and \<open>None\<close> is not returning (or dividing by zero). Strings passed by the
  caller are byte lists up to their terminator.
\<close>

section \<open>Memory\<close>

type_synonym memory = "u64 \<Rightarrow> u8"

fun mem_bytes :: "memory \<Rightarrow> u64 \<Rightarrow> nat \<Rightarrow> u8 list" where
  "mem_bytes m a 0 = []"
| "mem_bytes m a (Suc n) = m a # mem_bytes m (a + 1) n"

definition ld16 :: "memory \<Rightarrow> u64 \<Rightarrow> u16" where "ld16 m a = of_le (mem_bytes m a 2)"
definition ld32 :: "memory \<Rightarrow> u64 \<Rightarrow> u32" where "ld32 m a = of_le (mem_bytes m a 4)"
definition ld64 :: "memory \<Rightarrow> u64 \<Rightarrow> u64" where "ld64 m a = of_le (mem_bytes m a 8)"

section \<open>The ELF structures\<close>

abbreviation ELFCLASS64 :: u8 where "ELFCLASS64 \<equiv> 2"
abbreviation PT_LOAD :: u32 where "PT_LOAD \<equiv> 1"
abbreviation PT_DYNAMIC :: u32 where "PT_DYNAMIC \<equiv> 2"
abbreviation DT_NULL :: u64 where "DT_NULL \<equiv> 0"
abbreviation DT_HASH :: u64 where "DT_HASH \<equiv> 4"
abbreviation DT_STRTAB :: u64 where "DT_STRTAB \<equiv> 5"
abbreviation DT_SYMTAB :: u64 where "DT_SYMTAB \<equiv> 6"
abbreviation DT_VERSYM :: u64 where "DT_VERSYM \<equiv> 0x6ffffff0"
abbreviation DT_VERDEF :: u64 where "DT_VERDEF \<equiv> 0x6ffffffc"
abbreviation VER_FLG_BASE :: u16 where "VER_FLG_BASE \<equiv> 1"
abbreviation STT_FUNC :: u8 where "STT_FUNC \<equiv> 2"
abbreviation STB_GLOBAL :: u8 where "STB_GLOBAL \<equiv> 1"
abbreviation STB_WEAK :: u8 where "STB_WEAK \<equiv> 2"
abbreviation SHN_UNDEF :: u16 where "SHN_UNDEF \<equiv> 0"
abbreviation STN_UNDEF :: u32 where "STN_UNDEF \<equiv> 0"
abbreviation AT_NULL :: u64 where "AT_NULL \<equiv> 0"
abbreviation AT_SYSINFO_EHDR :: u64 where "AT_SYSINFO_EHDR \<equiv> 33"

definition ELF64_ST_TYPE :: "u8 \<Rightarrow> u8" where "ELF64_ST_TYPE i = i AND 0xf"
definition ELF64_ST_BIND :: "u8 \<Rightarrow> u8" where "ELF64_ST_BIND i = drop_bit 4 i"

record vdso_info =
  valid :: bool
  load_addr :: u64
  load_offset :: u64
  symtab :: u64
  symstrings :: u64
  bucket :: u64
  chain :: u64
  nbucket :: u32
  nchain :: u32
  versym :: u64
  verdef :: u64

section \<open>The hash function\<close>

text \<open>
  \<open>elf_hash\<close>, with \<open>unsigned long\<close> 64 bits wide:
  \<open>h = (h << 4) + *name++; if (g = h & 0xf0000000) h ^= g >> 24; h &= ~g;\<close>
\<close>

definition elf_hash_step :: "u64 \<Rightarrow> u8 \<Rightarrow> u64" where
  "elf_hash_step h c =
     (let h1 = push_bit 4 h + ucast c;
          g = h1 AND 0xf0000000;
          h2 = (if g \<noteq> 0 then h1 XOR drop_bit 24 g else h1)
      in h2 AND NOT g)"

fun elf_hash_loop :: "u64 \<Rightarrow> u8 list \<Rightarrow> u64" where
  "elf_hash_loop h [] = h"
| "elf_hash_loop h (c # name) = (if c = 0 then h else elf_hash_loop (elf_hash_step h c) name)"

definition elf_hash :: "u8 list \<Rightarrow> u64" where
  "elf_hash name = elf_hash_loop 0 name"

text \<open>\<open>strcmp(name, p) == 0\<close> for a caller's string and a string in memory.\<close>

fun mem_streq :: "memory \<Rightarrow> u8 list \<Rightarrow> u64 \<Rightarrow> bool" where
  "mem_streq m [] a = (m a = 0)"
| "mem_streq m (c # cs) a = (if c = 0 then m a = 0 else m a = c \<and> mem_streq m cs (a + 1))"

section \<open>Initialisation\<close>

text \<open>One turn of the loop over the program headers (56 bytes each).\<close>

definition phdr_step ::
  "memory \<Rightarrow> u64 \<Rightarrow> u64 \<Rightarrow> bool \<times> u64 \<times> u64 \<Rightarrow> nat \<Rightarrow> bool \<times> u64 \<times> u64" where
  "phdr_step m base pt st i =
     (case st of (found_vaddr, off, dyn) \<Rightarrow>
        let p = pt + of_nat (56 * i); p_type = ld32 m p;
            p_offset = ld64 m (p + 8); p_vaddr = ld64 m (p + 16)
        in if p_type = PT_LOAD \<and> \<not> found_vaddr then (True, base + p_offset - p_vaddr, dyn)
           else if p_type = PT_DYNAMIC then (found_vaddr, off, base + p_offset)
           else (found_vaddr, off, dyn))"

text \<open>The switch over one entry of the dynamic table; the first component is \<open>hash\<close>.\<close>

definition dyn_entry :: "u64 \<Rightarrow> u64 \<Rightarrow> u64 \<times> vdso_info \<Rightarrow> u64 \<times> vdso_info" where
  "dyn_entry d_tag d_ptr st =
     (case st of (hash, info) \<Rightarrow>
        let p = d_ptr + load_offset info in
        if d_tag = DT_STRTAB then (hash, info\<lparr>symstrings := p\<rparr>)
        else if d_tag = DT_SYMTAB then (hash, info\<lparr>symtab := p\<rparr>)
        else if d_tag = DT_HASH then (p, info)
        else if d_tag = DT_VERSYM then (hash, info\<lparr>versym := p\<rparr>)
        else if d_tag = DT_VERDEF then (hash, info\<lparr>verdef := p\<rparr>)
        else (hash, info))"

partial_function (option) dyn_scan ::
  "memory \<Rightarrow> u64 \<Rightarrow> nat \<Rightarrow> u64 \<times> vdso_info \<Rightarrow> (u64 \<times> vdso_info) option" where
  "dyn_scan m dyn i st =
     (let d = dyn + of_nat (16 * i); d_tag = ld64 m d in
      if d_tag = DT_NULL then Some st
      else dyn_scan m dyn (Suc i) (dyn_entry d_tag (ld64 m (d + 8)) st))"

definition vdso_finish :: "memory \<Rightarrow> u64 \<times> vdso_info \<Rightarrow> vdso_info" where
  "vdso_finish m st =
     (case st of (hash, info) \<Rightarrow>
        if symstrings info = 0 \<or> symtab info = 0 \<or> hash = 0 then info
        else
          let info1 = (if verdef info = 0 then info\<lparr>versym := 0\<rparr> else info);
              nb = ld32 m hash
          in info1\<lparr>nbucket := nb, nchain := ld32 m (hash + 4), bucket := hash + 8,
               chain := hash + 4 * ucast (nb + 2), valid := True\<rparr>)"

definition vdso_init_from_sysinfo_ehdr ::
  "memory \<Rightarrow> u64 \<Rightarrow> vdso_info \<Rightarrow> vdso_info option" where
  "vdso_init_from_sysinfo_ehdr m base info =
     (let info1 = info\<lparr>valid := False, load_addr := base\<rparr> in
      if m (base + 4) \<noteq> ELFCLASS64 then Some info1
      else
        let pt = base + ld64 m (base + 32);
            phnum = unat (ld16 m (base + 56));
            (found_vaddr, off, dyn) =
              foldl (phdr_step m base pt) (False, load_offset info1, 0) [0..<phnum];
            info2 = info1\<lparr>load_offset := off\<rparr>
        in if \<not> found_vaddr \<or> dyn = 0 then Some info2
           else map_option (vdso_finish m)
             (dyn_scan m dyn 0
               (0, info2\<lparr>symstrings := 0, symtab := 0, versym := 0, verdef := 0\<rparr>)))"

partial_function (option) auxv_scan :: "memory \<Rightarrow> u64 \<Rightarrow> nat \<Rightarrow> vdso_info \<Rightarrow> vdso_info option" where
  "auxv_scan m auxv i info =
     (let e = auxv + of_nat (16 * i); a_type = ld64 m e in
      if a_type = AT_NULL then Some (info\<lparr>valid := False\<rparr>)
      else if a_type = AT_SYSINFO_EHDR then vdso_init_from_sysinfo_ehdr m (ld64 m (e + 8)) info
      else auxv_scan m auxv (Suc i) info)"

definition vdso_init_from_auxv :: "memory \<Rightarrow> u64 \<Rightarrow> vdso_info \<Rightarrow> vdso_info option" where
  "vdso_init_from_auxv m auxv info = auxv_scan m auxv 0 info"

section \<open>Symbol lookup\<close>

text \<open>The loop that looks for the version definition: \<open>Some None\<close> is "no definition".\<close>

partial_function (option) find_verdef :: "memory \<Rightarrow> u16 \<Rightarrow> u64 \<Rightarrow> u64 option option" where
  "find_verdef m ver d =
     (let vd_flags = ld16 m (d + 2); vd_ndx = ld16 m (d + 4); vd_next = ld32 m (d + 16) in
      if vd_flags AND VER_FLG_BASE = 0 \<and> vd_ndx AND 0x7fff = ver then Some (Some d)
      else if vd_next = 0 then Some None
      else find_verdef m ver (d + ucast vd_next))"

definition vdso_match_version ::
  "memory \<Rightarrow> vdso_info \<Rightarrow> u16 \<Rightarrow> u8 list \<Rightarrow> u32 \<Rightarrow> bool option" where
  "vdso_match_version m info ver name hash =
     (case find_verdef m (ver AND 0x7fff) (verdef info) of
        None \<Rightarrow> None
      | Some None \<Rightarrow> Some False
      | Some (Some d) \<Rightarrow>
          let aux = d + ucast (ld32 m (d + 12))
          in Some (ld32 m (d + 8) = hash \<and> mem_streq m name (symstrings info + ucast (ld32 m aux))))"

definition sym_at :: "vdso_info \<Rightarrow> u32 \<Rightarrow> u64" where
  "sym_at info c = symtab info + 24 * ucast c"

text \<open>The chain of \<open>continue\<close> tests before the version test.\<close>

definition sym_candidate :: "memory \<Rightarrow> vdso_info \<Rightarrow> u8 list \<Rightarrow> u32 \<Rightarrow> bool" where
  "sym_candidate m info name c =
     (let sym = sym_at info c; st_info = m (sym + 4) in
      ELF64_ST_TYPE st_info = STT_FUNC
      \<and> (ELF64_ST_BIND st_info = STB_GLOBAL \<or> ELF64_ST_BIND st_info = STB_WEAK)
      \<and> ld16 m (sym + 6) \<noteq> SHN_UNDEF
      \<and> mem_streq m name (symstrings info + ucast (ld32 m sym)))"

text \<open>The version test: skipped when there is no version table.\<close>

definition sym_version_ok :: "memory \<Rightarrow> vdso_info \<Rightarrow> u8 list \<Rightarrow> u64 \<Rightarrow> u32 \<Rightarrow> bool option" where
  "sym_version_ok m info version ver_hash c =
     (if versym info = 0 then Some True
      else vdso_match_version m info (ld16 m (versym info + 2 * ucast c)) version (ucast ver_hash))"

partial_function (option) sym_walk ::
  "memory \<Rightarrow> vdso_info \<Rightarrow> u8 list \<Rightarrow> u8 list \<Rightarrow> u64 \<Rightarrow> u32 \<Rightarrow> u64 option" where
  "sym_walk m info version name ver_hash c =
     (if c = STN_UNDEF then Some 0
      else if sym_candidate m info name c then
        (case sym_version_ok m info version ver_hash c of
           None \<Rightarrow> None
         | Some ok \<Rightarrow>
             if ok then Some (load_offset info + ld64 m (sym_at info c + 8))
             else sym_walk m info version name ver_hash (ld32 m (chain info + 4 * ucast c)))
      else sym_walk m info version name ver_hash (ld32 m (chain info + 4 * ucast c)))"

definition vdso_sym :: "memory \<Rightarrow> vdso_info \<Rightarrow> u8 list \<Rightarrow> u8 list \<Rightarrow> u64 option" where
  "vdso_sym m info version name =
     (if \<not> valid info then Some 0
      else if nbucket info = 0 then None
      else sym_walk m info version name (elf_hash version)
        (ld32 m (bucket info + 4 * (elf_hash name mod ucast (nbucket info)))))"


section \<open>The hash against the 32-bit algorithm of the ELF specification\<close>

definition elf_hash32_step :: "u32 \<Rightarrow> u8 \<Rightarrow> u32" where
  "elf_hash32_step h c =
     (let h1 = push_bit 4 h + ucast c;
          g = h1 AND 0xf0000000;
          h2 = (if g \<noteq> 0 then h1 XOR drop_bit 24 g else h1)
      in h2 AND NOT g)"

fun elf_hash32_loop :: "u32 \<Rightarrow> u8 list \<Rightarrow> u32" where
  "elf_hash32_loop h [] = h"
| "elf_hash32_loop h (c # name) =
     (if c = 0 then h else elf_hash32_loop (elf_hash32_step h c) name)"

definition elf_hash32 :: "u8 list \<Rightarrow> u32" where
  "elf_hash32 name = elf_hash32_loop 0 name"

lemma bit_high_nibble:
  "32 \<le> LENGTH('a) \<Longrightarrow>
   bit (0xf0000000 :: 'a::len word) n \<longleftrightarrow> 28 \<le> n \<and> n < 32"
proof -
  assume len: "32 \<le> LENGTH('a)"
  have "(0xf0000000 :: 'a word) = push_bit 28 (mask 4)"
    by (simp add: push_bit_eq_mult mask_eq_exp_minus_1)
  then have "bit (0xf0000000 :: 'a word) n = bit (push_bit 28 (mask 4) :: 'a word) n" by (simp only:)
  also have "\<dots> \<longleftrightarrow> 28 \<le> n \<and> n < 32"
    using len by (subst bit_push_bit_iff, subst bit_mask_iff) auto
  finally show ?thesis .
qed

lemma ucast_add_down: "(ucast (a + b) :: u32) = ucast (a :: u64) + ucast b"
  by (rule word_uint_eqI)
    (simp add: uint_word_ariths unsigned_ucast_eq take_bit_eq_mod mod_mod_cancel mod_add_eq)

definition nibble_fold :: "'a::len word \<Rightarrow> 'a word" where
  "nibble_fold h1 = (h1 XOR drop_bit 24 (h1 AND 0xf0000000)) AND NOT (h1 AND 0xf0000000)"

lemma xor_shift_if: "(if g \<noteq> 0 then h XOR drop_bit 24 g else h) = h XOR drop_bit 24 (g :: 'a::len word)"
  by simp

lemma elf_steps_nibble_fold:
  "elf_hash_step h c = nibble_fold (push_bit 4 h + ucast c)"
  "elf_hash32_step h' c = nibble_fold (push_bit 4 h' + ucast c)"
  unfolding elf_hash_step_def elf_hash32_step_def nibble_fold_def Let_def
    xor_shift_if by (rule refl)+

lemma bit_nibble_fold:
  assumes "32 \<le> LENGTH('a)"
  shows "bit (nibble_fold (h :: 'a::len word)) n \<longleftrightarrow>
     n < LENGTH('a) \<and> (bit h n \<noteq> (bit h (24 + n) \<and> 4 \<le> n \<and> n < 8)) \<and> \<not> (bit h n \<and> 28 \<le> n \<and> n < 32)"
proof -
  have "bit (nibble_fold h) n \<longleftrightarrow>
      (bit h n \<noteq> (bit h (24 + n) \<and> 28 \<le> 24 + n \<and> 24 + n < 32)) \<and>
      (n < LENGTH('a) \<and> \<not> (bit h n \<and> 28 \<le> n \<and> n < 32))"
    unfolding nibble_fold_def bit_and_iff bit_xor_iff bit_not_iff_eq bit_drop_bit_eq comp_def
      bit_high_nibble [OF assms] by (auto simp: not_le)
  then show ?thesis by auto
qed

lemma ucast_nibble_fold: "(ucast (nibble_fold (h :: u64)) :: u32) = nibble_fold (ucast h)"
  by (rule bit_word_eqI) (auto simp: bit_nibble_fold bit_ucast_iff)

lemma nibble_fold_bound: "nibble_fold (h :: u32) < 2 ^ 28"
proof -
  have "nibble_fold h = take_bit 28 (nibble_fold h)"
    by (rule bit_word_eqI) (auto simp: bit_nibble_fold bit_take_bit_iff)
  moreover have "unat (take_bit 28 (nibble_fold h)) < 2 ^ 28"
    by (simp only: unsigned_take_bit_eq take_bit_nat_less_exp)
  ultimately show ?thesis by (simp add: word_less_nat_alt)
qed

lemma ucast_push_bit_4: "(ucast (push_bit 4 (h :: u64)) :: u32) = push_bit 4 (ucast h)"
  by (rule bit_word_eqI) (auto simp: bit_ucast_iff bit_push_bit_iff dest: bit_imp_le_length)

lemma ucast_ucast_u8: "(ucast (ucast (c :: u8) :: u64) :: u32) = ucast c"
  by (rule bit_word_eqI) (auto simp: bit_ucast_iff dest: bit_imp_le_length)

lemma elf_hash_step_low:
  "(ucast (elf_hash_step h c) :: u32) = elf_hash32_step (ucast h) c"
  by (simp add: elf_steps_nibble_fold ucast_nibble_fold ucast_add_down ucast_push_bit_4
      ucast_ucast_u8)

lemma elf_hash_loop_low:
  "(ucast (elf_hash_loop h name) :: u32) = elf_hash32_loop (ucast h) name"
  by (induction name arbitrary: h) (simp_all add: elf_hash_step_low)

lemma elf_hash32_loop_bound: "h < 2 ^ 28 \<Longrightarrow> elf_hash32_loop h name < 2 ^ 28"
  by (induction name arbitrary: h)
    (simp_all add: elf_steps_nibble_fold nibble_fold_bound del: power_numeral)

lemma elf_hash_low: "(ucast (elf_hash name) :: u32) = elf_hash32 name"
  by (simp add: elf_hash_def elf_hash32_def elf_hash_loop_low)

text \<open>
  The hash that is compared with a version's \<open>vd_hash\<close>, the low 32 bits of
  \<open>elf_hash\<close>, is the hash of the ELF specification (which has 32-bit arithmetic), for
  every name, and that hash has at most 28 bits.
\<close>
theorem elf_hash_low_bits:
  "(ucast (elf_hash name) :: u32) = elf_hash32 name \<and> elf_hash32 name < 2 ^ 28"
  using elf_hash32_loop_bound [of 0 name] by (simp add: elf_hash_low elf_hash32_def)

declare dyn_scan.simps [code] auxv_scan.simps [code] find_verdef.simps [code] sym_walk.simps [code]

section \<open>A small vDSO image\<close>

text \<open>
  One function symbol in slot 1, whose name is at offset 1 of the string table, in a hash
  table with the given bucket heads. Addresses: symbol table 0x100, strings 0x200, buckets
  0x300, chains 0x400.
\<close>

fun store_bytes :: "u64 \<Rightarrow> u8 list \<Rightarrow> memory \<Rightarrow> memory" where
  "store_bytes a [] m = m"
| "store_bytes a (b # bs) m = store_bytes (a + 1) bs (m(a := b))"

definition sample_memory :: "u8 list \<Rightarrow> u8 list \<Rightarrow> memory" where
  "sample_memory name heads =
     store_bytes 0x118 [1, 0, 0, 0, 0x12, 0, 1, 0, 0x40]
       (store_bytes 0x201 name (store_bytes 0x300 heads (\<lambda>a. 0)))"

definition sample_info :: "u32 \<Rightarrow> vdso_info" where
  "sample_info nb = \<lparr>valid = True, load_addr = 0x10000, load_offset = 0x10000, symtab = 0x100,
     symstrings = 0x200, bucket = 0x300, chain = 0x400, nbucket = nb, nchain = 2,
     versym = 0, verdef = 0\<rparr>"

lemmas sample_defs = sample_memory_def sample_info_def


section \<open>Lookup is a search along the hash chain\<close>

text \<open>The chain that starts at an index, as the list of its members.\<close>

fun chain_path :: "memory \<Rightarrow> vdso_info \<Rightarrow> u32 \<Rightarrow> u32 list \<Rightarrow> bool" where
  "chain_path m info c [] = (c = STN_UNDEF)"
| "chain_path m info c (d # ds) =
     (c = d \<and> c \<noteq> STN_UNDEF \<and> chain_path m info (ld32 m (chain info + 4 * ucast c)) ds)"

definition sym_address :: "memory \<Rightarrow> vdso_info \<Rightarrow> u32 option \<Rightarrow> u64" where
  "sym_address m info r =
     (case r of None \<Rightarrow> 0
      | Some c \<Rightarrow> load_offset info + ld64 m (symtab info + 24 * ucast c + 8))"

text \<open>The list of version definitions that starts at an address.\<close>

fun verdef_path :: "memory \<Rightarrow> u64 \<Rightarrow> u64 list \<Rightarrow> bool" where
  "verdef_path m d [] = False"
| "verdef_path m d (e # es) =
     (d = e \<and> (if es = [] then ld32 m (d + 16) = 0
                else ld32 m (d + 16) \<noteq> 0 \<and> verdef_path m (d + ucast (ld32 m (d + 16))) es))"

definition verdef_defines :: "memory \<Rightarrow> u16 \<Rightarrow> u64 \<Rightarrow> bool" where
  "verdef_defines m ver d \<longleftrightarrow>
     ld16 m (d + 2) AND VER_FLG_BASE = 0 \<and> ld16 m (d + 4) AND 0x7fff = ver"

lemma find_verdef_find:
  "verdef_path m d ds \<Longrightarrow> find_verdef m ver d = Some (find (verdef_defines m ver) ds)"
proof (induction ds arbitrary: d)
  case (Cons e es)
  then show ?case
    by (subst find_verdef.simps) (auto simp: verdef_defines_def [of m ver e] Let_def split: if_splits)
qed simp

text \<open>
  What a symbol has to be, stated on the ELF fields: strings are compared as strings, the
  symbol type and binding are the low and high half of \<open>st_info\<close>, and the version hash
  is the specification's.
\<close>

definition cstring_at :: "memory \<Rightarrow> u64 \<Rightarrow> u8 list \<Rightarrow> bool" where
  "cstring_at m a s \<longleftrightarrow> mem_bytes m a (length s) = s \<and> m (a + of_nat (length s)) = 0"

definition c_string :: "u8 list \<Rightarrow> u8 list" where "c_string s = takeWhile (\<lambda>c. c \<noteq> 0) s"

definition defined_function :: "memory \<Rightarrow> vdso_info \<Rightarrow> u8 list \<Rightarrow> u32 \<Rightarrow> bool" where
  "defined_function m info name c \<longleftrightarrow>
     m (symtab info + 24 * ucast c + 4) mod 16 = 2
     \<and> m (symtab info + 24 * ucast c + 4) div 16 \<in> {1, 2}
     \<and> ld16 m (symtab info + 24 * ucast c + 6) \<noteq> 0
     \<and> cstring_at m (symstrings info + ucast (ld32 m (symtab info + 24 * ucast c))) (c_string name)"

definition has_version :: "memory \<Rightarrow> vdso_info \<Rightarrow> u64 list \<Rightarrow> u8 list \<Rightarrow> u32 \<Rightarrow> bool" where
  "has_version m info ds version c \<longleftrightarrow> versym info = 0 \<or>
     (case find (verdef_defines m (ld16 m (versym info + 2 * ucast c) AND 0x7fff)) ds of
        None \<Rightarrow> False
      | Some d \<Rightarrow> ld32 m (d + 8) = elf_hash32 version
          \<and> cstring_at m (symstrings info + ucast (ld32 m (d + ucast (ld32 m (d + 12)))))
              (c_string version))"

definition sym_matches ::
  "memory \<Rightarrow> vdso_info \<Rightarrow> u64 list \<Rightarrow> u8 list \<Rightarrow> u8 list \<Rightarrow> u32 \<Rightarrow> bool" where
  "sym_matches m info ds version name c \<longleftrightarrow>
     defined_function m info name c \<and> has_version m info ds version c"

lemma mem_streq_cstring: "mem_streq m s a = cstring_at m a (c_string s)"
  by (induction s arbitrary: a) (auto simp: cstring_at_def c_string_def add.assoc)

lemma sym_candidate_defined: "sym_candidate m info name c = defined_function m info name c"
proof -
  have "(i AND 0xf) = i mod 16" "drop_bit 4 i = i div 16" for i :: u8
    using take_bit_eq_mask [of 4 i] by (simp_all add: drop_bit_eq_div take_bit_eq_mod mask_eq_exp_minus_1)
  then show ?thesis
    by (simp add: sym_candidate_def defined_function_def sym_at_def ELF64_ST_TYPE_def
        ELF64_ST_BIND_def mem_streq_cstring Let_def)
qed

text \<open>A version table that ends, or none, decides every version test.\<close>

lemma sym_version_ok_decided:
  "versym info = 0 \<or> verdef_path m (verdef info) ds \<Longrightarrow>
   sym_version_ok m info version (elf_hash version) c = Some (has_version m info ds version c)"
  by (auto simp: sym_version_ok_def has_version_def vdso_match_version_def find_verdef_find
      mem_streq_cstring elf_hash_low Let_def split: option.splits)

lemma sym_walk_find:
  "chain_path m info c cs \<Longrightarrow> versym info = 0 \<or> verdef_path m (verdef info) ds \<Longrightarrow>
   sym_walk m info version name (elf_hash version) c =
     Some (sym_address m info (find (sym_matches m info ds version name) cs))"
proof (induction cs arbitrary: c)
  case Nil
  then show ?case by (simp add: sym_walk.simps sym_address_def)
next
  case (Cons d cs)
  then show ?case
    by (subst sym_walk.simps)
      (auto simp: sym_address_def sym_matches_def [of m info ds version name d]
        sym_candidate_defined sym_version_ok_decided sym_at_def)
qed

text \<open>
  C7. \<open>vdso_sym\<close> on a valid vDSO whose hash chain ends, and whose list of version
  definitions ends if it has one: it returns, and the result is the relocated value of the
  first symbol on the chain of the name's bucket that is a defined, global or weak function
  with that name and that version, or 0 when there is none.
\<close>
theorem vdso_sym_first_match:
  assumes "valid info" and "nbucket info \<noteq> 0"
    and "chain_path m info (ld32 m (bucket info + 4 * (elf_hash name mod ucast (nbucket info)))) cs"
    and "versym info = 0 \<or> verdef_path m (verdef info) ds"
  shows "vdso_sym m info version name =
     Some (sym_address m info (find (sym_matches m info ds version name) cs))"
  using assms by (simp add: vdso_sym_def sym_walk_find)

theorem vdso_sym_first_match_witness:
  "let m = sample_memory [0x66] [1]; info = sample_info 1 in
   vdso_sym m info [] [0x66] = Some (sym_address m info (find (sym_matches m info [] [] [0x66]) [1]))
   \<and> vdso_sym m info [] [0x66] = Some 0x10040"
proof -
  let ?m = "sample_memory [0x66] [1]" and ?i = "sample_info 1"
  have h: "valid ?i" "nbucket ?i \<noteq> 0" by (simp_all add: sample_info_def)
  have c: "chain_path ?m ?i (ld32 ?m (bucket ?i + 4 * (elf_hash [0x66] mod ucast (nbucket ?i)))) [1]"
    by code_simp
  have v: "versym ?i = 0 \<or> verdef_path ?m (verdef ?i) []" by (simp add: sample_info_def)
  have "vdso_sym ?m ?i [] [0x66] = Some 0x10040" by code_simp
  then show ?thesis using vdso_sym_first_match [OF h c v] by (simp add: Let_def)
qed

section \<open>Initialisation on a well-formed image\<close>

text \<open>The entries of a dynamic table up to its terminator.\<close>

fun dyn_table :: "memory \<Rightarrow> u64 \<Rightarrow> nat \<Rightarrow> (u64 \<times> u64) list \<Rightarrow> bool" where
  "dyn_table m dyn i [] = (ld64 m (dyn + of_nat (16 * i)) = DT_NULL)"
| "dyn_table m dyn i ((t, p) # es) =
     (ld64 m (dyn + of_nat (16 * i)) = t \<and> t \<noteq> DT_NULL
      \<and> ld64 m (dyn + of_nat (16 * i) + 8) = p \<and> dyn_table m dyn (Suc i) es)"

lemma dyn_scan_table:
  "dyn_table m dyn i es \<Longrightarrow>
   dyn_scan m dyn i st = Some (foldl (\<lambda>s (t, p). dyn_entry t p s) st es)"
proof (induction es arbitrary: i st)
  case Nil
  then show ?case by (simp add: dyn_scan.simps [of m dyn i])
next
  case (Cons e es)
  then show ?case by (cases e) (simp add: dyn_scan.simps [of m dyn i])
qed

text \<open>The last entry with a tag, relocated; 0 when the table has none.\<close>

fun dyn_ptr :: "u64 \<Rightarrow> u64 \<Rightarrow> u64 \<Rightarrow> (u64 \<times> u64) list \<Rightarrow> u64" where
  "dyn_ptr off t r [] = r"
| "dyn_ptr off t r ((u, p) # es) = dyn_ptr off t (if u = t then p + off else r) es"

lemma dyn_entries_fold:
  "foldl (\<lambda>s (t, p). dyn_entry t p s) (h, info) es =
     (dyn_ptr (load_offset info) DT_HASH h es,
      info\<lparr>symtab := dyn_ptr (load_offset info) DT_SYMTAB (symtab info) es,
           symstrings := dyn_ptr (load_offset info) DT_STRTAB (symstrings info) es,
           versym := dyn_ptr (load_offset info) DT_VERSYM (versym info) es,
           verdef := dyn_ptr (load_offset info) DT_VERDEF (verdef info) es\<rparr>)"
proof (induction es arbitrary: h info)
  case (Cons e es)
  obtain t p where e: "e = (t, p)" by (cases e)
  show ?case unfolding e by (simp add: Cons dyn_entry_def [of t p "(h, info)"] Let_def)
qed simp

text \<open>The program header loop: a load segment was found, the first one fixes the offset.\<close>

definition phdr_scan :: "memory \<Rightarrow> u64 \<Rightarrow> u64 \<Rightarrow> bool \<times> u64 \<times> u64" where
  "phdr_scan m base off0 =
     foldl (phdr_step m base (base + ld64 m (base + 32))) (False, off0, 0)
       [0..<unat (ld16 m (base + 56))]"

definition phdr_type :: "memory \<Rightarrow> u64 \<Rightarrow> nat \<Rightarrow> u32" where
  "phdr_type m base i = ld32 m (base + ld64 m (base + 32) + of_nat (56 * i))"

lemma phdr_fold_found:
  "fst (foldl (phdr_step m base (base + ld64 m (base + 32))) st is) \<longleftrightarrow>
     fst st \<or> (\<exists>i\<in>set is. phdr_type m base i = PT_LOAD)"
proof (induction "is" arbitrary: st)
  case (Cons i "is")
  have "fst (phdr_step m base (base + ld64 m (base + 32)) st i) \<longleftrightarrow>
      fst st \<or> phdr_type m base i = PT_LOAD"
    by (cases st) (auto simp: phdr_step_def phdr_type_def Let_def)
  with Cons show ?case by auto
qed simp

lemma phdr_scan_found:
  "fst (phdr_scan m base off0) \<longleftrightarrow>
     (\<exists>i < unat (ld16 m (base + 56)). phdr_type m base i = PT_LOAD)"
  by (auto simp: phdr_scan_def phdr_fold_found)

lemma init_unfold:
  "vdso_init_from_sysinfo_ehdr m base info =
     (let info1 = info\<lparr>valid := False, load_addr := base\<rparr> in
      if m (base + 4) \<noteq> ELFCLASS64 then Some info1
      else case phdr_scan m base (load_offset info) of (found, off, dyn) \<Rightarrow>
        let info2 = info1\<lparr>load_offset := off\<rparr> in
        if \<not> found \<or> dyn = 0 then Some info2
        else map_option (vdso_finish m)
             (dyn_scan m dyn 0
               (0, info2\<lparr>symstrings := 0, symtab := 0, versym := 0, verdef := 0\<rparr>)))"
  by (simp add: vdso_init_from_sysinfo_ehdr_def phdr_scan_def Let_def)

lemma finish_valid:
  "valid (vdso_finish m (h, info)) \<longleftrightarrow>
     valid info \<or> (symstrings info \<noteq> 0 \<and> symtab info \<noteq> 0 \<and> h \<noteq> 0)"
  by (simp add: vdso_finish_def Let_def)


definition sample_image :: memory where
  "sample_image =
     store_bytes 0x1004 [2] (store_bytes 0x1020 [64] (store_bytes 0x1038 [2]
     (store_bytes 0x1040 [1] (store_bytes 0x1078 [2, 0, 0, 0, 0, 0, 0, 0, 0, 1]
     (store_bytes 0x1100
        [5, 0, 0, 0, 0, 0, 0, 0, 0, 2, 0, 0, 0, 0, 0, 0,
         6, 0, 0, 0, 0, 0, 0, 0, 0, 3, 0, 0, 0, 0, 0, 0,
         4, 0, 0, 0, 0, 0, 0, 0, 0, 4, 0, 0, 0, 0, 0, 0]
     (store_bytes 0x1400 [1] (\<lambda>a. 0)))))))"


text \<open>
  An image of another class, or without a load segment, is never accepted: if
  initialisation returns, the vDSO is not valid, and every lookup then returns 0.
\<close>
theorem vdso_init_rejects:
  assumes "m (base + 4) \<noteq> ELFCLASS64
      \<or> \<not> (\<exists>i < unat (ld16 m (base + 56)). phdr_type m base i = PT_LOAD)"
  shows "\<exists>info'. vdso_init_from_sysinfo_ehdr m base info = Some info' \<and> \<not> valid info'
    \<and> vdso_sym m' info' version name = Some 0"
proof -
  obtain found off dyn where p: "phdr_scan m base (load_offset info) = (found, off, dyn)"
    by (metis prod_cases3)
  have "m (base + 4) = ELFCLASS64 \<Longrightarrow> \<not> found"
    using assms phdr_scan_found [of m base "load_offset info"] p by auto
  then show ?thesis by (auto simp: init_unfold p Let_def vdso_sym_def)
qed

theorem vdso_init_rejects_witness:
  "\<exists>info'. vdso_init_from_sysinfo_ehdr (\<lambda>a. 0) 0x1000 (sample_info 1) = Some info'
     \<and> \<not> valid info' \<and> vdso_sym (\<lambda>a. 0) info' [] [0x66] = Some 0"
  using vdso_init_rejects [where m = "\<lambda>a. 0" and base = "0x1000" and info = "sample_info 1"
      and m' = "\<lambda>a. 0" and version = "[]" and name = "[0x66]"] by simp

text \<open>
  Initialisation from the auxiliary vector: with a terminated vector it behaves as the
  initialisation at the first \<open>AT_SYSINFO_EHDR\<close> entry, and marks the vDSO as not valid
  when there is no such entry.
\<close>
theorem vdso_init_from_auxv_first:
  assumes "dyn_table m auxv 0 es"
  shows "vdso_init_from_auxv m auxv info =
     (case find (\<lambda>e. fst e = AT_SYSINFO_EHDR) es of
        None \<Rightarrow> Some (info\<lparr>valid := False\<rparr>)
      | Some e \<Rightarrow> vdso_init_from_sysinfo_ehdr m (snd e) info)"
proof -
  have "dyn_table m auxv i es \<Longrightarrow> auxv_scan m auxv i info =
     (case find (\<lambda>e. fst e = AT_SYSINFO_EHDR) es of
        None \<Rightarrow> Some (info\<lparr>valid := False\<rparr>)
      | Some e \<Rightarrow> vdso_init_from_sysinfo_ehdr m (snd e) info)" for i
  proof (induction es arbitrary: i)
    case Nil
    then show ?case by (simp add: auxv_scan.simps [of m auxv i])
  next
    case (Cons e es)
    then show ?case by (cases e) (simp add: auxv_scan.simps [of m auxv i])
  qed
  with assms show ?thesis by (simp add: vdso_init_from_auxv_def)
qed

theorem vdso_init_from_auxv_first_witness:
  "vdso_init_from_auxv (store_bytes 0x2000 [33, 0, 0, 0, 0, 0, 0, 0, 0, 0x10] sample_image) 0x2000
       (sample_info 0) =
     vdso_init_from_sysinfo_ehdr (store_bytes 0x2000 [33, 0, 0, 0, 0, 0, 0, 0, 0, 0x10] sample_image)
       0x1000 (sample_info 0)"
proof -
  have t: "dyn_table (store_bytes 0x2000 [33, 0, 0, 0, 0, 0, 0, 0, 0, 0x10] sample_image) 0x2000 0
      [(33, 0x1000)]" by code_simp
  show ?thesis by (simp only: vdso_init_from_auxv_first [OF t]) simp
qed

end
