(* ===== verification/Vdso_Test.thy ===== *)
theory Vdso_Test
  imports Parse_Vdso
begin

text \<open>
  Model of \<open>src/Documentation/vDSO/vdso_standalone_test_x86.c\<close>: a program without a C
  library that finds \<open>gettimeofday\<close> in the vDSO with the parser of \<open>Parse_Vdso\<close>
  and prints the time; and of \<open>src/Documentation/vDSO/vdso_test.c\<close>, which does the same
  with a C library. Strings are byte lists without their terminator; the two system calls
  are the result: the text written and the exit status. Memory is the memory of the parser's
  model, and the function found is an argument that maps its address to its answer.
\<close>

section \<open>Library functions\<close>

text \<open>The bytes a pointer sees: the string, then its terminator.\<close>

definition deref :: "u8 list \<Rightarrow> u8" where "deref s = (case s of [] \<Rightarrow> 0 | c # _ \<Rightarrow> c)"

function strcmp :: "u8 list \<Rightarrow> u8 list \<Rightarrow> int" where
  "strcmp a b =
     (if deref a \<noteq> 0 \<or> deref b \<noteq> 0 then
        (if deref a \<noteq> deref b then 1
         else if deref a = 0 \<or> deref b = 0 then 1
         else strcmp (tl a) (tl b))
      else 0)"
  by auto
termination
  by (relation "measure (\<lambda>(a, b). length a)") (auto simp: deref_def split: list.splits)

declare strcmp.simps [simp del]

text \<open>
  \<open>to_base10\<close>: digits from the last one backwards, \<open>None\<close> when they leave the buffer.
\<close>

function to_base10 :: "string \<Rightarrow> int \<Rightarrow> int \<Rightarrow> string option" where
  "to_base10 buf lastdig n =
     (if n = 0 then Some buf
      else if lastdig < 0 \<or> int (length buf) \<le> lastdig then None
      else to_base10 (buf[nat lastdig := char_of (nat (c_rem n 10 + 48))]) (lastdig - 1) (c_quot n 10))"
  by auto
termination
proof (relation "measure (\<lambda>(buf, l, n). nat \<bar>n\<bar>)", simp)
  fix buf :: string and l n :: int
  assume "n \<noteq> 0"
  have "\<bar>c_quot n 10\<bar> = \<bar>n\<bar> div 10" using \<open>n \<noteq> 0\<close> by (simp add: c_quot_def abs_mult)
  moreover have "\<bar>n\<bar> div 10 < \<bar>n\<bar>" using \<open>n \<noteq> 0\<close> by (intro int_div_less_self) simp_all
  ultimately show "((buf[nat l := char_of (nat (c_rem n 10 + 48))], l - 1, c_quot n 10), (buf, l, n))
      \<in> measure (\<lambda>(buf, l, n). nat \<bar>n\<bar>)" by simp
qed

declare to_base10.simps [simp del]

section \<open>The program\<close>

definition zero_info :: vdso_info where
  "zero_info = \<lparr>valid = False, load_addr = 0, load_offset = 0, symtab = 0, symstrings = 0, bucket = 0, chain = 0,
     nbucket = 0, nchain = 0, versym = 0, verdef = 0\<rparr>"

text \<open>The environment ends at a null pointer; \<open>None\<close> when there is none.\<close>

partial_function (option) skip_env :: "memory \<Rightarrow> u64 \<Rightarrow> u64 option" where
  "skip_env m stack = (if ld64 m stack = 0 then Some (stack + 8) else skip_env m (stack + 8))"

definition gtod_version :: "u8 list" where
  "gtod_version = map (\<lambda>c. of_nat (of_char c)) ''LINUX_2.6''"

definition gtod_name :: "u8 list" where
  "gtod_name = map (\<lambda>c. of_nat (of_char c)) ''__vdso_gettimeofday''"

definition time_text :: string where
  "time_text = ''The time is'' @ replicate 21 CHR '' '' @ ''.000000'' @ [newline]"

text \<open>\<open>gtod\<close> answers a call of the function at an address: its result, seconds, microseconds.\<close>

definition c_main :: "memory \<Rightarrow> (u64 \<Rightarrow> int \<times> int \<times> int) \<Rightarrow> u64 \<Rightarrow> (string \<times> int) option" where
  "c_main m gtod stack =
     (let argc = ld64 m stack in
      case skip_env m (stack + 8 * (argc + 2)) of
        None \<Rightarrow> None
      | Some auxv \<Rightarrow>
          (case vdso_init_from_auxv m auxv zero_info of
             None \<Rightarrow> None
           | Some info \<Rightarrow>
               (case vdso_sym m info gtod_version gtod_name of
                  None \<Rightarrow> None
                | Some f \<Rightarrow>
                    if f = 0 then Some ([], 1)
                    else
                      let (ret, tv_sec, tv_usec) = gtod f in
                      if ret = 0 then
                        (case to_base10 time_text 31 tv_sec of
                           None \<Rightarrow> None
                         | Some b1 \<Rightarrow>
                             (case to_base10 b1 38 tv_usec of
                                None \<Rightarrow> None
                              | Some b2 \<Rightarrow> Some (b2, 0)))
                      else Some ([], ret))))"

text \<open>The value the C library finds in the auxiliary vector, 0 when there is none.\<close>

definition getauxval :: "(u64 \<times> u64) list \<Rightarrow> u64 \<Rightarrow> u64" where
  "getauxval es t = (case find (\<lambda>e. fst e = t) es of None \<Rightarrow> 0 | Some e \<Rightarrow> snd e)"

text \<open>The conversion \<open>%06lld\<close>.\<close>

definition pad6 :: "int \<Rightarrow> string" where
  "pad6 i = (let ds = show_nat (nat \<bar>i\<bar>) in
     if i < 0 then CHR ''-'' # replicate (5 - length ds) CHR ''0'' @ ds else replicate (6 - length ds) CHR ''0'' @ ds)"

definition vdso_test_main :: "memory \<Rightarrow> (u64 \<Rightarrow> int \<times> int \<times> int) \<Rightarrow> (u64 \<times> u64) list \<Rightarrow> (string \<times> int) option" where
  "vdso_test_main m gtod auxvals =
     (let sysinfo_ehdr = getauxval auxvals AT_SYSINFO_EHDR in
      if sysinfo_ehdr = 0 then Some (''AT_SYSINFO_EHDR is not present!'' @ [newline], 0)
      else
        case vdso_init_from_sysinfo_ehdr m (getauxval auxvals AT_SYSINFO_EHDR) zero_info of
          None \<Rightarrow> None
        | Some info \<Rightarrow>
            (case vdso_sym m info gtod_version gtod_name of
               None \<Rightarrow> None
             | Some f \<Rightarrow>
                 if f = 0 then Some (''Could not find __vdso_gettimeofday'' @ [newline], 1)
                 else
                   let (ret, tv_sec, tv_usec) = gtod f in
                   if ret = 0 then Some (''The time is '' @ show_int tv_sec @ ''.'' @ pad6 tv_usec @ [newline], 0)
                   else Some (''__vdso_gettimeofday failed'' @ [newline], 0)))"

section \<open>Strings and digits\<close>

lemma strcmp_eq:
  "0 \<notin> set a \<Longrightarrow> 0 \<notin> set b \<Longrightarrow> strcmp a b = (if a = b then 0 else 1)"
proof (induction a arbitrary: b)
  case Nil
  then show ?case by (cases b) (simp_all add: strcmp.simps [of "[]"] deref_def)
next
  case (Cons x a)
  then show ?case by (cases b) (auto simp: strcmp.simps [of "x # a"] deref_def)
qed

text \<open>The comparison used by the parser is a call of \<open>strcmp\<close>.\<close>

lemma mem_streq_strcmp:
  assumes "cstring_at m p s" and "0 \<notin> set s" and "0 \<notin> set name"
  shows "mem_streq m name p \<longleftrightarrow> strcmp name s = 0"
  using assms
proof (induction s arbitrary: name p)
  case Nil
  then show ?case by (cases name) (simp_all add: cstring_at_def strcmp_eq)
next
  case (Cons x s)
  have p: "m p = x" "cstring_at m (p + 1) s" using Cons.prems(1) by (simp_all add: cstring_at_def add.assoc)
  show ?case
  proof (cases name)
    case Nil
    with Cons.prems p show ?thesis by (simp add: strcmp_eq)
  next
    case (Cons y name')
    with Cons.prems p Cons.IH [OF p(2), of name'] show ?thesis by (auto simp: strcmp_eq)
  qed
qed

lemma c_quot_nat: "c_quot (int n) 10 = int (n div 10)" "c_rem (int n) 10 = int (n mod 10)"
proof -
  show q: "c_quot (int n) 10 = int (n div 10)"
    by (cases "n = 0") (simp_all add: c_quot_def zdiv_int)
  show "c_rem (int n) 10 = int (n mod 10)"
    unfolding c_rem_def q by (simp add: zdiv_int zmod_int minus_mult_div_eq_mod)
qed

lemma digit_char_rem: "char_of (nat (int (n mod 10) + 48)) = digit_char (n mod 10)"
proof -
  have "nat (int (n mod 10) + 48) = 48 + n mod 10" by simp
  then show ?thesis by (simp add: digit_char_def)
qed

lemma to_base10_digits:
  assumes "0 < n" and "length (show_nat n) \<le> Suc l" and "l < length buf"
  shows "to_base10 buf (int l) (int n) =
     Some (take (Suc l - length (show_nat n)) buf @ show_nat n @ drop (Suc l) buf)"
  using assms
proof (induction n arbitrary: l buf rule: less_induct)
  case (less n)
  let ?d = "digit_char (n mod 10)"
  have step: "to_base10 buf (int l) (int n) = to_base10 (buf[l := ?d]) (int l - 1) (int (n div 10))"
    using less.prems by (simp add: to_base10.simps [of buf] c_quot_nat digit_char_rem)
  show ?case
  proof (cases "n < 10")
    case True
    then have s: "show_nat n = [?d]" by (simp add: show_base.simps [of 10 n])
    have "buf[l := ?d] = take l buf @ ?d # drop (Suc l) buf" using less.prems(3) by (rule upd_conv_take_nth_drop)
    with True s step show ?thesis by (simp add: to_base10.simps [of _ _ 0])
  next
    case False
    then have s: "show_nat n = show_nat (n div 10) @ [?d]" by (simp add: show_base.simps [of 10 n])
    have "show_nat (n div 10) \<noteq> []" by simp
    then have l: "0 < l" using less.prems(2) s by (cases l) simp_all
    have l1: "Suc (l - 1) = l" using l by simp
    have "to_base10 (buf[l := ?d]) (int (l - 1)) (int (n div 10)) =
        Some (take (Suc (l - 1) - length (show_nat (n div 10))) (buf[l := ?d]) @ show_nat (n div 10)
          @ drop (Suc (l - 1)) (buf[l := ?d]))"
    proof (rule less.IH)
      show "length (show_nat (n div 10)) \<le> Suc (l - 1)" using less.prems(2) s unfolding l1 by simp
    qed (use False less.prems in simp_all)
    then have "to_base10 (buf[l := ?d]) (int (l - 1)) (int (n div 10)) =
        Some (take (l - length (show_nat (n div 10))) (buf[l := ?d]) @ show_nat (n div 10) @ drop l (buf[l := ?d]))"
      unfolding l1 .
    moreover have "int (l - 1) = int l - 1" using l by simp
    moreover have "drop l (buf[l := ?d]) = ?d # drop (Suc l) buf"
      using less.prems(3) by (metis Cons_nth_drop_Suc drop_update_cancel length_list_update lessI nth_list_update_eq)
    moreover have "take (l - length (show_nat (n div 10))) (buf[l := ?d]) = take (l - length (show_nat (n div 10))) buf"
      by (simp add: take_update_cancel)
    ultimately show ?thesis using step s by simp
  qed
qed

text \<open>Six digits with leading zeros.\<close>

definition six_digits :: "nat \<Rightarrow> string" where
  "six_digits u = replicate (6 - length (show_nat u)) CHR ''0'' @ show_nat u"

text \<open>The stack of a new process: the argument count, the arguments, a null pointer, the environment.\<close>

fun env_block :: "memory \<Rightarrow> u64 \<Rightarrow> u64 list \<Rightarrow> bool" where
  "env_block m p [] \<longleftrightarrow> ld64 m p = 0"
| "env_block m p (e # es) \<longleftrightarrow> e \<noteq> 0 \<and> ld64 m p = e \<and> env_block m (p + 8) es"

lemma skip_env_block: "env_block m p es \<Longrightarrow> skip_env m p = Some (p + 8 * of_nat (length es) + 8)"
proof (induction es arbitrary: p)
  case Nil
  then show ?case by (simp add: skip_env.simps [of m p])
next
  case (Cons e es)
  then show ?case by (simp add: skip_env.simps [of m p] algebra_simps)
qed

lemma time_digits:
  assumes "0 < sec" and "sec < 10 ^ 19" and "usec < 10 ^ 6"
  shows "\<exists>b1. to_base10 time_text 31 (int sec) = Some b1
     \<and> to_base10 b1 38 (int usec) = Some (''The time is'' @ replicate (21 - length (show_nat sec)) CHR '' ''
         @ show_nat sec @ ''.'' @ six_digits usec @ [newline])"
proof -
  let ?s = "show_nat sec" and ?u = "show_nat usec"
  have ls: "length ?s \<le> 19" using assms(2) by (intro length_show_nat) simp_all
  have lu: "length ?u \<le> 6" using assms(3) by (intro length_show_nat) simp_all
  have len: "length time_text = 40" by (simp add: time_text_def)
  let ?b1 = "''The time is'' @ replicate (21 - length ?s) CHR '' '' @ ?s @ ''.000000'' @ [newline]"
  have "to_base10 time_text (int 31) (int sec) = Some (take (Suc 31 - length ?s) time_text @ ?s @ drop (Suc 31) time_text)"
    using ls len assms(1) by (intro to_base10_digits) simp_all
  moreover have "take (Suc 31 - length ?s) time_text = ''The time is'' @ replicate (21 - length ?s) CHR '' ''"
    using ls by (simp add: time_text_def take_Cons' min_def)
  moreover have "drop (Suc 31) time_text = ''.000000'' @ [newline]" by (simp add: time_text_def)
  ultimately have 1: "to_base10 time_text 31 (int sec) = Some ?b1" by simp
  have "to_base10 ?b1 38 (int usec) = Some (''The time is'' @ replicate (21 - length ?s) CHR '' ''
         @ ?s @ ''.'' @ six_digits usec @ [newline])"
  proof (cases "usec = 0")
    case True
    have "six_digits 0 = ''000000''" by code_simp
    with True show ?thesis by (simp add: to_base10.simps [of _ _ 0])
  next
    case False
    have "to_base10 ?b1 (int 38) (int usec) = Some (take (Suc 38 - length ?u) ?b1 @ ?u @ drop (Suc 38) ?b1)"
      using False lu ls by (intro to_base10_digits) simp_all
    moreover have "drop (Suc 38) ?b1 = [newline]" using ls by simp
    moreover have "take (Suc 38 - length ?u) ?b1 = ''The time is'' @ replicate (21 - length ?s) CHR '' '' @ ?s @ ''.''
        @ replicate (6 - length ?u) CHR ''0''"
    proof -
      define p where "p = ''The time is'' @ replicate (21 - length ?s) CHR '' '' @ ?s @ ''.''"
      have "replicate 6 CHR ''0'' = ''000000''" by code_simp
      then have b: "?b1 = p @ replicate 6 CHR ''0'' @ [newline]" by (simp add: p_def)
      have "length p = 33" using ls by (simp add: p_def)
      then have k: "Suc 38 - length ?u = length p + (6 - length ?u)" using lu by simp
      have "take (Suc 38 - length ?u) ?b1 = p @ replicate (6 - length ?u) CHR ''0''"
        unfolding b k by simp
      then show ?thesis by (simp add: p_def)
    qed
    ultimately show ?thesis by (simp add: six_digits_def)
  qed
  with 1 show ?thesis by blast
qed

text \<open>
  The program from its first instruction to its exit: on the stack of a new process, when
  the vDSO named by the auxiliary vector has a \<open>gettimeofday\<close> function of version
  \<open>LINUX_2.6\<close> and it succeeds with a positive number of seconds, the program writes the
  time with the seconds right-aligned and six digits of microseconds, and exits with 0; when the
  function is missing it writes nothing and exits with 1.
\<close>
theorem c_main_prints_time:
  assumes "env_block m (stack + 8 * (ld64 m stack + 2)) es"
    and "auxv = stack + 8 * (ld64 m stack + 2) + 8 * of_nat (length es) + 8"
    and "vdso_init_from_auxv m auxv zero_info = Some info"
    and "vdso_sym m info gtod_version gtod_name = Some f"
    and "f = 0 \<or> gtod f = (0, int sec, int usec)"
    and "0 < sec" and "sec < 10 ^ 19" and "usec < 10 ^ 6"
  shows "c_main m gtod stack =
     Some (if f = 0 then ([], 1)
           else (''The time is'' @ replicate (21 - length (show_nat sec)) CHR '' '' @ show_nat sec @ ''.''
             @ six_digits usec @ [newline], 0))"
proof -
  have s: "skip_env m (stack + 8 * (ld64 m stack + 2)) = Some auxv"
    using skip_env_block [OF assms(1)] assms(2) by simp
  obtain b1 where "to_base10 time_text 31 (int sec) = Some b1"
    "to_base10 b1 38 (int usec) = Some (''The time is'' @ replicate (21 - length (show_nat sec)) CHR '' ''
         @ show_nat sec @ ''.'' @ six_digits usec @ [newline])"
    using time_digits [OF assms(6-8)] by blast
  with assms(5) show ?thesis
    unfolding c_main_def Let_def s option.case assms(3,4) by auto
qed


definition test_memory :: memory where
  "test_memory = store_bytes 0x3018 [33, 0, 0, 0, 0, 0, 0, 0, 0, 0x10] (store_bytes 0x1201 gtod_name
     (store_bytes 0x1318 [1, 0, 0, 0, 0x12, 0, 1, 0, 0x40] (store_bytes 0x1408 [1] sample_image)))"

lemma test_memory_stack: "ld64 test_memory 0x3000 = 0" "ld64 test_memory 0x3010 = 0"
  "dyn_table test_memory 0x3018 0 [(33, 0x1000)]"
  by code_simp+

lemma test_memory_found:
  obtains info where "vdso_init_from_sysinfo_ehdr test_memory 0x1000 zero_info = Some info"
    "vdso_sym test_memory info gtod_version gtod_name = Some 0x1040"
proof -
  have "(case vdso_init_from_sysinfo_ehdr test_memory 0x1000 zero_info of
      None \<Rightarrow> None | Some info \<Rightarrow> vdso_sym test_memory info gtod_version gtod_name) = Some 0x1040"
    by code_simp
  then show ?thesis using that by (auto split: option.splits)
qed

theorem c_main_prints_time_witness:
  "c_main test_memory (\<lambda>f. if f = 0x1040 then (0, 7, 42) else (-1, 0, 0)) 0x3000 =
     Some (''The time is                    7.000042'' @ [newline], 0)"
proof -
  let ?gtod = "\<lambda>f :: u64. if f = 0x1040 then (0, 7, 42) else (-1, 0, 0 :: int)"
  have env: "env_block test_memory (0x3000 + 8 * (ld64 test_memory 0x3000 + 2)) []" by (simp add: test_memory_stack(1,2))
  obtain info where info: "vdso_init_from_sysinfo_ehdr test_memory 0x1000 zero_info = Some info"
    and sym: "vdso_sym test_memory info gtod_version gtod_name = Some 0x1040" by (rule test_memory_found)
  have init: "vdso_init_from_auxv test_memory 0x3018 zero_info = Some info"
    using info by (simp add: vdso_init_from_auxv_first [OF test_memory_stack(3)])
  have "c_main test_memory ?gtod 0x3000 =
     Some (if (0x1040 :: u64) = 0 then ([], 1)
           else (''The time is'' @ replicate (21 - length (show_nat 7)) CHR '' '' @ show_nat 7 @ ''.''
             @ six_digits 42 @ [newline], 0))"
    by (rule c_main_prints_time [OF env _ init sym]) (simp_all add: test_memory_stack(1))
  moreover have "show_nat 7 = ''7''" "six_digits 42 = ''000042''" by code_simp+
  moreover have "replicate 20 CHR '' '' = ''                    ''" by code_simp
  ultimately show ?thesis by simp
qed


end
