(* ===== verification/Aliasing_Test.thy ===== *)
theory Aliasing_Test
  imports Doc_Prelude
begin

text \<open>
  Model of \<open>src/Documentation/ia64/aliasing-test.c\<close>, which maps and reads regions of
  memory devices and ROMs below the sysfs and proc trees. A directory tree is a datatype whose
  directories list their entries in the order of \<open>scandir\<close> with \<open>alphasort\<close>; the
  answers of the system for a path are functions of the path. The result of a scan is its value
  and the lines it prints.
\<close>

section \<open>Mapping a region\<close>

datatype alias_res = AFd int | AMap

record region =
  r_offset :: u64
  r_length :: u64
  r_touch :: bool

record map_mem_ans =
  m_open :: int
  m_ioctl :: int
  m_mmap :: bool
  m_words :: "u32 list"
  m_munmap :: int

text \<open>\<open>fnmatch\<close> for patterns of literal characters, \<open>?\<close> and \<open>*\<close>.\<close>

fun fnmatch :: "string \<Rightarrow> string \<Rightarrow> bool" where
  "fnmatch [] s = (s = [])"
| "fnmatch (p # ps) [] = (p = CHR ''*'' \<and> fnmatch ps [])"
| "fnmatch (p # ps) (c # cs) =
     (if p = CHR ''*'' then fnmatch ps (c # cs) \<or> fnmatch (p # ps) cs
      else if p = CHR ''?'' then fnmatch ps cs
      else p = c \<and> fnmatch ps cs)"

text \<open>The message of \<open>perror\<close>, by its prefix, and the verdicts of the program.\<close>

datatype scan_line = Perror string | Readable string u64 u64 | Mappable string u64 u64
  | NotMappable string u64 u64 | NotAccessible string u64 u64 | RomBytes string int | RomUnreadable string

text \<open>
  \<open>map_mem\<close>: its value, the new \<open>sum\<close> (the loop reads one \<open>int\<close> after the
  other up to the length), the messages and the trace.
\<close>

definition map_mem :: "map_mem_ans \<Rightarrow> string \<Rightarrow> region \<Rightarrow> u32 \<Rightarrow> int \<times> u32 \<times> scan_line list \<times> alias_res ev list" where
  "map_mem a path r sm =
     (let fd = AFd (m_open a);
          msg = (if fnmatch ''/proc/bus/pci/*'' path \<and> m_ioctl a = -1
                 then [Perror ''PCIIOC_MMAP_IS_MEM ioctl''] else []);
          sm' = (if r_touch r then sm + sum_list (take (nat ((uint (r_length r) + 3) div 4)) (m_words a)) else sm) in
      if m_open a = -1 then (-1, sm, [Perror path], [])
      else if \<not> m_mmap a then (1, sm, msg, [Acq fd])
      else if m_munmap a = -1 then (-1, sm', msg @ [Perror ''munmap''], [Acq fd, Acq AMap])
      else (0, sm', msg, [Acq fd, Acq AMap, Rel AMap, Rel fd]))"

section \<open>Scanning a tree\<close>

text \<open>\<open>None\<close>: the directory cannot be scanned.\<close>

datatype fnode = FOther | FDir "(string \<times> fnode) list option"

definition path_join :: "string \<Rightarrow> string \<Rightarrow> string" where "path_join path name = path @ ''/'' @ name"

record scan_env =
  s_file :: string
  s_region :: region
  s_map :: "string \<Rightarrow> map_mem_ans"

text \<open>The line for a mapped path.\<close>

definition map_line :: "string \<Rightarrow> region \<Rightarrow> int \<Rightarrow> scan_line" where
  "map_line path r rc =
     (let lo = r_offset r; hi = r_offset r + r_length r in
      if rc = 0 then (if r_touch r then Readable path lo hi else Mappable path lo hi)
      else if rc > 0 then NotMappable path lo hi else NotAccessible path lo hi)"

text \<open>
  \<open>scan_tree\<close> and its loop over the entries, which carries \<open>rc\<close> and
  \<open>result\<close> from one entry to the next. An entry whose \<open>lstat\<close> fails counts as
  no directory. The global \<open>sum\<close>, which nothing prints, is left out of the scan.
\<close>

fun scan_tree :: "scan_env \<Rightarrow> string \<Rightarrow> fnode \<Rightarrow> int \<times> scan_line list"
  and scan_entries :: "scan_env \<Rightarrow> string \<Rightarrow> int \<Rightarrow> int \<Rightarrow> (string \<times> fnode) list \<Rightarrow> int \<times> scan_line list" where
  "scan_tree e path FOther = (-1, [Perror ''scandir''])"
| "scan_tree e path (FDir None) = (-1, [Perror ''scandir''])"
| "scan_tree e path (FDir (Some es)) = scan_entries e path 0 0 es"
| "scan_entries e path rc result [] = (result, [])"
| "scan_entries e path rc result ((name, node) # es) =
     (if fnmatch ''.'' name \<or> fnmatch ''..'' name then scan_entries e path rc result es
      else
        let path2 = path_join path name in
        if fnmatch (s_file e) name then
          let (rc1, sm, msg, tr) = map_mem (s_map e path2) path2 (s_region e) 0;
              lines = msg @ [map_line path2 (s_region e) rc1] in
          if rc1 < 0 then (rc1, lines)
          else (let (res, ls) = scan_entries e path rc1 (result OR rc1) es in (res, lines @ ls))
        else case node of
          FDir d \<Rightarrow>
            let (rc1, ls1) = scan_tree e path2 (FDir d) in
            if rc1 < 0 then (rc1, ls1)
            else (let (res, ls) = scan_entries e path rc1 (result OR rc1) es in (res, ls1 @ ls))
        | FOther \<Rightarrow> scan_entries e path rc (result OR rc) es)"

section \<open>Reading ROMs\<close>

record rom_ans =
  r_fd :: int
  r_wrote :: int
  r_reads :: "int list"

text \<open>The loop of \<open>read_rom\<close>: reads up to the first that gives nothing.\<close>

fun rom_size :: "int list \<Rightarrow> u64" where
  "rom_size [] = 0"
| "rom_size (rc # rs) = (if rc > 0 then of_int rc + rom_size rs else 0)"

text \<open>The size is a \<open>size_t\<close>, returned as an \<open>int\<close>.\<close>

definition read_rom :: "rom_ans \<Rightarrow> string \<Rightarrow> int \<times> scan_line list \<times> alias_res ev list" where
  "read_rom a path =
     (if r_fd a = -1 then (-1, [Perror path], [])
      else if r_wrote a \<le> 0 then (-1, [Perror ''write''], [Acq (AFd (r_fd a)), Rel (AFd (r_fd a))])
      else (sint (ucast (rom_size (r_reads a)) :: u32), [], [Acq (AFd (r_fd a)), Rel (AFd (r_fd a))]))"

fun scan_rom :: "(string \<Rightarrow> rom_ans) \<Rightarrow> string \<Rightarrow> string \<Rightarrow> fnode \<Rightarrow> int \<times> scan_line list"
  and rom_entries :: "(string \<Rightarrow> rom_ans) \<Rightarrow> string \<Rightarrow> string \<Rightarrow> int \<Rightarrow> int \<Rightarrow> (string \<times> fnode) list
    \<Rightarrow> int \<times> scan_line list" where
  "scan_rom roms file path FOther = (-1, [Perror ''scandir''])"
| "scan_rom roms file path (FDir None) = (-1, [Perror ''scandir''])"
| "scan_rom roms file path (FDir (Some es)) = rom_entries roms file path 0 0 es"
| "rom_entries roms file path rc result [] = (result, [])"
| "rom_entries roms file path rc result ((name, node) # es) =
     (if fnmatch ''.'' name \<or> fnmatch ''..'' name then rom_entries roms file path rc result es
      else
        let path2 = path_join path name in
        if fnmatch file name then
          let (rc1, msg, tr) = read_rom (roms path2) path2 in
          if rc1 > 0 then
            (let (r, ls) = rom_entries roms file path rc1 (result OR rc1) es in (r, msg @ RomBytes path2 rc1 # ls))
          else (rc1, msg @ [RomUnreadable path2])
        else case node of
          FDir d \<Rightarrow>
            let (rc1, ls1) = scan_rom roms file path2 (FDir d) in
            if rc1 < 0 then (rc1, ls1)
            else (let (r, ls) = rom_entries roms file path rc1 (result OR rc1) es in (r, ls1 @ ls))
        | FOther \<Rightarrow> rom_entries roms file path rc (result OR rc) es)"

section \<open>The program\<close>

text \<open>The regions of \<open>main\<close>.\<close>

definition alias_regions :: "region list" where
  "alias_regions =
     [\<lparr>r_offset = 0, r_length = 0xA0000, r_touch = True\<rparr>,
      \<lparr>r_offset = 0xA0000, r_length = 0x20000, r_touch = False\<rparr>,
      \<lparr>r_offset = 0xC0000, r_length = 0x40000, r_touch = True\<rparr>,
      \<lparr>r_offset = 0, r_length = 1024 * 1024, r_touch = False\<rparr>]"

record alias_env =
  e_mem :: "region \<Rightarrow> string \<Rightarrow> map_mem_ans"
  e_roms :: "string \<Rightarrow> rom_ans"
  e_root :: "string \<Rightarrow> fnode"

text \<open>
  The line for a region of \<open>/dev/mem\<close>: only for the whole range does the program tell a
  region that cannot be mapped from one that cannot be accessed.
\<close>

definition dev_mem :: "alias_env \<Rightarrow> bool \<Rightarrow> region \<Rightarrow> int \<times> scan_line list" where
  "dev_mem env whole r =
     (let (rc, sm, msg, tr) = map_mem (e_mem env r ''/dev/mem'') ''/dev/mem'' r 0 in
      (rc, msg @ [map_line ''/dev/mem'' r (if rc > 0 \<and> \<not> whole then -1 else rc)]))"

definition scan_regions :: "alias_env \<Rightarrow> string \<Rightarrow> string \<Rightarrow> scan_line list" where
  "scan_regions env path file =
     concat (map (\<lambda>r. snd (scan_tree \<lparr>s_file = file, s_region = r, s_map = e_mem env r\<rparr> path (e_root env path)))
       alias_regions)"

definition aliasing_main :: "alias_env \<Rightarrow> int \<times> scan_line list" where
  "aliasing_main env =
     (let whole = dev_mem env True (alias_regions ! 3) in
      (fst whole,
       concat (map (\<lambda>r. snd (dev_mem env False r)) (take 3 alias_regions)) @ snd whole
       @ scan_regions env ''/sys/class/pci_bus'' ''legacy_mem''
       @ snd (scan_rom (e_roms env) ''rom'' ''/sys/devices'' (e_root env ''/sys/devices''))
       @ scan_regions env ''/proc/bus/pci'' ''??.?''))"

section \<open>Resources of a mapping\<close>

text \<open>
  A mapping that succeeds leaves nothing behind; the descriptor stays open when the region
  cannot be mapped, and descriptor and mapping stay when it cannot be unmapped.
\<close>

lemma map_mem_resources:
  "run_ev {} (snd (snd (snd (map_mem a path r sm)))) =
     Some (if m_open a = -1 then {} else if \<not> m_mmap a then {AFd (m_open a)}
           else if m_munmap a = -1 then {AFd (m_open a), AMap} else {})"
  by (auto simp: map_mem_def Let_def)

lemma read_rom_resources: "run_ev {} (snd (snd (read_rom a path))) = Some {}"
  by (simp add: read_rom_def)

lemma map_mem_value: "fst (map_mem a path r sm) \<in> {-1, 0, 1}"
  by (simp add: map_mem_def Let_def)

section \<open>A scan that reaches everything\<close>

text \<open>The matching paths below a directory, in the order of the scan.\<close>

fun matches :: "string \<Rightarrow> string \<Rightarrow> fnode \<Rightarrow> string list"
  and entry_matches :: "string \<Rightarrow> string \<Rightarrow> (string \<times> fnode) list \<Rightarrow> string list" where
  "matches file path FOther = []"
| "matches file path (FDir None) = []"
| "matches file path (FDir (Some es)) = entry_matches file path es"
| "entry_matches file path [] = []"
| "entry_matches file path ((name, node) # es) =
     (if name = ''.'' \<or> name = ''..'' then []
      else if fnmatch file name then [path_join path name]
      else matches file (path_join path name) node) @ entry_matches file path es"

text \<open>Every directory the scan may enter can be read.\<close>

fun scannable :: "fnode \<Rightarrow> bool" where
  "scannable FOther \<longleftrightarrow> True"
| "scannable (FDir None) \<longleftrightarrow> False"
| "scannable (FDir (Some es)) \<longleftrightarrow> (\<forall>e \<in> set es. fst e = ''.'' \<or> fst e = ''..'' \<or> scannable (snd e))"

abbreviation enterable :: "string \<times> fnode \<Rightarrow> bool" where
  "enterable e \<equiv> fst e = ''.'' \<or> fst e = ''..'' \<or> scannable (snd e)"

lemma fnmatch_literal:
  "CHR ''*'' \<notin> set p \<Longrightarrow> CHR ''?'' \<notin> set p \<Longrightarrow> fnmatch p s \<longleftrightarrow> p = s"
  by (induction p s rule: fnmatch.induct) auto

lemma fnmatch_dots [simp]: "fnmatch ''.'' s \<longleftrightarrow> s = ''.''" "fnmatch ''..'' s \<longleftrightarrow> s = ''..''"
  using fnmatch_literal [of "''.''" s] fnmatch_literal [of "''..''" s] by auto

text \<open>
  The flat reference: visit the paths one after the other, gather the values with a bitwise or,
  and end at the first negative one.
\<close>

fun flat :: "(string \<Rightarrow> int \<times> scan_line list) \<Rightarrow> int \<Rightarrow> string list \<Rightarrow> int \<times> scan_line list" where
  "flat visit acc [] = (acc, [])"
| "flat visit acc (p # ps) =
     (if fst (visit p) < 0 then visit p
      else let (res, ls) = flat visit (acc OR fst (visit p)) ps in (res, snd (visit p) @ ls))"

definition map_visit :: "scan_env \<Rightarrow> string \<Rightarrow> int \<times> scan_line list" where
  "map_visit e path =
     (let (rc, sm, msg, tr) = map_mem (s_map e path) path (s_region e) 0
      in (rc, msg @ [map_line path (s_region e) rc]))"

definition rom_visit :: "(string \<Rightarrow> rom_ans) \<Rightarrow> string \<Rightarrow> int \<times> scan_line list" where
  "rom_visit roms path =
     (let (rc, msg, tr) = read_rom (roms path) path
      in (rc, msg @ [if rc > 0 then RomBytes path rc else RomUnreadable path]))"

lemma flat_append:
  "flat visit acc (ps @ qs) =
     (let (r, ls) = flat visit acc ps in
      if \<exists>p \<in> set ps. fst (visit p) < 0 then (r, ls)
      else let (r', ls') = flat visit r qs in (r', ls @ ls'))"
  by (induction ps arbitrary: acc) (auto simp: Let_def split: prod.splits)

lemma flat_acc:
  "flat visit acc ps =
     (let (r, ls) = flat visit 0 ps in (if \<exists>p \<in> set ps. fst (visit p) < 0 then r else acc OR r, ls))"
proof (induction ps arbitrary: acc)
  case (Cons p ps)
  show ?case
    by (simp add: Cons.IH [of "acc OR fst (visit p)"] Cons.IH [of "fst (visit p)"] Let_def or.assoc
        split: prod.splits)
qed simp

lemma flat_neg: "0 \<le> acc \<Longrightarrow> fst (flat visit acc ps) < 0 \<longleftrightarrow> (\<exists>p \<in> set ps. fst (visit p) < 0)"
proof (induction ps arbitrary: acc)
  case (Cons p ps)
  show ?case
    using Cons.IH [of "acc OR fst (visit p)"] Cons.prems by (auto simp: Let_def split: prod.splits)
qed simp

text \<open>What both scans do after a subtree.\<close>

lemma flat_subtree:
  assumes "0 \<le> acc"
  shows "flat visit acc (ps @ qs) =
     (let (r, ls) = flat visit 0 ps in
      if r < 0 then (r, ls) else let (r', ls') = flat visit (acc OR r) qs in (r', ls @ ls'))"
proof (cases "flat visit 0 ps")
  case (Pair r ls)
  then show ?thesis
    using flat_neg [of 0 visit ps] by (simp add: flat_append flat_acc [of visit acc ps])
qed

lemma flat_nonneg: "0 \<le> acc \<Longrightarrow> \<not> fst (flat visit 0 ps) < 0 \<Longrightarrow> 0 \<le> acc OR fst (flat visit 0 ps)"
  by simp

text \<open>
  The value kept in \<open>rc\<close> from an earlier entry adds nothing to \<open>result\<close>: it is
  already part of it, the third premise.
\<close>

lemma scan_flat:
  "scannable node \<Longrightarrow> node \<noteq> FOther \<Longrightarrow>
     scan_tree e path node = flat (map_visit e) 0 (matches (s_file e) path node)"
  "\<forall>x \<in> set es. enterable x \<Longrightarrow> 0 \<le> result \<Longrightarrow> result OR rc = result \<Longrightarrow>
     scan_entries e path rc result es = flat (map_visit e) result (entry_matches (s_file e) path es)"
proof (induction e path node and e path rc result es rule: scan_tree_scan_entries.induct)
  case (5 e path rc result name node es)
  have prems: "\<forall>x \<in> set ((name, node) # es). enterable x" "0 \<le> result" "result OR rc = result"
    using 5 by blast+
  define p where "p = path_join path name"
  show ?case
  proof (cases "name = ''.'' \<or> name = ''..''")
    case True
    then show ?thesis using 5 by auto
  next
    case dots: False
    show ?thesis
    proof (cases "fnmatch (s_file e) name")
      case True
      obtain rc1 sm msg tr where mm: "map_mem (s_map e p) p (s_region e) 0 = (rc1, sm, msg, tr)"
        by (cases "map_mem (s_map e p) p (s_region e) 0")
      have mv: "map_visit e p = (rc1, msg @ [map_line p (s_region e) rc1])"
        by (simp add: map_visit_def mm)
      have "\<not> rc1 < 0 \<Longrightarrow> scan_entries e path rc1 (result OR rc1) es
            = flat (map_visit e) (result OR rc1) (entry_matches (s_file e) path es)"
        using 5(2) [OF _ p_def True] dots prems by (simp add: or.assoc mm)
      then show ?thesis
        using dots True by (simp add: p_def [symmetric] mm mv Let_def split: prod.splits)
    next
      case False
      show ?thesis
      proof (cases node)
        case FOther
        then show ?thesis using dots False 5(3) [OF _ p_def False FOther] prems by simp
      next
        case (FDir d)
        define sub where "sub = flat (map_visit e) 0 (matches (s_file e) p node)"
        have tree: "scan_tree e p (FDir d) = sub"
          using 5(4) [OF _ p_def False FDir] dots prems by (simp add: sub_def FDir)
        have rest: "\<not> fst sub < 0 \<Longrightarrow>
            scan_entries e path (fst sub) (result OR fst sub) es
              = flat (map_visit e) (result OR fst sub) (entry_matches (s_file e) path es)"
          using 5(5) [OF _ p_def False FDir] dots prems tree
          by (cases sub) (auto simp: or.assoc)
        show ?thesis
          using dots False rest prems tree
          by (cases sub) (simp add: p_def [symmetric] Let_def FDir sub_def [symmetric, unfolded FDir] flat_subtree)
      qed
    qed
  qed
qed simp_all

lemma rom_flat:
  "scannable node \<Longrightarrow> node \<noteq> FOther \<Longrightarrow> \<forall>p \<in> set (matches pat path node). fst (rom_visit roms p) \<noteq> 0 \<Longrightarrow>
     scan_rom roms pat path node = flat (rom_visit roms) 0 (matches pat path node)"
  "\<forall>x \<in> set es. enterable x \<Longrightarrow> \<forall>p \<in> set (entry_matches pat path es). fst (rom_visit roms p) \<noteq> 0 \<Longrightarrow>
     0 \<le> result \<Longrightarrow> result OR rc = result \<Longrightarrow>
     rom_entries roms pat path rc result es = flat (rom_visit roms) result (entry_matches pat path es)"
proof (induction roms pat path node and roms pat path rc result es rule: scan_rom_rom_entries.induct)
  case (5 roms pat path rc result name node es)
  have prems: "\<forall>x \<in> set ((name, node) # es). enterable x" "0 \<le> result" "result OR rc = result"
    "\<forall>p \<in> set (entry_matches pat path ((name, node) # es)). fst (rom_visit roms p) \<noteq> 0"
    using 5 by blast+
  define p where "p = path_join path name"
  show ?case
  proof (cases "name = ''.'' \<or> name = ''..''")
    case True
    then show ?thesis using 5 by auto
  next
    case dots: False
    show ?thesis
    proof (cases "fnmatch pat name")
      case True
      obtain rc1 msg tr where mm: "read_rom (roms p) p = (rc1, msg, tr)"
        by (cases "read_rom (roms p) p")
      have mv: "rom_visit roms p = (rc1, msg @ [if rc1 > 0 then RomBytes p rc1 else RomUnreadable p])"
        by (simp add: rom_visit_def mm)
      have nz: "rc1 \<noteq> 0" using prems(4) dots True mv by (simp add: p_def [symmetric])
      have "rc1 > 0 \<Longrightarrow> rom_entries roms pat path rc1 (result OR rc1) es
            = flat (rom_visit roms) (result OR rc1) (entry_matches pat path es)"
        using 5(2) [OF _ p_def True] dots prems by (simp add: or.assoc mm)
      then show ?thesis
        using dots True nz by (auto simp: p_def [symmetric] mm mv Let_def split: prod.splits)
    next
      case False
      show ?thesis
      proof (cases node)
        case FOther
        then show ?thesis using dots False 5(3) [OF _ p_def False FOther] prems by simp
      next
        case (FDir d)
        define sub where "sub = flat (rom_visit roms) 0 (matches pat p node)"
        have tree: "scan_rom roms pat p (FDir d) = sub"
          using 5(4) [OF _ p_def False FDir] dots False prems by (simp add: sub_def FDir p_def)
        have rest: "\<not> fst sub < 0 \<Longrightarrow>
            rom_entries roms pat path (fst sub) (result OR fst sub) es
              = flat (rom_visit roms) (result OR fst sub) (entry_matches pat path es)"
          using 5(5) [OF _ p_def False FDir] dots prems tree
          by (cases sub) (auto simp: or.assoc)
        show ?thesis
          using dots False rest prems(2) tree
          by (cases sub) (simp add: p_def [symmetric] Let_def FDir sub_def [symmetric, unfolded FDir] flat_subtree)
      qed
    qed
  qed
qed simp_all

lemma flat_stops:
  "\<forall>p \<in> set ps. 0 \<le> fst (visit p) \<Longrightarrow> fst (visit q) < 0 \<Longrightarrow>
     flat visit acc (ps @ q # qs) = (fst (visit q), concat (map (snd \<circ> visit) (ps @ [q])))"
  by (induction ps arbitrary: acc) (auto simp: Let_def split: prod.splits)

lemma flat_all:
  "\<forall>p \<in> set ps. 0 \<le> fst (visit p) \<Longrightarrow>
     flat visit acc ps = (fold (\<lambda>p r. r OR fst (visit p)) ps acc, concat (map (snd \<circ> visit) ps))"
  by (induction ps arbitrary: acc) (auto simp: Let_def split: prod.splits)

text \<open>The values of \<open>map_mem\<close> gather to the worst of them.\<close>

definition worst :: "int list \<Rightarrow> int" where
  "worst rcs = (if -1 \<in> set rcs then -1 else if 1 \<in> set rcs then 1 else 0)"

lemma flat_Cons_value:
  "fst (flat visit acc (p # ps)) =
     (if fst (visit p) < 0 then fst (visit p) else fst (flat visit (acc OR fst (visit p)) ps))"
  by (simp add: Let_def case_prod_beta)

lemma worst_Cons:
  "a \<in> {0, 1} \<Longrightarrow> worst (a # -1 # rcs) = -1"
  "a \<in> {0, 1} \<Longrightarrow> worst (a # 0 # rcs) = worst (a # rcs)"
  "a \<in> {0, 1} \<Longrightarrow> worst (a # 1 # rcs) = worst (1 # rcs)"
  by (auto simp: worst_def)

lemma worst_zero: "worst (0 # rcs) = worst rcs"
  by (simp add: worst_def)

lemma flat_value:
  assumes "acc \<in> {0, 1}" and "\<forall>p \<in> set ps. fst (visit p) \<in> {-1, 0, 1}"
  shows "fst (flat visit acc ps) = worst (acc # map (\<lambda>p. fst (visit p)) ps)"
  using assms
proof (induction ps arbitrary: acc)
  case (Cons p ps)
  have IH: "a \<in> {0, 1} \<Longrightarrow> fst (flat visit a ps) = worst (a # map (\<lambda>p. fst (visit p)) ps)" for a
    using Cons.IH [of a] Cons.prems(2) by simp
  from Cons.prems(2) consider "fst (visit p) = -1" | "fst (visit p) = 0" | "fst (visit p) = 1" by auto
  then show ?case
  proof cases
    case 1
    then show ?thesis using Cons.prems(1) by (simp only: flat_Cons_value list.map worst_Cons if_True) simp
  next
    case 2
    then show ?thesis using Cons.prems(1) IH [of acc] by (simp add: flat_Cons_value worst_Cons del: flat.simps)
  next
    case 3
    have "acc OR 1 = 1" using Cons.prems(1) by auto
    then show ?thesis using Cons.prems(1) IH [of 1] 3 by (simp add: flat_Cons_value worst_Cons del: flat.simps)
  qed
qed (auto simp: worst_def)

lemma map_visit_value:
  "fst (map_visit e p) = fst (map_mem (s_map e p) p (s_region e) 0)" "fst (map_visit e p) \<in> {-1, 0, 1}"
  using map_mem_value [of "s_map e p" p "s_region e" 0]
  by (auto simp: map_visit_def split: prod.splits)

section \<open>The properties\<close>

text \<open>
  C28. The recursive scan is the flat one: on a tree whose directories can be read,
  \<open>scan_tree\<close> maps exactly the paths whose name matches the pattern and that no matching
  directory hides, in the order of the listing, and reports a line for each of them, with the
  messages of the failed calls in front. It ends at the first path that cannot be accessed,
  returning -1; without one it returns 1 if some region could not be mapped, else 0. The value
  left in \<open>rc\<close> by an earlier entry does not change this.
\<close>

theorem scan_tree_reports:
  assumes "scannable (FDir d)"
  shows "scan_tree e path (FDir d) = flat (map_visit e) 0 (matches (s_file e) path (FDir d))
       \<and> fst (scan_tree e path (FDir d)) =
           worst (map (\<lambda>p. fst (map_mem (s_map e p) p (s_region e) 0)) (matches (s_file e) path (FDir d)))"
proof -
  let ?ps = "matches (s_file e) path (FDir d)"
  have eq: "scan_tree e path (FDir d) = flat (map_visit e) 0 ?ps"
    using assms by (rule scan_flat) simp
  show ?thesis
    unfolding eq using flat_value [of 0 ?ps "map_visit e"] map_visit_value(2) [of e]
    by (simp add: worst_zero map_visit_value(1) [symmetric])
qed

definition sample_dir :: "(string \<times> fnode) list option" where
  "sample_dir = Some [(''.'', FDir None), (''..'', FDir None),
     (''0000:00'', FDir (Some [(''.'', FDir None), (''legacy_mem'', FOther), (''power'', FDir (Some []))])),
     (''0000:01'', FDir (Some [(''legacy_mem'', FOther)])), (''uevent'', FOther)]"

definition sample_map :: "string \<Rightarrow> map_mem_ans" where
  "sample_map path = \<lparr>m_open = 3, m_ioctl = 0, m_mmap = (path \<noteq> ''/s/0000:00/legacy_mem''), m_words = [],
     m_munmap = 0\<rparr>"

theorem scan_tree_reports_witness:
  "(let e = \<lparr>s_file = ''legacy_mem'', s_region = alias_regions ! 3, s_map = sample_map\<rparr> in
    scannable (FDir sample_dir) \<and>
    scan_tree e ''/s'' (FDir sample_dir) = (1, [NotMappable ''/s/0000:00/legacy_mem'' 0 0x100000,
      Mappable ''/s/0000:01/legacy_mem'' 0 0x100000]))"
proof -
  let ?e = "\<lparr>s_file = ''legacy_mem'', s_region = alias_regions ! 3, s_map = sample_map\<rparr>"
  have s: "scannable (FDir sample_dir)" by code_simp
  have m: "matches ''legacy_mem'' ''/s'' (FDir sample_dir) = [''/s/0000:00/legacy_mem'', ''/s/0000:01/legacy_mem'']"
    by code_simp
  have "flat (map_visit ?e) 0 [''/s/0000:00/legacy_mem'', ''/s/0000:01/legacy_mem''] =
      (1, [NotMappable ''/s/0000:00/legacy_mem'' 0 0x100000, Mappable ''/s/0000:01/legacy_mem'' 0 0x100000])"
    by code_simp
  then show ?thesis
    using s m scan_tree_reports [of sample_dir ?e "''/s''"] by (simp only: Let_def scan_env.simps simp_thms)
qed

text \<open>
  The scan of the ROMs ends at the first one that cannot be opened or enabled: the ROMs
  before it are reported with their sizes, it is reported as unreadable, and neither the rest of
  its directory nor the rest of the tree is visited, although the comment in the code calls an
  unreadable ROM no failure.
\<close>

theorem rom_scan_stops:
  assumes "scannable (FDir d)" and "matches pat path (FDir d) = ps @ q # qs"
    and "\<forall>p \<in> set ps. 0 < fst (read_rom (roms p) p)" and "fst (read_rom (roms q) q) < 0"
    and "\<forall>p \<in> set qs. fst (read_rom (roms p) p) \<noteq> 0"
  shows "scan_rom roms pat path (FDir d) =
     (fst (read_rom (roms q) q), map (\<lambda>p. RomBytes p (fst (read_rom (roms p) p))) ps
        @ fst (snd (read_rom (roms q) q)) @ [RomUnreadable q])"
proof -
  have v: "fst (rom_visit roms p) = fst (read_rom (roms p) p)" for p
    by (simp add: rom_visit_def split: prod.splits)
  have ok: "snd (rom_visit roms p) = [RomBytes p (fst (read_rom (roms p) p))]" if "p \<in> set ps" for p
    using assms(3) that by (auto simp: rom_visit_def read_rom_def split: if_splits)
  have bad: "snd (rom_visit roms q) = fst (snd (read_rom (roms q) q)) @ [RomUnreadable q]"
    using assms(4) by (auto simp: rom_visit_def split: prod.splits)
  have "scan_rom roms pat path (FDir d) = flat (rom_visit roms) 0 (ps @ q # qs)"
    using rom_flat(1) [of "FDir d" pat path roms] assms by (fastforce simp: v)
  also have "\<dots> = (fst (read_rom (roms q) q), concat (map (snd \<circ> rom_visit roms) (ps @ [q])))"
    using flat_stops [of ps "rom_visit roms" q 0 qs] assms(3,4) by (simp add: v less_imp_le)
  also have "concat (map (snd \<circ> rom_visit roms) (ps @ [q])) =
      concat (map (snd \<circ> rom_visit roms) ps) @ fst (snd (read_rom (roms q) q)) @ [RomUnreadable q]"
    using bad by simp
  also have "concat (map (snd \<circ> rom_visit roms) ps) = map (\<lambda>p. RomBytes p (fst (read_rom (roms p) p))) ps"
    using ok by (induction ps) auto
  finally show ?thesis .
qed

theorem rom_scan_stops_witness:
  "(let roms = (\<lambda>p. if p = ''/d/a/rom'' then \<lparr>r_fd = 3, r_wrote = 2, r_reads = [1024, 512, 0]\<rparr>
                   else \<lparr>r_fd = -1, r_wrote = 0, r_reads = []\<rparr>);
        t = FDir (Some [(''a'', FDir (Some [(''rom'', FOther)])), (''b'', FDir (Some [(''rom'', FOther)])),
              (''c'', FDir (Some [(''rom'', FOther)]))]) in
    matches ''rom'' ''/d'' t = [''/d/a/rom'', ''/d/b/rom'', ''/d/c/rom''] \<and>
    scan_rom roms ''rom'' ''/d'' t = (-1, [RomBytes ''/d/a/rom'' 1536, Perror ''/d/b/rom'', RomUnreadable ''/d/b/rom'']))"
proof -
  let ?roms = "\<lambda>p. if p = ''/d/a/rom'' then \<lparr>r_fd = 3, r_wrote = 2, r_reads = [1024, 512, 0]\<rparr>
                   else \<lparr>r_fd = -1, r_wrote = 0, r_reads = []\<rparr>"
  let ?d = "Some [(''a'', FDir (Some [(''rom'', FOther)])), (''b'', FDir (Some [(''rom'', FOther)])),
              (''c'', FDir (Some [(''rom'', FOther)]))]"
  have s: "scannable (FDir ?d)" by code_simp
  have m: "matches ''rom'' ''/d'' (FDir ?d) = [''/d/a/rom''] @ ''/d/b/rom'' # [''/d/c/rom'']" by code_simp
  have r: "read_rom (?roms ''/d/a/rom'') ''/d/a/rom'' = (1536, [], [Acq (AFd 3), Rel (AFd 3)])" by code_simp
  have q: "read_rom (?roms p) p = (-1, [Perror p], [])" if "p \<noteq> ''/d/a/rom''" for p
    using that by (simp add: read_rom_def)
  show ?thesis
    using rom_scan_stops [OF s m, of ?roms] m r q [of "''/d/b/rom''"] q [of "''/d/c/rom''"]
    by (simp add: Let_def del: matches.simps scan_rom.simps)
qed

end
