(* ===== verification/Io_Trace.thy ===== *)
theory Io_Trace
  imports Doc_Prelude
begin

text \<open>
  Programs that are sequences of system calls and messages. The system is an oracle: its answer
  to a call may depend on all calls before it. A program step extends the history of calls and
  the lines printed and either goes on, returns from \<open>main\<close>, or stays forever in a loop that
  has no exit.
\<close>

section \<open>State and steps\<close>

record ('c, 'l) io =
  hist :: "'c list"
  out :: "'l list"

type_synonym ('c, 'a) answers = "'c list \<Rightarrow> 'c \<Rightarrow> 'a"

datatype flow = Next | Return int | Forever

definition say :: "'l list \<Rightarrow> ('c, 'l, 'z) io_scheme \<Rightarrow> ('c, 'l, 'z) io_scheme" where
  "say ls s = s\<lparr>out := out s @ ls\<rparr>"

definition did :: "'c \<Rightarrow> ('c, 'l, 'z) io_scheme \<Rightarrow> ('c, 'l, 'z) io_scheme" where
  "did c s = s\<lparr>hist := hist s @ [c]\<rparr>"

abbreviation ask :: "('c, 'a) answers \<Rightarrow> 'c \<Rightarrow> ('c, 'l, 'z) io_scheme \<Rightarrow> 'a" where
  "ask sys c s \<equiv> sys (hist s) c"

text \<open>Steps one after the other, up to the first that does not go on.\<close>

fun run_steps :: "('s \<Rightarrow> flow \<times> 's) list \<Rightarrow> 's \<Rightarrow> flow \<times> 's" where
  "run_steps [] s = (Next, s)"
| "run_steps (p # ps) s = (case p s of (f, s') \<Rightarrow> if f = Next then run_steps ps s' else (f, s'))"

lemma say_simps [simp]: "hist (say ls s) = hist s" "out (say ls s) = out s @ ls"
  by (simp_all add: say_def)

lemma did_simps [simp]: "hist (did c s) = hist s @ [c]" "out (did c s) = out s"
  by (simp_all add: did_def)

lemma run_steps_append:
  "run_steps (ps @ qs) s = (case run_steps ps s of (f, s') \<Rightarrow> if f = Next then run_steps qs s' else (f, s'))"
  by (induction ps arbitrary: s) (auto split: prod.splits)

text \<open>
  Command lines: an option is either taken, or the program stops with its usage text, or it is a
  number that \<open>atoi\<close> leaves undefined.
\<close>

datatype opt_stop = UsageExit | Undefined

fun scan_with :: "('o \<Rightarrow> 'p \<Rightarrow> opt_stop + 'p) \<Rightarrow> 'o list \<Rightarrow> 'p \<Rightarrow> opt_stop + 'p" where
  "scan_with opt [] p = Inr p"
| "scan_with opt (c # cs) p = (case opt c p of Inl e \<Rightarrow> Inl e | Inr p' \<Rightarrow> scan_with opt cs p')"

lemma scan_with_induct:
  assumes "scan_with opt cs p = Inr q" and "P [] p"
    and "\<And>cs c p p'. P cs p \<Longrightarrow> opt c p = Inr p' \<Longrightarrow> P (cs @ [c]) p'"
  shows "P cs q"
proof -
  have "scan_with opt cs p = Inr q \<Longrightarrow> P ds p \<Longrightarrow> P (ds @ cs) q" for ds
  proof (induction cs arbitrary: p ds)
    case (Cons c cs)
    then obtain p' where "opt c p = Inr p'" "scan_with opt cs p' = Inr q" by (auto split: sum.splits)
    with Cons.IH [of p' "ds @ [c]"] assms(3) [OF Cons.prems(2)] show ?case by simp
  qed simp
  from this [of "[]"] assms(1,2) show ?thesis by simp
qed

section \<open>What a step may do\<close>

text \<open>\<open>adds S s t\<close>: on the way from \<open>s\<close> to \<open>t\<close> only calls that satisfy \<open>S\<close> were made.\<close>

definition adds :: "('c \<Rightarrow> bool) \<Rightarrow> ('c, 'l, 'z) io_scheme \<Rightarrow> ('c, 'l, 'z) io_scheme \<Rightarrow> bool" where
  "adds S s t \<longleftrightarrow> (\<exists>new. hist t = hist s @ new \<and> list_all S new)"

lemma adds_refl: "hist t = hist s \<Longrightarrow> adds S s t"
  by (simp add: adds_def)

lemma adds_trans: "adds S s t \<Longrightarrow> adds S t u \<Longrightarrow> adds S s u"
  unfolding adds_def by fastforce

lemma adds_funpow: "(\<And>s. adds S s (f s)) \<Longrightarrow> adds S s ((f ^^ n) s)"
  by (induction n) (auto intro: adds_refl adds_trans)

text \<open>
  \<open>does S F p\<close>: the step only appends calls that satisfy \<open>S\<close>, and its outcome
  satisfies \<open>F\<close>.
\<close>

definition does :: "('c \<Rightarrow> bool) \<Rightarrow> (flow \<Rightarrow> bool) \<Rightarrow>
    (('c, 'l, 'z) io_scheme \<Rightarrow> flow \<times> ('c, 'l, 'z) io_scheme) \<Rightarrow> bool" where
  "does S F p \<longleftrightarrow> (\<forall>s. F (fst (p s)) \<and> (\<exists>new. hist (snd (p s)) = hist s @ new \<and> list_all S new))"

lemma doesI:
  assumes "\<And>s. F (fst (p s))" and "\<And>s. \<exists>new. hist (snd (p s)) = hist s @ new \<and> list_all S new"
  shows "does S F p"
  using assms by (simp add: does_def)

lemma doesE:
  assumes "does S F p" and "p s = (f, s')"
  obtains new where "F f" "hist s' = hist s @ new" "list_all S new"
  using assms unfolding does_def by (metis fst_conv snd_conv)

lemma does_mono:
  "does S F p \<Longrightarrow> (\<And>c. S c \<Longrightarrow> S' c) \<Longrightarrow> (\<And>f. F f \<Longrightarrow> F' f) \<Longrightarrow> does S' F' p"
  unfolding does_def by (metis list_all_iff)

lemma does_bind:
  assumes "does S F p"
    and "\<And>f s. F f \<Longrightarrow> G (fst (k f s)) \<and> (\<exists>new. hist (snd (k f s)) = hist s @ new \<and> list_all S new)"
  shows "does S G (\<lambda>s. case p s of (f, s') \<Rightarrow> k f s')"
  unfolding does_def
proof
  fix s
  obtain f s' where p: "p s = (f, s')" by (cases "p s")
  with assms(1) obtain n1 where n1: "F f" "hist s' = hist s @ n1" "list_all S n1" by (rule doesE)
  from assms(2) [OF n1(1), of s'] obtain n2 where "G (fst (k f s'))" "hist (snd (k f s')) = hist s' @ n2"
    "list_all S n2" by blast
  with p n1 show "G (fst (case p s of (f, s') \<Rightarrow> k f s')) \<and>
      (\<exists>new. hist (snd (case p s of (f, s') \<Rightarrow> k f s')) = hist s @ new \<and> list_all S new)"
    by (intro conjI exI [of _ "n1 @ n2"]) simp_all
qed

lemma does_if: "does S F p \<Longrightarrow> F Next \<Longrightarrow> does S F (\<lambda>s. if b then p s else (Next, s))"
  by (simp add: does_def)

lemma run_steps_does:
  assumes "list_all (does S F) ps" and "F Next"
  shows "does S F (run_steps ps)"
  using assms(1)
proof (induction ps)
  case Nil
  show ?case using assms(2) by (simp add: does_def)
next
  case (Cons p ps)
  show ?case unfolding does_def
  proof
    fix s
    obtain f s' where p: "p s = (f, s')" by (cases "p s")
    from Cons.prems p obtain n1 where n1: "F f" "hist s' = hist s @ n1" "list_all S n1"
      by (auto elim: doesE)
    obtain g s'' where q: "run_steps ps s' = (g, s'')" by (cases "run_steps ps s'")
    from Cons q obtain n2 where n2: "F g" "hist s'' = hist s' @ n2" "list_all S n2"
      by (auto elim: doesE)
    show "F (fst (run_steps (p # ps) s)) \<and>
        (\<exists>new. hist (snd (run_steps (p # ps) s)) = hist s @ new \<and> list_all S new)"
      using p q n1 n2 by auto
  qed
qed

text \<open>\<open>makes cs p\<close>: when the step goes on, it has made exactly the calls \<open>cs\<close>.\<close>

definition makes :: "'c list \<Rightarrow> (('c, 'l, 'z) io_scheme \<Rightarrow> flow \<times> ('c, 'l, 'z) io_scheme) \<Rightarrow> bool" where
  "makes cs p \<longleftrightarrow> (\<forall>s s'. p s = (Next, s') \<longrightarrow> hist s' = hist s @ cs)"

lemma run_steps_makes: "list_all2 makes css ps \<Longrightarrow> makes (concat css) (run_steps ps)"
proof (induction css ps rule: list_all2_induct)
  case (Cons cs css p ps)
  show ?case unfolding makes_def
  proof (intro allI impI)
    fix s s'
    assume r: "run_steps (p # ps) s = (Next, s')"
    obtain f s1 where p: "p s = (f, s1)" by (cases "p s")
    with r have "f = Next" "run_steps ps s1 = (Next, s')" by (auto split: if_splits)
    with p Cons show "hist s' = hist s @ concat (cs # css)" unfolding makes_def by auto
  qed
qed (simp add: makes_def)

end
