(* ===== verification/Testptp.thy ===== *)
theory Testptp
  imports Io_Trace "HOL-Library.Log_Nat"
begin

text \<open>
  Model of \<open>src/Documentation/ptp/testptp.c\<close>: the options, and one step per block of
  \<open>main\<close>, run in the order of the code. Calls and messages go into the history and the
  output of the state.
\<close>

unbundle bit_operations_syntax

section \<open>Conversions\<close>

definition get_clockid :: "u32 \<Rightarrow> u32" where
  "get_clockid fd = push_bit 3 (NOT fd) OR 3"

text \<open>
  The double nearest to 65.536 is 1152921504606847 / 2 ^ 44. A product with an \<open>int\<close> is
  rounded to 53 significant bits, to nearest, ties to even; magnitudes are counted in units of
  2 ^ -44.
\<close>

definition round53 :: "nat \<Rightarrow> nat" where
  "round53 n =
     (let e = floorlog 2 n - 53; q = n div 2 ^ e; r = n mod 2 ^ e in
      if 2 * r > 2 ^ e \<or> (2 * r = 2 ^ e \<and> e \<noteq> 0 \<and> odd q) then Suc q * 2 ^ e else q * 2 ^ e)"

definition ppb_to_scaled_ppm :: "int \<Rightarrow> int" where
  "ppb_to_scaled_ppm ppb = sgn ppb * int (round53 (nat \<bar>ppb\<bar> * 1152921504606847) div 2 ^ 44)"

record ptp_clock_time =
  sec :: int
  nsec :: int

definition pctns :: "ptp_clock_time \<Rightarrow> int" where
  "pctns t = sec t * 1000000000 + nsec t"

section \<open>Options\<close>

record ptp_opts =
  device :: string
  adjfreq :: int
  adjtime :: int
  capabilities :: bool
  extts :: int
  gettime :: bool
  index :: int
  list_pins :: bool
  oneshot :: int
  pct_offset :: bool
  n_samples :: int
  periodic :: int
  perout :: int
  pin_index :: int
  pin_func :: int
  pps :: int
  seconds :: int
  settime :: int

text \<open>\<open>pin_func\<close> has no value before \<open>-L\<close> gives it one; nothing reads it then.\<close>

definition ptp_defaults :: ptp_opts where
  "ptp_defaults = \<lparr>device = ''/dev/ptp0'', adjfreq = 0x7fffffff, adjtime = 0, capabilities = False,
     extts = 0, gettime = False, index = 0, list_pins = False, oneshot = 0, pct_offset = False,
     n_samples = 0, periodic = 0, perout = -1, pin_index = -1, pin_func = 0, pps = -1, seconds = 0,
     settime = 0\<rparr>"

text \<open>\<open>sscanf\<close> with \<open>"%d,%d"\<close>: both numbers, or \<open>None\<close> with fewer.\<close>

definition scan_int :: "string \<Rightarrow> (int \<times> string) option" where
  "scan_int s =
     (let s1 = dropWhile c_isspace s;
          neg = (s1 \<noteq> [] \<and> hd s1 = CHR ''-'');
          ds = (if s1 \<noteq> [] \<and> hd s1 \<in> {CHR ''-'', CHR ''+''} then tl s1 else s1);
          v = int (digits_val 0 (takeWhile is_digit ds))
      in if takeWhile is_digit ds = [] then None
         else Some (if neg then - v else v, dropWhile is_digit ds))"

definition scan_pair :: "string \<Rightarrow> (int \<times> int) option" where
  "scan_pair s =
     (case scan_int s of
        Some (a, CHR '','' # t) \<Rightarrow> map_option (\<lambda>(b, _). (a, b)) (scan_int t)
      | _ \<Rightarrow> None)"

text \<open>
  One option: \<open>Inl\<close> is a return from \<open>main\<close> after the usage text, \<open>None\<close>
  the undefined case of a number that does not fit an \<open>int\<close>.
\<close>

definition num :: "string \<Rightarrow> (int \<Rightarrow> ptp_opts) \<Rightarrow> (int + ptp_opts) option" where
  "num s f = map_option (\<lambda>v. Inr (f v)) (atoi s)"

definition ptp_option :: "char \<times> string \<Rightarrow> ptp_opts \<Rightarrow> (int + ptp_opts) option" where
  "ptp_option copt p =
     (let c = fst copt; optarg = snd copt in
      if c = CHR ''a'' then num optarg (\<lambda>v. p\<lparr>oneshot := v\<rparr>)
      else if c = CHR ''A'' then num optarg (\<lambda>v. p\<lparr>periodic := v\<rparr>)
      else if c = CHR ''c'' then Some (Inr (p\<lparr>capabilities := True\<rparr>))
      else if c = CHR ''d'' then Some (Inr (p\<lparr>device := optarg\<rparr>))
      else if c = CHR ''e'' then num optarg (\<lambda>v. p\<lparr>extts := v\<rparr>)
      else if c = CHR ''f'' then num optarg (\<lambda>v. p\<lparr>adjfreq := v\<rparr>)
      else if c = CHR ''g'' then Some (Inr (p\<lparr>gettime := True\<rparr>))
      else if c = CHR ''i'' then num optarg (\<lambda>v. p\<lparr>index := v\<rparr>)
      else if c = CHR ''k'' then num optarg (\<lambda>v. p\<lparr>pct_offset := True, n_samples := v\<rparr>)
      else if c = CHR ''l'' then Some (Inr (p\<lparr>list_pins := True\<rparr>))
      else if c = CHR ''L'' then
        Some (case scan_pair optarg of
                Some (i, f) \<Rightarrow> Inr (p\<lparr>pin_index := i, pin_func := f\<rparr>)
              | None \<Rightarrow> Inl (-1))
      else if c = CHR ''p'' then num optarg (\<lambda>v. p\<lparr>perout := v\<rparr>)
      else if c = CHR ''P'' then num optarg (\<lambda>v. p\<lparr>pps := v\<rparr>)
      else if c = CHR ''s'' then Some (Inr (p\<lparr>settime := 1\<rparr>))
      else if c = CHR ''S'' then Some (Inr (p\<lparr>settime := 2\<rparr>))
      else if c = CHR ''t'' then num optarg (\<lambda>v. p\<lparr>adjtime := v\<rparr>)
      else if c = CHR ''T'' then num optarg (\<lambda>v. p\<lparr>settime := 3, seconds := v\<rparr>)
      else if c = CHR ''h'' then Some (Inl 0)
      else Some (Inl (-1)))"

fun ptp_options :: "(char \<times> string) list \<Rightarrow> ptp_opts \<Rightarrow> (int + ptp_opts) option" where
  "ptp_options [] p = Some (Inr p)"
| "ptp_options (c # cs) p =
     (case ptp_option c p of Some (Inr p') \<Rightarrow> ptp_options cs p' | r \<Rightarrow> r)"

section \<open>Calls, answers, lines\<close>

datatype ptp_call =
    Open string | GetCaps | AdjFreq u32 int | AdjOffset u32 int
  | GetTime u32 | SetTime u32 "ptp_clock_time option"
  | ExttsRequest int bool | ReadEvent
  | PinGet int | PinSet int int int
  | Handler | TimerCreate u32 | TimerSet int int | Pause | TimerDelete
  | Perout int int int int int | Pps int | Calloc | SysOffset int | Free | Close

record ptp_caps =
  max_adj :: int
  n_alarm :: int
  n_ext_ts :: int
  n_per_out :: int
  caps_pps :: int
  n_pins :: int

record ptp_pin_desc =
  pin_name :: string
  func :: int
  chan :: int

text \<open>
  An answer: the value of the call (for \<open>read\<close> and \<open>calloc\<close> 0 stands for the full
  event and for memory) and what it fills in.
\<close>

record ptp_ans =
  rc :: int
  a_time :: ptp_clock_time
  a_index :: int
  a_caps :: ptp_caps
  a_pin :: ptp_pin_desc
  a_samples :: "ptp_clock_time list"

datatype ptp_line =
    Usage | OpenError string | ClockIdError | PErr string | Ok string
  | Caps ptp_caps | ClockTime ptp_clock_time | Event int ptp_clock_time
  | Pin string int int int | SysTime int int | PhcTime int int | Offset int | Delay int

text \<open>The local \<open>ts\<close>: \<open>None\<close> before anything wrote to it.\<close>

record ptp_st = "(ptp_call, ptp_line) io" +
  ts :: "ptp_clock_time option"

type_synonym ptp_sys = "(ptp_call, ptp_ans) answers"
type_synonym ptp_step = "ptp_st \<Rightarrow> flow \<times> ptp_st"

text \<open>A request that is only reported.\<close>

definition ptp_report :: "ptp_sys \<Rightarrow> ptp_call \<Rightarrow> string \<Rightarrow> string \<Rightarrow> ptp_st \<Rightarrow> ptp_st" where
  "ptp_report sys c err ok s =
     (if rc (ask sys c s) \<noteq> 0 then say [PErr err] (did c s) else say [Ok ok] (did c s))"

section \<open>The blocks of main\<close>

definition do_caps :: "ptp_sys \<Rightarrow> ptp_opts \<Rightarrow> ptp_step" where
  "do_caps sys p s =
     (if capabilities p then
        (let a = ask sys GetCaps s in
         (Next, say [if rc a \<noteq> 0 then PErr ''PTP_CLOCK_GETCAPS'' else Caps (a_caps a)] (did GetCaps s)))
      else (Next, s))"

definition do_adjfreq :: "ptp_sys \<Rightarrow> ptp_opts \<Rightarrow> u32 \<Rightarrow> ptp_step" where
  "do_adjfreq sys p clkid s =
     (if adjfreq p \<noteq> 0x7fffffff then
        (Next, ptp_report sys (AdjFreq clkid (ppb_to_scaled_ppm (adjfreq p))) ''clock_adjtime''
           ''frequency adjustment okay'' s)
      else (Next, s))"

text \<open>Here the call only fails on a negative value.\<close>

definition do_adjtime :: "ptp_sys \<Rightarrow> ptp_opts \<Rightarrow> u32 \<Rightarrow> ptp_step" where
  "do_adjtime sys p clkid s =
     (if adjtime p \<noteq> 0 then
        (let c = AdjOffset clkid (adjtime p) in
         (Next, say [if rc (ask sys c s) < 0 then PErr ''clock_adjtime'' else Ok ''time shift okay''] (did c s)))
      else (Next, s))"

text \<open>\<open>clock_gettime\<close>: \<open>ts\<close> keeps its value when the call fails.\<close>

definition read_clock :: "ptp_sys \<Rightarrow> u32 \<Rightarrow> ptp_st \<Rightarrow> int \<times> ptp_st" where
  "read_clock sys clk s =
     (let a = ask sys (GetTime clk) s in
      (rc a, (did (GetTime clk) s)\<lparr>ts := (if rc a = 0 then Some (a_time a) else ts s)\<rparr>))"

definition do_gettime :: "ptp_sys \<Rightarrow> ptp_opts \<Rightarrow> u32 \<Rightarrow> ptp_step" where
  "do_gettime sys p clkid s =
     (if gettime p then
        (case read_clock sys clkid s of (r, s1) \<Rightarrow>
           if r \<noteq> 0 then (Next, say [PErr ''clock_gettime''] s1)
           else (Next, say [ClockTime (the (ts s1))] s1))
      else (Next, s))"

text \<open>The value of \<open>clock_gettime\<close> is not looked at before the other clock is set.\<close>

definition do_settime :: "ptp_sys \<Rightarrow> ptp_opts \<Rightarrow> u32 \<Rightarrow> ptp_step" where
  "do_settime sys p clkid s =
     (if settime p = 1 then
        (let s1 = snd (read_clock sys 0 s) in
         (Next, ptp_report sys (SetTime clkid (ts s1)) ''clock_settime'' ''set time okay'' s1))
      else if settime p = 2 then
        (let s1 = snd (read_clock sys clkid s) in
         (Next, ptp_report sys (SetTime 0 (ts s1)) ''clock_settime'' ''set time okay'' s1))
      else if settime p = 3 then
        (let t = \<lparr>sec = seconds p, nsec = 0\<rparr> in
         (Next, ptp_report sys (SetTime clkid (Some t)) ''clock_settime'' ''set time okay'' (s\<lparr>ts := Some t\<rparr>)))
      else (Next, s))"

text \<open>
  The loop of the external time stamps. A negative count runs down to the least \<open>int\<close>,
  whose decrement is undefined: the loop is cut off there.
\<close>

function extts_loop :: "ptp_sys \<Rightarrow> int \<Rightarrow> ptp_st \<Rightarrow> ptp_st" where
  "extts_loop sys n s =
     (if n = 0 \<or> n \<le> - (2 ^ 31) then s
      else
        let a = ask sys ReadEvent s; s1 = did ReadEvent s in
        if rc a \<noteq> 0 then say [PErr ''read''] s1
        else extts_loop sys (n - 1) (say [Event (a_index a) (a_time a)] s1))"
  by auto
termination
  by (relation "measure (\<lambda>(sys, n, s). nat (n + 2 ^ 31))") auto

declare extts_loop.simps [simp del]

definition do_extts :: "ptp_sys \<Rightarrow> ptp_opts \<Rightarrow> ptp_step" where
  "do_extts sys p s =
     (if extts p \<noteq> 0 then
        (let on = ExttsRequest (index p) True; off = ExttsRequest (index p) False;
             failed = rc (ask sys on s) \<noteq> 0;
             s1 = ptp_report sys on ''PTP_EXTTS_REQUEST'' ''external time stamp request okay'' s;
             s2 = extts_loop sys (if failed then 0 else extts p) s1
         in (Next, if rc (ask sys off s2) \<noteq> 0 then say [PErr ''PTP_EXTTS_REQUEST''] (did off s2) else did off s2))
      else (Next, s))"

fun pins_loop :: "ptp_sys \<Rightarrow> nat \<Rightarrow> nat \<Rightarrow> ptp_st \<Rightarrow> ptp_st" where
  "pins_loop sys i 0 s = s"
| "pins_loop sys i (Suc n) s =
     (let a = ask sys (PinGet (int i)) s; s1 = did (PinGet (int i)) s in
      if rc a \<noteq> 0 then say [PErr ''PTP_PIN_GETFUNC''] s1
      else pins_loop sys (Suc i) n
             (say [Pin (pin_name (a_pin a)) (a_index a) (func (a_pin a)) (chan (a_pin a))] s1))"

definition do_pins :: "ptp_sys \<Rightarrow> ptp_opts \<Rightarrow> ptp_step" where
  "do_pins sys p s =
     (if list_pins p then
        (let a = ask sys GetCaps s; s1 = did GetCaps s in
         if rc a \<noteq> 0 then (Next, say [PErr ''PTP_CLOCK_GETCAPS''] s1)
         else (Next, pins_loop sys 0 (nat (n_pins (a_caps a))) s1))
      else (Next, s))"

text \<open>Creating and starting the timer of both alarms.\<close>

definition start_timer :: "ptp_sys \<Rightarrow> u32 \<Rightarrow> int \<Rightarrow> int \<Rightarrow> ptp_step" where
  "start_timer sys clkid interval val s =
     (let s1 = did Handler s; a = ask sys (TimerCreate clkid) s1; s2 = did (TimerCreate clkid) s1 in
      if rc a \<noteq> 0 then (Return (-1), say [PErr ''timer_create''] s2)
      else
        let c = TimerSet interval val; s3 = did c s2 in
        if rc (ask sys c s2) \<noteq> 0 then (Return (-1), say [PErr ''timer_settime''] s3)
        else (Next, s3))"

definition do_oneshot :: "ptp_sys \<Rightarrow> ptp_opts \<Rightarrow> u32 \<Rightarrow> ptp_step" where
  "do_oneshot sys p clkid s =
     (if oneshot p \<noteq> 0 then
        (case start_timer sys clkid 0 (oneshot p) s of (f, s1) \<Rightarrow>
           if f = Next then (Next, did TimerDelete (did Pause s1)) else (f, s1))
      else (Next, s))"

text \<open>The loop after a periodic timer has started has no exit.\<close>

definition do_periodic :: "ptp_sys \<Rightarrow> ptp_opts \<Rightarrow> u32 \<Rightarrow> ptp_step" where
  "do_periodic sys p clkid s =
     (if periodic p \<noteq> 0 then
        (case start_timer sys clkid (periodic p) (periodic p) s of (f, s1) \<Rightarrow>
           if f = Next then (Forever, s1) else (f, s1))
      else (Next, s))"

definition do_perout :: "ptp_sys \<Rightarrow> ptp_opts \<Rightarrow> u32 \<Rightarrow> ptp_step" where
  "do_perout sys p clkid s =
     (if perout p \<ge> 0 then
        (case read_clock sys clkid s of (r, s1) \<Rightarrow>
           if r \<noteq> 0 then (Return (-1), say [PErr ''clock_gettime''] s1)
           else (Next, ptp_report sys (Perout (index p) (sec (the (ts s1)) + 2) 0 0 (perout p))
                         ''PTP_PEROUT_REQUEST'' ''periodic output request okay'' s1))
      else (Next, s))"

definition do_pin :: "ptp_sys \<Rightarrow> ptp_opts \<Rightarrow> ptp_step" where
  "do_pin sys p s =
     (if pin_index p \<ge> 0 then
        (Next, ptp_report sys (PinSet (pin_index p) (pin_func p) (index p)) ''PTP_PIN_SETFUNC'' ''set pin function okay'' s)
      else (Next, s))"

definition do_pps :: "ptp_sys \<Rightarrow> ptp_opts \<Rightarrow> ptp_step" where
  "do_pps sys p s =
     (if pps p \<noteq> -1 then
        (Next, ptp_report sys (Pps (if pps p \<noteq> 0 then 1 else 0)) ''PTP_ENABLE_PPS'' ''pps for system time request okay'' s)
      else (Next, s))"

text \<open>
  Offset and delay of a sample in nanoseconds; \<open>sample_fits\<close> below shows that they stay
  inside \<open>int64_t\<close> for more than a century.
\<close>

definition sample_offset :: "int \<Rightarrow> int \<Rightarrow> int \<Rightarrow> int" where
  "sample_offset t1 tp t2 = c_quot (t2 + t1) 2 - tp"

text \<open>
  The lines for sample \<open>i\<close>. \<open>t\<close> is the array \<open>ts\<close> of 51 entries
  (twice \<open>PTP_MAX_SAMPLES\<close> and one more); \<open>None\<close> is a read outside it.
\<close>

definition sample_lines :: "ptp_clock_time list \<Rightarrow> nat \<Rightarrow> ptp_line list option" where
  "sample_lines t i =
     (if 2 * i + 2 < length t then
        (let a = t ! (2 * i); b = t ! (2 * i + 1); c = t ! (2 * i + 2);
             t1 = pctns a; tp = pctns b; t2 = pctns c in
         Some [SysTime (sec a) (nsec a), PhcTime (sec b) (nsec b), SysTime (sec c) (nsec c),
               Offset (sample_offset t1 tp t2), Delay (t2 - t1)])
      else None)"

text \<open>The array after \<open>calloc\<close> and the ioctl, which fills in its first entries.\<close>

definition sysoff_ts :: "ptp_ans \<Rightarrow> ptp_clock_time list" where
  "sysoff_ts a =
     (let z = replicate 51 \<lparr>sec = 0, nsec = 0\<rparr> in
      if rc a \<noteq> 0 then z else take 51 (a_samples a @ drop (length (a_samples a)) z))"

definition do_offset :: "ptp_sys \<Rightarrow> ptp_opts \<Rightarrow> ptp_st \<Rightarrow> (flow \<times> ptp_st) option" where
  "do_offset sys p s =
     (if pct_offset p then
        if n_samples p \<le> 0 \<or> n_samples p > 25
        then Some (Return (-1), say [Ok ''n_samples should be between 1 and 25'', Usage] s)
        else if rc (ask sys Calloc s) \<noteq> 0 then Some (Return (-1), say [PErr ''calloc''] (did Calloc s))
        else
          let s1 = did Calloc s; c = SysOffset (n_samples p); a = ask sys c s1;
              s2 = ptp_report sys c ''PTP_SYS_OFFSET'' ''system and phc clock time offset request okay'' s1 in
          (case those (map (sample_lines (sysoff_ts a)) [0..<nat (n_samples p)]) of
             None \<Rightarrow> None
           | Some ls \<Rightarrow> Some (Next, did Free (say (concat ls) s2)))
      else Some (Next, s))"

text \<open>The blocks between opening the device and measuring the offset.\<close>

definition ptp_blocks :: "ptp_sys \<Rightarrow> ptp_opts \<Rightarrow> u32 \<Rightarrow> ptp_step list" where
  "ptp_blocks sys p clkid =
     [do_caps sys p, do_adjfreq sys p clkid, do_adjtime sys p clkid, do_gettime sys p clkid,
      do_settime sys p clkid, do_extts sys p, do_pins sys p, do_oneshot sys p clkid,
      do_periodic sys p clkid, do_perout sys p clkid, do_pin sys p, do_pps sys p]"

text \<open>
  \<open>main\<close> from the options of \<open>getopt\<close>. \<open>None\<close>: an option number is undefined,
  or a sample outside the array is read.
\<close>

definition ptp_run :: "ptp_sys \<Rightarrow> ptp_opts \<Rightarrow> ptp_st \<Rightarrow> (flow \<times> ptp_st) option" where
  "ptp_run sys p s =
     (let fd = rc (ask sys (Open (device p)) s); s1 = did (Open (device p)) s;
          clkid = get_clockid (word_of_int fd) in
      if fd < 0 then Some (Return (-1), say [OpenError (device p)] s1)
      else if clkid = -1 then Some (Return (-1), say [ClockIdError] s1)
      else case run_steps (ptp_blocks sys p clkid) s1 of (f, s2) \<Rightarrow>
        if f \<noteq> Next then Some (f, s2)
        else
          (case do_offset sys p s2 of
             None \<Rightarrow> None
           | Some (g, s3) \<Rightarrow> Some (if g = Next then (Return 0, did Close s3) else (g, s3))))"

definition testptp_main :: "ptp_sys \<Rightarrow> (char \<times> string) list \<Rightarrow> (flow \<times> ptp_st) option" where
  "testptp_main sys argv =
     (let s = \<lparr>hist = [], out = [], ts = None\<rparr> in
      case ptp_options argv ptp_defaults of
        None \<Rightarrow> None
      | Some (Inl r) \<Rightarrow> Some (Return r, say [Usage] s)
      | Some (Inr p) \<Rightarrow> ptp_run sys p s)"

section \<open>The frequency conversion\<close>

lemma floorlog_bounds:
  assumes "0 < n" and "n < 2 ^ k"
  shows "floorlog 2 n \<le> k"
  using assms by (simp add: floorlog_leI)

lemma round53_bounds:
  fixes n m k :: nat
  assumes "n < 2 ^ (53 + k)" and "m * 2 ^ k \<le> n"
  shows "m * 2 ^ k \<le> round53 n" and "round53 n \<le> n + 2 ^ k"
proof -
  define e where "e = floorlog 2 n - 53"
  define q where "q = n div 2 ^ e"
  have "floorlog 2 n \<le> 53 + k"
    using assms(1) by (cases "n = 0") (simp_all add: floorlog_leI)
  then have ek: "e \<le> k" by (simp add: e_def)
  then obtain d where d: "k = e + d" using le_Suc_ex by blast
  have r: "round53 n = q * 2 ^ e \<or> round53 n = Suc q * 2 ^ e"
    by (simp add: round53_def Let_def e_def [symmetric] q_def [symmetric])
  have mk: "m * 2 ^ k = (m * 2 ^ d) * 2 ^ e" by (simp add: d power_add)
  then have "(m * 2 ^ d) * 2 ^ e \<le> n" using assms(2) by metis
  then have "m * 2 ^ d \<le> q"
    by (simp add: q_def less_eq_div_iff_mult_less_eq)
  then have "(m * 2 ^ d) * 2 ^ e \<le> q * 2 ^ e" by simp
  then show "m * 2 ^ k \<le> round53 n"
    using r unfolding mk by (auto simp: trans_le_add2)
  have "q * 2 ^ e \<le> n" by (simp add: q_def)
  moreover have "(2 :: nat) ^ e \<le> 2 ^ k" using ek by simp
  ultimately have "q * 2 ^ e + 2 ^ e \<le> n + 2 ^ k" by (rule add_mono)
  then show "round53 n \<le> n + 2 ^ k" using r by auto
qed

text \<open>
  C9. \<open>ppb_to_scaled_ppm\<close> computes in double precision what exact arithmetic gives: for every
  \<open>int\<close> the result is the parts per billion times 65536, divided by 1000 towards zero. The
  rounding of the constant, of the product and the conversion to \<open>long\<close> never show.
\<close>

theorem ppb_to_scaled_ppm_exact:
  assumes "\<bar>ppb\<bar> \<le> 2 ^ 31"
  shows "ppb_to_scaled_ppm ppb = c_quot (ppb * 65536) 1000"
proof -
  define a where "a = nat \<bar>ppb\<bar>"
  have a: "a \<le> 2147483648" using assms by (simp add: a_def)
  define N where "N = a * 65536 div 1000"
  define n where "n = a * 1152921504606847"
  define m where "m = a * 65536 mod 1000"
  have "a * 65536 = N * 1000 + m" unfolding N_def m_def by (rule div_mult_mod_eq [symmetric])
  moreover have "m < 1000" by (simp add: m_def)
  ultimately have "N * 125 \<le> a * 8192" and "a * 8192 < (N + 1) * 125" by (simp, simp)
  then have lo: "N * 2 ^ 44 \<le> n" and hi: "n + 2 ^ 29 < (N + 1) * 2 ^ 44"
    unfolding n_def using a by simp_all
  have "n < 2 ^ (53 + 29)" using a by (simp add: n_def)
  moreover have "(N * 2 ^ 15) * 2 ^ 29 \<le> n" using lo by simp
  ultimately have "(N * 2 ^ 15) * 2 ^ 29 \<le> round53 n" "round53 n \<le> n + 2 ^ 29"
    by (rule round53_bounds)+
  then have "N * 2 ^ 44 \<le> round53 n" "round53 n < (N + 1) * 2 ^ 44" using hi by simp_all
  then have "round53 n div 2 ^ 44 = N" by simp
  then have "ppb_to_scaled_ppm ppb = sgn ppb * int N"
    by (simp add: ppb_to_scaled_ppm_def a_def n_def)
  also have "\<dots> = c_quot (ppb * 65536) 1000"
    by (simp add: c_quot_def N_def a_def sgn_mult abs_mult zdiv_int)
  finally show ?thesis .
qed

theorem ppb_to_scaled_ppm_exact_witness:
  "\<bar>-1001 :: int\<bar> \<le> 2 ^ 31 \<and> ppb_to_scaled_ppm (-1001) = -65601"
  using ppb_to_scaled_ppm_exact [of "-1001"] by (simp add: c_quot_def)

section \<open>The clock id\<close>

text \<open>
  The clock id is never \<open>CLOCK_INVALID\<close>, so the check for it is dead, and it holds the
  descriptor.
\<close>

lemma get_clockid_valid: "get_clockid fd \<noteq> -1"
proof
  assume "get_clockid fd = -1"
  then have "bit (get_clockid fd) 2 = bit (-1 :: u32) 2" by simp
  then show False by (simp add: get_clockid_def bit_simps)
qed

lemma get_clockid_fd:
  assumes "fd < 2 ^ 29"
  shows "drop_bit 3 (NOT (get_clockid fd)) = fd"
proof (rule bit_word_eqI)
  fix i
  assume "i < LENGTH(32)"
  have take: "take_bit 29 fd = fd"
    using assms by (simp add: word_unat_eq_iff unsigned_take_bit_eq word_less_nat_alt take_bit_nat_eq_self)
  have high: "29 \<le> i \<Longrightarrow> \<not> bit fd i"
    using take by (metis bit_take_bit_iff not_le)
  moreover have "bit (536870911 :: u32) j" if "j < 29" for j
  proof -
    have "(536870911 :: u32) = mask 29" by (simp add: mask_eq_exp_minus_1)
    then show ?thesis using that by (simp only: bit_mask_iff) simp
  qed
  ultimately show "bit (drop_bit 3 (NOT (get_clockid fd))) i = bit fd i"
    using \<open>i < LENGTH(32)\<close> by (cases "i < 29") (auto simp: get_clockid_def bit_simps)
qed


section \<open>The offset measurement\<close>

lemma sample_fits:
  assumes "0 \<le> sec a" "sec a < 4600000000" "0 \<le> nsec a" "nsec a < 1000000000"
    and "0 \<le> sec b" "sec b < 4600000000" "0 \<le> nsec b" "nsec b < 1000000000"
  shows "\<bar>pctns a\<bar> < 2 ^ 63" and "\<bar>pctns a + pctns b\<bar> < 2 ^ 63" and "\<bar>pctns a - pctns b\<bar> < 2 ^ 63"
  using assms by (simp_all add: pctns_def)

lemma sample_offset_error:
  assumes "0 \<le> t1" "t1 \<le> t" "t \<le> t2"
  shows "2 * \<bar>sample_offset t1 tp t2 - (t - tp)\<bar> \<le> t2 - t1 + 1"
proof -
  define m where "m = (t2 + t1) div 2"
  have "c_quot (t2 + t1) 2 = m" unfolding m_def using assms by (intro c_quot_pos) auto
  moreover have "2 * m \<le> t2 + t1" "t2 + t1 \<le> 2 * m + 1" unfolding m_def by linarith+
  ultimately show ?thesis unfolding sample_offset_def using assms by (simp add: abs_if)
qed

lemma those_Some: "(\<And>x. x \<in> set xs \<Longrightarrow> f x = Some (g x)) \<Longrightarrow> those (map f xs) = Some (map g xs)"
  by (induction xs) auto


section \<open>The trace of the program\<close>

fun is_extts :: "ptp_call \<Rightarrow> bool" where
  "is_extts (ExttsRequest i b) = True"
| "is_extts c = False"

abbreviation quiet :: "ptp_call \<Rightarrow> bool" where "quiet c \<equiv> c \<noteq> Close \<and> \<not> is_extts c"

lemma ptp_report_hist [simp]: "hist (ptp_report sys c e k s) = hist s @ [c]"
  by (simp add: ptp_report_def)

lemma read_clock_hist [simp]: "hist (snd (read_clock sys clk s)) = hist s @ [GetTime clk]"
  by (simp add: read_clock_def Let_def)

lemma extts_loop_hist: "\<exists>k. hist (extts_loop sys n s) = hist s @ replicate k ReadEvent"
proof (induction sys n s rule: extts_loop.induct)
  case (1 sys n s)
  show ?case
  proof (cases "n = 0 \<or> n \<le> - (2 ^ 31) \<or> rc (ask sys ReadEvent s) \<noteq> 0")
    case True
    then show ?thesis
      by (auto simp: extts_loop.simps [of sys n s] Let_def intro: exI [of _ 0] exI [of _ 1])
  next
    case False
    then obtain k where "hist (extts_loop sys n s) = (hist s @ [ReadEvent]) @ replicate k ReadEvent"
      using "1.IH" [OF _ refl refl] by (auto simp: extts_loop.simps [of sys n s] Let_def)
    then show ?thesis by (intro exI [of _ "Suc k"]) simp
  qed
qed

lemma pins_loop_hist: "\<exists>new. hist (pins_loop sys i n s) = hist s @ new \<and> list_all quiet new"
proof (induction sys i n s rule: pins_loop.induct)
  case (2 sys i n s)
  then show ?case by (fastforce simp: Let_def)
qed simp

lemma start_timer_does: "does quiet (\<lambda>f. f = Next \<or> f = Return (-1)) (start_timer sys clkid a b)"
  by (intro doesI) (auto simp: start_timer_def Let_def)

lemma blocks_quiet:
  "does quiet (\<lambda>f. f \<noteq> Return 0) (do_caps sys p)"
  "does quiet (\<lambda>f. f \<noteq> Return 0) (do_adjfreq sys p clkid)"
  "does quiet (\<lambda>f. f \<noteq> Return 0) (do_adjtime sys p clkid)"
  "does quiet (\<lambda>f. f \<noteq> Return 0) (do_settime sys p clkid)"
  "does quiet (\<lambda>f. f \<noteq> Return 0) (do_pin sys p)"
  "does quiet (\<lambda>f. f \<noteq> Return 0) (do_pps sys p)"
  by (intro doesI; simp add: do_caps_def do_adjfreq_def do_adjtime_def do_settime_def do_pin_def do_pps_def Let_def)+

lemma clock_blocks_quiet:
  "does quiet (\<lambda>f. f \<noteq> Return 0) (do_gettime sys p clkid)"
  "does quiet (\<lambda>f. f \<noteq> Return 0) (do_perout sys p clkid)"
  by (intro doesI; simp add: do_gettime_def do_perout_def case_prod_beta)+

lemma pins_quiet: "does quiet (\<lambda>f. f \<noteq> Return 0) (do_pins sys p)"
proof (rule doesI)
  show "\<exists>new. hist (snd (do_pins sys p s)) = hist s @ new \<and> list_all quiet new" for s
    using pins_loop_hist [of sys 0 _ "did GetCaps s"] by (fastforce simp: do_pins_def Let_def)
qed (simp add: do_pins_def Let_def)

lemma alarm_blocks_quiet:
  "does quiet (\<lambda>f. f \<noteq> Return 0) (do_oneshot sys p clkid)"
  "does quiet (\<lambda>f. f \<noteq> Return 0) (do_periodic sys p clkid)"
  unfolding do_oneshot_def [abs_def] do_periodic_def [abs_def]
  by (intro does_if does_bind [OF start_timer_does]; auto)+

lemma do_extts_hist:
  "fst (do_extts sys p s) = Next \<and>
   (\<exists>k. hist (snd (do_extts sys p s)) = hist s @ (if extts p = 0 then [] else
     ExttsRequest (index p) True # replicate k ReadEvent @ [ExttsRequest (index p) False]))"
proof (cases "extts p = 0")
  case False
  define n where "n = (if rc (ask sys (ExttsRequest (index p) True) s) \<noteq> 0 then 0 else extts p)"
  obtain k where "hist (extts_loop sys n (ptp_report sys (ExttsRequest (index p) True) ''PTP_EXTTS_REQUEST''
      ''external time stamp request okay'' s)) = (hist s @ [ExttsRequest (index p) True]) @ replicate k ReadEvent"
    using extts_loop_hist [of sys n "ptp_report sys (ExttsRequest (index p) True) ''PTP_EXTTS_REQUEST''
      ''external time stamp request okay'' s"] by auto
  with False show ?thesis by (simp add: do_extts_def Let_def n_def)
qed (simp add: do_extts_def)

lemmas quiet_blocks = blocks_quiet clock_blocks_quiet pins_quiet alarm_blocks_quiet

lemma quiet_filter: "list_all quiet new \<Longrightarrow> filter is_extts new = [] \<and> Close \<notin> set new"
  by (induction new) auto

lemma ptp_blocks_hist:
  assumes "run_steps (ptp_blocks sys p clkid) s = (f, s')"
  obtains new where "hist s' = hist s @ new" "Close \<notin> set new" "f \<noteq> Return 0"
    "filter is_extts new = [] \<or> (\<exists>i. filter is_extts new = [ExttsRequest i True, ExttsRequest i False])"
proof -
  let ?F = "\<lambda>f. f \<noteq> Return 0"
  define before where "before = [do_caps sys p, do_adjfreq sys p clkid, do_adjtime sys p clkid,
    do_gettime sys p clkid, do_settime sys p clkid]"
  define after where "after = [do_pins sys p, do_oneshot sys p clkid, do_periodic sys p clkid,
    do_perout sys p clkid, do_pin sys p, do_pps sys p]"
  have split: "ptp_blocks sys p clkid = before @ do_extts sys p # after"
    by (simp add: ptp_blocks_def before_def after_def)
  have "list_all (does quiet ?F) before" and "list_all (does quiet ?F) after"
    unfolding before_def after_def by (simp_all add: quiet_blocks)
  then have d: "does quiet ?F (run_steps before)" "does quiet ?F (run_steps after)"
    by (simp_all add: run_steps_does)
  obtain f1 s1 where r1: "run_steps before s = (f1, s1)" by (cases "run_steps before s")
  from d(1) r1 obtain n1 where n1: "f1 \<noteq> Return 0" "hist s1 = hist s @ n1" "list_all quiet n1"
    by (rule doesE)
  show thesis
  proof (cases "f1 = Next")
    case False
    then show thesis
      using assms n1 quiet_filter [OF n1(3)] by (intro that [of n1]) (auto simp: split run_steps_append r1)
  next
    case True
    obtain s2 where r2: "do_extts sys p s1 = (Next, s2)"
      using do_extts_hist [of sys p s1] by (metis prod.collapse)
    obtain k where k: "hist s2 = hist s1 @ (if extts p = 0 then [] else
        ExttsRequest (index p) True # replicate k ReadEvent @ [ExttsRequest (index p) False])"
      using do_extts_hist [of sys p s1] r2 by auto
    have r3: "run_steps after s2 = (f, s')"
      using assms by (simp add: split run_steps_append r1 True r2)
    from d(2) r3 obtain n3 where n3: "f \<noteq> Return 0" "hist s' = hist s2 @ n3" "list_all quiet n3"
      by (rule doesE)
    show thesis
      using n1 n3 k quiet_filter [OF n1(3)] quiet_filter [OF n3(3)]
      by (intro that [of "n1 @ (if extts p = 0 then [] else
          ExttsRequest (index p) True # replicate k ReadEvent @ [ExttsRequest (index p) False]) @ n3"]) auto
  qed
qed

lemma do_offset_hist:
  assumes "do_offset sys p s = Some (f, s')"
  obtains new where "hist s' = hist s @ new" "list_all quiet new" "f \<noteq> Return 0" "f \<noteq> Forever"
proof -
  have "\<exists>new. hist s' = hist s @ new \<and> list_all quiet new \<and> f \<noteq> Return 0 \<and> f \<noteq> Forever"
    using assms by (auto simp: do_offset_def Let_def split: if_splits option.splits)
  then show thesis using that by blast
qed

text \<open>
  Whatever the options and the answers of the system: a run that opened the device returns 0
  only after closing it, as its last call, and every other outcome leaves it open; a request for
  external time stamps, granted or not, is followed by the request that turns them off again,
  however the reads end, and by no other.
\<close>

theorem testptp_main_traces:
  assumes "testptp_main sys argv = Some (f, s)"
  shows "(f = Return 0 \<longrightarrow> hist s = [] \<or> (\<exists>h. hist s = h @ [Close] \<and> Close \<notin> set h))
       \<and> (f \<noteq> Return 0 \<longrightarrow> Close \<notin> set (hist s))
       \<and> (filter is_extts (hist s) = []
          \<or> (\<exists>i. filter is_extts (hist s) = [ExttsRequest i True, ExttsRequest i False]))"
proof (cases "ptp_options argv ptp_defaults")
  case None
  then show ?thesis using assms by (simp add: testptp_main_def)
next
  case (Some r)
  show ?thesis
  proof (cases r)
    case (Inl v)
    then show ?thesis using assms Some by (auto simp: testptp_main_def say_def)
  next
    case (Inr p)
    define s0 :: ptp_st where "s0 = \<lparr>hist = [], out = [], ts = None\<rparr>"
    have run: "ptp_run sys p s0 = Some (f, s)"
      using assms Some Inr by (simp add: testptp_main_def s0_def)
    show ?thesis
    proof (cases "rc (ask sys (Open (device p)) s0) < 0")
      case True
      then show ?thesis using run by (auto simp: ptp_run_def Let_def s0_def)
    next
      case False
      define clk where "clk = get_clockid (word_of_int (rc (ask sys (Open (device p)) s0)))"
      obtain f1 s1 where r: "run_steps (ptp_blocks sys p clk) (did (Open (device p)) s0) = (f1, s1)"
        by (cases "run_steps (ptp_blocks sys p clk) (did (Open (device p)) s0)")
      then obtain n1 where n1: "hist s1 = [Open (device p)] @ n1" "Close \<notin> set n1" "f1 \<noteq> Return 0"
        "filter is_extts n1 = [] \<or> (\<exists>i. filter is_extts n1 = [ExttsRequest i True, ExttsRequest i False])"
        by (rule ptp_blocks_hist) (simp add: s0_def)
      have run': "(if f1 \<noteq> Next then Some (f1, s1) else case do_offset sys p s1 of None \<Rightarrow> None
          | Some (g, s2) \<Rightarrow> Some (if g = Next then (Return 0, did Close s2) else (g, s2))) = Some (f, s)"
        using run False r by (simp add: ptp_run_def Let_def get_clockid_valid clk_def)
      show ?thesis
      proof (cases "f1 = Next")
        case False
        then show ?thesis using run' n1 by auto
      next
        case True
        then obtain g s2 where o2: "do_offset sys p s1 = Some (g, s2)"
            and fs: "(f, s) = (if g = Next then (Return 0, did Close s2) else (g, s2))"
          using run' by (auto split: option.splits)
        from o2 obtain n2 where n2: "hist s2 = hist s1 @ n2" "list_all quiet n2" "g \<noteq> Return 0"
          by (rule do_offset_hist)
        show ?thesis using fs n1 n2 quiet_filter [OF n2(2)] by (auto split: if_splits)
      qed
    qed
  qed
qed

text \<open>A device whose calls succeed, with three time stamps for the offset.\<close>

definition sample_ptp :: ptp_sys where
  "sample_ptp h c =
     \<lparr>rc = (case c of Open d \<Rightarrow> 3 | _ \<Rightarrow> 0), a_time = \<lparr>sec = int (length h), nsec = 7\<rparr>, a_index = 1,
      a_caps = \<lparr>max_adj = 100, n_alarm = 0, n_ext_ts = 1, n_per_out = 0, caps_pps = 0, n_pins = 0\<rparr>,
      a_pin = \<lparr>pin_name = [], func = 0, chan = 0\<rparr>,
      a_samples = [\<lparr>sec = 5, nsec = 100\<rparr>, \<lparr>sec = 4, nsec = 200\<rparr>, \<lparr>sec = 5, nsec = 301\<rparr>]\<rparr>"

theorem testptp_main_traces_witness:
  "\<exists>s. testptp_main sample_ptp [(CHR ''e'', ''2''), (CHR ''i'', ''1'')] = Some (Return 0, s)
     \<and> (\<exists>h. hist s = h @ [Close] \<and> Close \<notin> set h)
     \<and> filter is_extts (hist s) = [ExttsRequest 1 True, ExttsRequest 1 False]"
proof -
  let ?r = "testptp_main sample_ptp [(CHR ''e'', ''2''), (CHR ''i'', ''1'')]"
  have "map_option (\<lambda>(f, s). (f, hist s)) ?r =
      Some (Return 0, [Open ''/dev/ptp0'', ExttsRequest 1 True, ReadEvent, ReadEvent, ExttsRequest 1 False, Close])"
    by code_simp
  then obtain s where s: "?r = Some (Return 0, s)"
      "hist s = [Open ''/dev/ptp0'', ExttsRequest 1 True, ReadEvent, ReadEvent, ExttsRequest 1 False, Close]"
    by auto
  then show ?thesis using testptp_main_traces [OF s(1)] by simp
qed


end
