(* ===== verification/Hpet_Example.thy ===== *)
theory Hpet_Example
  imports Io_Trace
begin

text \<open>
  Model of \<open>src/Documentation/timers/hpet_example.c\<close>: the command table and the four
  commands on an HPET device, as steps over the calls of \<open>Io_Trace\<close>.
\<close>

section \<open>Calls and lines\<close>

datatype hpet_call =
    Open string | Close | Info | IrqFreq u64 | Epi | IeOn | GetTimeOfDay | Poll | Read
  | Signal | SignalOld | SetOwn | GetFl | SetFl u32 | Pause

record hpet_info =
  hi_ireqfreq :: u64
  hi_flags :: u64
  hi_hpet :: int
  hi_timer :: int

text \<open>
  An answer: the value (\<open>SIG_ERR\<close> counts as negative), and what the call fills in;
  \<open>a_sigio\<close> is the number of \<open>SIGIO\<close> signals delivered until the call returns.
\<close>

record hpet_ans =
  rc :: int
  a_info :: hpet_info
  a_sec :: u64
  a_usec :: u64
  a_revents :: u16
  a_data :: u64
  a_sigio :: nat

datatype hpet_line =
    Plain string | Named string string | InfoLine hpet_info | Flags string u64
  | Expired u64 | Revents u16 | Data u64 | Count u32

record hpet_st = "(hpet_call, hpet_line) io" +
  hpet_sigio_count :: u32

type_synonym hpet_sys = "(hpet_call, hpet_ans) answers"

text \<open>The handler: a line and one more for each signal.\<close>

fun hpet_sigio :: "nat \<Rightarrow> hpet_st \<Rightarrow> hpet_st" where
  "hpet_sigio 0 s = s"
| "hpet_sigio (Suc n) s =
     hpet_sigio n ((say [Plain ''hpet_sigio: called''] s)\<lparr>hpet_sigio_count := hpet_sigio_count s + 1\<rparr>)"

section \<open>The commands\<close>

definition hpet_open_close :: "hpet_sys \<Rightarrow> string list \<Rightarrow> hpet_st \<Rightarrow> hpet_st" where
  "hpet_open_close sys argv s =
     (if length argv \<noteq> 1 then say [Plain ''hpet_open_close: device-name''] s
      else
        let c = Open (argv ! 0); s1 = did c s in
        if rc (ask sys c s) < 0 then say [Plain ''hpet_open_close: open failed''] s1
        else did Close s1)"

definition hpet_info_cmd :: "hpet_sys \<Rightarrow> string list \<Rightarrow> hpet_st \<Rightarrow> hpet_st" where
  "hpet_info_cmd sys argv s =
     (if length argv \<noteq> 1 then say [Plain ''hpet_info: device-name''] s
      else
        let c = Open (argv ! 0); s1 = did c s in
        if rc (ask sys c s) < 0 then say [Named ''hpet_info: open failed'' (argv ! 0)] s1
        else
          let a = ask sys Info s1; s2 = did Info s1 in
          if rc a < 0 then did Close (say [Plain ''hpet_info: failed to get info''] s2)
          else did Close (say [InfoLine (a_info a)] s2))"

text \<open>
  Setting the frequency and enabling interrupts, the same statements in \<open>hpet_poll\<close> and
  \<open>hpet_fasync\<close>; \<open>False\<close> is their jump to \<open>out\<close>.
\<close>

definition hpet_setup :: "hpet_sys \<Rightarrow> string \<Rightarrow> u64 \<Rightarrow> hpet_st \<Rightarrow> bool \<times> hpet_st" where
  "hpet_setup sys who freq s =
     (let s1 = did (IrqFreq freq) s in
      if rc (ask sys (IrqFreq freq) s) < 0 then (False, say [Named who ''HPET_IRQFREQ failed''] s1)
      else
        let a = ask sys Info s1; s2 = did Info s1 in
        if rc a < 0 then (False, say [Named who ''failed to get info''] s2)
        else
          let s3 = say [Flags who (hi_flags (a_info a))] s2;
              s4 = (if hi_flags (a_info a) \<noteq> 0 then did Epi s3 else s3) in
          if hi_flags (a_info a) \<noteq> 0 \<and> rc (ask sys Epi s3) < 0
          then (False, say [Named who ''HPET_EPI failed''] s4)
          else
            let s5 = did IeOn s4 in
            if rc (ask sys IeOn s4) < 0 then (False, say [Named who ''HPET_IE_ON failed''] s5)
            else (True, s5))"

text \<open>One turn of the loop of \<open>hpet_poll\<close>; times in microseconds, modulo the \<open>long\<close>.\<close>

definition poll_turn :: "hpet_sys \<Rightarrow> hpet_st \<Rightarrow> hpet_st" where
  "poll_turn sys s =
     (let stv = ask sys GetTimeOfDay s; s1 = did GetTimeOfDay s; p = ask sys Poll s1; s2 = did Poll s1 in
      if rc p < 0 then say [Plain ''hpet_poll: poll failed''] s2
      else
        let etv = ask sys GetTimeOfDay s2; s3 = did GetTimeOfDay s2;
            usec = (a_sec etv * 1000000 + a_usec etv) - (a_sec stv * 1000000 + a_usec stv);
            s4 = say [Expired usec, Revents (a_revents p)] s3;
            r = ask sys Read s4; s5 = did Read s4 in
        if rc r \<noteq> 8 then say [Plain ''hpet_poll: read failed''] s5 else say [Data (a_data r)] s5)"

text \<open>\<open>None\<close>: an argument is no \<open>int\<close>.\<close>

definition hpet_poll :: "hpet_sys \<Rightarrow> string list \<Rightarrow> hpet_st \<Rightarrow> hpet_st option" where
  "hpet_poll sys argv s =
     (if length argv \<noteq> 3 then Some (say [Plain ''hpet_poll: device-name freq iterations''] s)
      else case (atoi (argv ! 1), atoi (argv ! 2)) of
        (Some freq, Some iterations) \<Rightarrow>
          let c = Open (argv ! 0); s1 = did c s in
          if rc (ask sys c s) < 0 then Some (say [Named ''hpet_poll: open failed'' (argv ! 0)] s1)
          else
            let (ok, s2) = hpet_setup sys ''hpet_poll'' (word_of_int freq) s1 in
            Some (did Close (if ok then (poll_turn sys ^^ nat iterations) s2 else s2))
      | _ \<Rightarrow> None)"

definition fasync_turn :: "hpet_sys \<Rightarrow> hpet_st \<Rightarrow> hpet_st" where
  "fasync_turn sys s =
     (let s1 = hpet_sigio (a_sigio (ask sys Pause s)) (did Pause s) in say [Count (hpet_sigio_count s1)] s1)"

text \<open>The three \<open>fcntl\<close> calls, joined by a short-circuit or: \<open>True\<close> is a failure.\<close>

definition set_async :: "hpet_sys \<Rightarrow> hpet_st \<Rightarrow> bool \<times> hpet_st" where
  "set_async sys s =
     (let s1 = did SetOwn s in
      if rc (ask sys SetOwn s) = 1 then (True, s1)
      else
        let val = rc (ask sys GetFl s1); s2 = did GetFl s1 in
        if val = 1 then (True, s2)
        else
          let c = SetFl (word_of_int val OR 0x2000) in (rc (ask sys c s2) = 1, did c s2))"

definition hpet_fasync :: "hpet_sys \<Rightarrow> string list \<Rightarrow> hpet_st \<Rightarrow> hpet_st option" where
  "hpet_fasync sys argv s0 =
     (let s = s0\<lparr>hpet_sigio_count := 0\<rparr>; s1 = did Signal s in
      if rc (ask sys Signal s) < 0 then Some (say [Plain ''hpet_fasync: failed to set signal handler''] s1)
      else if length argv \<noteq> 3
      then Some (did SignalOld (say [Plain ''hpet_fasync: device-name freq iterations''] s1))
      else
        let c = Open (argv ! 0); s2 = did c s1 in
        if rc (ask sys c s1) < 0 then Some (say [Named ''hpet_fasync: failed to open'' (argv ! 0)] s2)
        else
          case set_async sys s2 of (failed, s3) \<Rightarrow>
          if failed then Some (did Close (did SignalOld (say [Plain ''hpet_fasync: fcntl failed''] s3)))
          else case (atoi (argv ! 1), atoi (argv ! 2)) of
            (Some freq, Some iterations) \<Rightarrow>
              let (ok, s4) = hpet_setup sys ''hpet_fasync'' (word_of_int freq) s3 in
              Some (did Close (did SignalOld (if ok then (fasync_turn sys ^^ nat iterations) s4 else s4)))
          | _ \<Rightarrow> None)"

section \<open>The program\<close>

definition hpet_command :: "(string \<times> (hpet_sys \<Rightarrow> string list \<Rightarrow> hpet_st \<Rightarrow> hpet_st option)) list" where
  "hpet_command =
     [(''open-close'', \<lambda>sys argv s. Some (hpet_open_close sys argv s)),
      (''info'', \<lambda>sys argv s. Some (hpet_info_cmd sys argv s)),
      (''poll'', hpet_poll), (''fasync'', hpet_fasync)]"

text \<open>\<open>main\<close> without the program name: the value of a command is always 0.\<close>

definition hpet_main :: "hpet_sys \<Rightarrow> string list \<Rightarrow> hpet_st \<Rightarrow> (int \<times> hpet_st) option" where
  "hpet_main sys argv s =
     (case argv of
        [] \<Rightarrow> Some (-1, say [Plain ''-hpet: requires command''] s)
      | cmd # args \<Rightarrow>
          (case map_of hpet_command cmd of
             None \<Rightarrow> Some (-1, say [Named ''do_hpet: command not implemented'' cmd] s)
           | Some func \<Rightarrow> map_option (Pair 0) (func sys args (say [Named ''-hpet: executing'' cmd] s))))"

section \<open>Traces\<close>

text \<open>What a piece of code leaves the history with: a list of calls that open or close nothing.\<close>

fun neutral :: "hpet_call \<Rightarrow> bool" where
  "neutral (Open d) = False"
| "neutral Close = False"
| "neutral Signal = False"
| "neutral SignalOld = False"
| "neutral c = True"

lemma poll_turn_adds: "adds neutral s (poll_turn sys s)"
  by (simp add: adds_def poll_turn_def Let_def)

lemma hpet_sigio_hist [simp]: "hist (hpet_sigio n s) = hist s"
  by (induction n arbitrary: s) simp_all

lemma fasync_turn_adds: "adds neutral s (fasync_turn sys s)"
  by (simp add: adds_def fasync_turn_def Let_def)

lemma hpet_setup_adds: "adds neutral s (snd (hpet_setup sys who freq s))"
  by (simp add: adds_def hpet_setup_def Let_def)

lemma set_async_adds: "adds neutral s (snd (set_async sys s))"
  by (simp add: adds_def set_async_def Let_def)

lemma adds_filter: "adds neutral s t \<Longrightarrow> filter (\<lambda>c. \<not> neutral c) (hist t) = filter (\<lambda>c. \<not> neutral c) (hist s)"
  by (auto simp: adds_def list_all_iff filter_empty_conv)

abbreviation opens :: "hpet_st \<Rightarrow> hpet_call list" where
  "opens s \<equiv> filter (\<lambda>c. \<not> neutral c) (hist s)"

lemma opens_setup_loop:
  assumes "\<And>s. adds neutral s (turn s)" and "hpet_setup sys who freq s = (ok, s1)"
  shows "opens (if ok then (turn ^^ n) s1 else s1) = opens s"
proof -
  have "adds neutral s s1" using hpet_setup_adds [of s sys who freq] assms(2) by simp
  then have "adds neutral s (if ok then (turn ^^ n) s1 else s1)"
    by (auto intro: adds_trans adds_funpow [OF assms(1)])
  then show ?thesis by (rule adds_filter)
qed

lemma opens_poll_cmds:
  "\<lbrakk>length argv = 1; 0 \<le> rc (ask sys (Open (argv ! 0)) s)\<rbrakk> \<Longrightarrow>
     opens (hpet_open_close sys argv s) = opens s @ [Open (argv ! 0), Close]"
  "\<lbrakk>length argv = 1; 0 \<le> rc (ask sys (Open (argv ! 0)) s)\<rbrakk> \<Longrightarrow>
     opens (hpet_info_cmd sys argv s) = opens s @ [Open (argv ! 0), Close]"
  by (simp_all add: hpet_open_close_def hpet_info_cmd_def Let_def)

lemma opens_poll:
  assumes "hpet_poll sys argv s = Some t" "length argv = 3" "0 \<le> rc (ask sys (Open (argv ! 0)) s)"
  shows "opens t = opens s @ [Open (argv ! 0), Close]"
proof -
  obtain freq its ok s1 where h: "hpet_setup sys ''hpet_poll'' freq (did (Open (argv ! 0)) s) = (ok, s1)"
      and t: "t = did Close (if ok then (poll_turn sys ^^ its) s1 else s1)"
    using assms by (auto simp: hpet_poll_def Let_def split: option.splits prod.splits)
  show ?thesis using opens_setup_loop [OF poll_turn_adds h, of its] by (simp add: t)
qed

lemma opens_fasync:
  assumes "hpet_fasync sys argv s = Some t" "length argv = 3" "0 \<le> rc (ask sys Signal s)"
    "0 \<le> rc (sys (hist s @ [Signal]) (Open (argv ! 0)))"
  shows "opens t = opens s @ [Signal, Open (argv ! 0), SignalOld, Close]"
proof -
  define s2 where "s2 = did (Open (argv ! 0)) (did Signal (s\<lparr>hpet_sigio_count := 0\<rparr>))"
  obtain failed s3 where a: "set_async sys s2 = (failed, s3)" by (cases "set_async sys s2")
  have o3: "opens s3 = opens s @ [Signal, Open (argv ! 0)]"
  proof -
    have "adds neutral s2 s3" using set_async_adds [of s2 sys] a by simp
    then show ?thesis by (simp add: adds_filter s2_def)
  qed
  show ?thesis
  proof (cases failed)
    case True
    then show ?thesis
      using assms o3 a by (auto simp: hpet_fasync_def Let_def s2_def [symmetric])
  next
    case False
    then obtain freq its ok s1 where h: "hpet_setup sys ''hpet_fasync'' freq s3 = (ok, s1)"
        and t: "t = did Close (did SignalOld (if ok then (fasync_turn sys ^^ its) s1 else s1))"
      using assms a by (auto simp: hpet_fasync_def Let_def s2_def [symmetric] split: option.splits prod.splits)
    show ?thesis using opens_setup_loop [OF fasync_turn_adds h, of its] o3 by (simp add: t)
  qed
qed

section \<open>The properties\<close>

definition hpet_start :: hpet_st where
  "hpet_start = \<lparr>hist = [], out = [], hpet_sigio_count = 0\<rparr>"

text \<open>The outcomes of a command, by what it opened, closed, installed and restored.\<close>

definition balanced :: "hpet_sys \<Rightarrow> hpet_call list \<Rightarrow> bool" where
  "balanced sys cs \<longleftrightarrow>
     cs \<in> {[], [Signal], [Signal, SignalOld]} \<or>
     (\<exists>d. cs = (if rc (sys [] (Open d)) < 0 then [Open d] else [Open d, Close])) \<or>
     (\<exists>d. cs = (if rc (sys [Signal] (Open d)) < 0 then [Signal, Open d] else [Signal, Open d, SignalOld, Close]))"

lemma balancedI:
  "0 \<le> rc (sys [] (Open d)) \<Longrightarrow> balanced sys [Open d, Close]"
  "0 \<le> rc (sys [Signal] (Open d)) \<Longrightarrow> balanced sys [Signal, Open d, SignalOld, Close]"
proof -
  assume "0 \<le> rc (sys [] (Open d))"
  then have "[Open d, Close] = (if rc (sys [] (Open d)) < 0 then [Open d] else [Open d, Close])" by simp
  then show "balanced sys [Open d, Close]" unfolding balanced_def by blast
next
  assume "0 \<le> rc (sys [Signal] (Open d))"
  then have "[Signal, Open d, SignalOld, Close] =
      (if rc (sys [Signal] (Open d)) < 0 then [Signal, Open d] else [Signal, Open d, SignalOld, Close])" by simp
  then show "balanced sys [Signal, Open d, SignalOld, Close]" unfolding balanced_def by blast
qed

lemma balanced_open_close: "balanced sys (opens (hpet_open_close sys argv (say ls hpet_start)))"
proof (cases "length argv = 1 \<and> 0 \<le> rc (sys [] (Open (argv ! 0)))")
  case True
  then show ?thesis using opens_poll_cmds(1) [of argv sys "say ls hpet_start"]
    by (simp add: balancedI hpet_start_def)
qed (auto simp: hpet_open_close_def Let_def balanced_def hpet_start_def)

lemma balanced_info: "balanced sys (opens (hpet_info_cmd sys argv (say ls hpet_start)))"
proof (cases "length argv = 1 \<and> 0 \<le> rc (sys [] (Open (argv ! 0)))")
  case True
  then show ?thesis using opens_poll_cmds(2) [of argv sys "say ls hpet_start"]
    by (simp add: balancedI hpet_start_def)
qed (auto simp: hpet_info_cmd_def Let_def balanced_def hpet_start_def)

lemma balanced_poll:
  assumes "hpet_poll sys argv (say ls hpet_start) = Some t"
  shows "balanced sys (opens t)"
proof (cases "length argv = 3 \<and> 0 \<le> rc (sys [] (Open (argv ! 0)))")
  case True
  then show ?thesis using opens_poll [OF assms] by (simp add: balancedI hpet_start_def)
next
  case False
  with assms show ?thesis
    by (auto simp: hpet_poll_def Let_def balanced_def hpet_start_def split: option.splits if_splits)
qed

lemma balanced_fasync:
  assumes "hpet_fasync sys argv (say ls hpet_start) = Some t"
  shows "balanced sys (opens t)"
proof (cases "length argv = 3 \<and> 0 \<le> rc (sys [] Signal) \<and> 0 \<le> rc (sys [Signal] (Open (argv ! 0)))")
  case True
  then show ?thesis using opens_fasync [OF assms] by (simp add: balancedI hpet_start_def)
next
  case False
  with assms show ?thesis
    by (auto simp: hpet_fasync_def Let_def balanced_def hpet_start_def split: option.splits if_splits prod.splits)
qed


text \<open>
  A failure of \<open>fcntl\<close>, which is -1, is never noticed, because the code compares with 1:
  with all three calls failing, \<open>fasync\<close> asks for all status flags at once and goes on to set
  up the timer without a message.
\<close>

theorem fcntl_failure_unnoticed:
  assumes "0 \<le> rc (ask sys Signal s)" and "0 \<le> rc (sys (hist s @ [Signal]) (Open dev))"
    and "\<forall>h. rc (sys h SetOwn) = -1 \<and> rc (sys h GetFl) = -1 \<and> (\<forall>fl. rc (sys h (SetFl fl)) = -1)"
    and "atoi f = Some freq" and "atoi n = Some its"
  shows "\<exists>t rest. hpet_fasync sys [dev, f, n] s = Some t \<and>
    hist t = hist s @ [Signal, Open dev, SetOwn, GetFl, SetFl (-1), IrqFreq (word_of_int freq)] @ rest"
proof -
  define s2 where "s2 = did (Open dev) (did Signal (s\<lparr>hpet_sigio_count := 0\<rparr>))"
  define s3 where "s3 = did (SetFl (-1)) (did GetFl (did SetOwn s2))"
  have a: "set_async sys s2 = (False, s3)"
    using assms(3) by (simp add: set_async_def s3_def Let_def)
  obtain ok s4 where b: "hpet_setup sys ''hpet_fasync'' (word_of_int freq) s3 = (ok, s4)"
    by (cases "hpet_setup sys ''hpet_fasync'' (word_of_int freq) s3")
  then obtain rest where r: "hist s4 = hist s3 @ IrqFreq (word_of_int freq) # rest"
    by (auto simp: hpet_setup_def Let_def split: if_splits)
  define s5 where "s5 = (if ok then (fasync_turn sys ^^ nat its) s4 else s4)"
  have "adds neutral s4 s5" unfolding s5_def using adds_funpow [OF fasync_turn_adds] by (simp add: adds_refl)
  then obtain new where n: "hist s5 = hist s4 @ new" by (auto simp: adds_def)
  have "hpet_fasync sys [dev, f, n] s = Some (did Close (did SignalOld s5))"
    using assms a b by (simp add: hpet_fasync_def Let_def s2_def [symmetric] s5_def)
  then show ?thesis
    by (intro exI [of _ "did Close (did SignalOld s5)"] exI [of _ "rest @ new @ [SignalOld, Close]"])
      (simp add: n r s3_def s2_def)
qed

text \<open>A device that opens, whose \<open>fcntl\<close> calls fail and whose other calls succeed.\<close>

definition sample_hpet :: hpet_sys where
  "sample_hpet h c =
     \<lparr>rc = (case c of SetOwn \<Rightarrow> -1 | GetFl \<Rightarrow> -1 | SetFl fl \<Rightarrow> -1 | Read \<Rightarrow> 8 | Open d \<Rightarrow> 3 | _ \<Rightarrow> 0),
      a_info = \<lparr>hi_ireqfreq = 64, hi_flags = 1, hi_hpet = 0, hi_timer = 2\<rparr>, a_sec = of_nat (length h), a_usec = 5,
      a_revents = 1, a_data = 1, a_sigio = 1\<rparr>"


theorem fcntl_failure_unnoticed_witness:
  "\<exists>t rest. hpet_fasync sample_hpet [''/dev/hpet'', ''64'', ''1''] hpet_start = Some t \<and>
    hist t = [Signal, Open ''/dev/hpet'', SetOwn, GetFl, SetFl (-1), IrqFreq 64] @ rest"
proof -
  have "atoi ''64'' = Some 64" "atoi ''1'' = Some 1" by code_simp+
  then show ?thesis
    using fcntl_failure_unnoticed [of sample_hpet hpet_start "''/dev/hpet''" "''64''" 64 "''1''" 1]
    by (simp add: sample_hpet_def hpet_start_def)
qed

end
