(* ===== verification/Dslm.thy ===== *)
theory Dslm
  imports Doc_Prelude
begin

text \<open>
  Model of \<open>src/Documentation/laptops/dslm.c\<close>, which samples the power state of a disk
  every second until \<open>SIGINT\<close> and reports how long the disk spent in each state. The answers
  of the disk, the clock, and the moments at which the signal handler has set \<open>endit\<close> are
  arguments.
\<close>

section \<open>The power state\<close>

text \<open>The first three bytes of \<open>args\<close> after a command.\<close>

record drive_args =
  arg0 :: u8
  arg1 :: u8
  arg2 :: u8

record drive_ans =
  fail1 :: bool
  args1 :: drive_args
  fail2 :: bool
  args2 :: drive_args
  errno :: int

definition EIO :: int where "EIO = 5"

definition check_powermode :: "drive_ans \<Rightarrow> int" where
  "check_powermode a =
     (if fail1 a \<and> fail2 a then
        (if errno a \<noteq> EIO \<or> arg0 (args2 a) \<noteq> 0 \<or> arg1 (args2 a) \<noteq> 0 then -1 else 0)
      else if arg2 (if fail1 a then args2 a else args1 a) = 255 then 1 else 0)"

definition state_name :: "int \<Rightarrow> string" where
  "state_name i =
     (if i = -1 then ''unknown'' else if i = 0 then ''sleeping'' else if i = 1 then ''active''
      else ''internal error'')"

section \<open>The measurement\<close>

text \<open>
  A turn of the loop: the disk's answer, the clock, and whether \<open>endit\<close> is set when the body
  tests it and when the loop tests it.
\<close>

record turn =
  t_ans :: drive_ans
  t_time :: int
  t_seen :: bool
  t_end :: bool

record measuring =
  last_state :: int
  last_time :: int
  curr_time :: int
  active_time :: int
  sleep_time :: int
  unknown_time :: int
  changes :: int
  printed :: "(int \<times> string) list"

definition measure_turn :: "turn \<Rightarrow> measuring \<Rightarrow> measuring" where
  "measure_turn t m =
     (let curr_state = check_powermode (t_ans t) in
      if curr_state \<noteq> last_state m \<or> t_seen t then
        let now = t_time t; time_diff = now - last_time m;
            m1 = m\<lparr>changes := changes m + 1, curr_time := now\<rparr>;
            m2 = (if last_state m = 1 then m1\<lparr>active_time := active_time m1 + time_diff\<rparr>
                  else if last_state m = 0 then m1\<lparr>sleep_time := sleep_time m1 + time_diff\<rparr>
                  else m1\<lparr>unknown_time := unknown_time m1 + time_diff\<rparr>)
        in m2\<lparr>last_state := curr_state, last_time := now, printed := printed m2 @ [(now, state_name curr_state)]\<rparr>
      else m)"

text \<open>The loop; \<open>None\<close> while no turn has ended it.\<close>

fun measure_loop :: "bool \<Rightarrow> turn list \<Rightarrow> measuring \<Rightarrow> measuring option" where
  "measure_loop endit ts m =
     (if endit then Some m
      else case ts of [] \<Rightarrow> None | t # ts' \<Rightarrow> measure_loop (t_end t) ts' (measure_turn t m))"

declare measure_loop.simps [simp del]

text \<open>The report: each time with the total its percentage is taken of.\<close>

record dslm_report =
  r_initial :: string
  r_changes_seen :: "(int \<times> string) list"
  r_running :: int
  r_changes :: int
  r_sleep :: "int \<times> int"
  r_active :: "int \<times> int"
  r_unknown :: "int \<times> int"

definition measure_disk :: "drive_ans \<Rightarrow> int \<Rightarrow> bool \<Rightarrow> turn list \<Rightarrow> int \<Rightarrow> dslm_report option" where
  "measure_disk first start_time endit ts stop =
     (let st = check_powermode first;
          m0 = \<lparr>last_state = st, last_time = start_time, curr_time = 0, active_time = 0, sleep_time = 0,
                unknown_time = 0, changes = 0, printed = []\<rparr>
      in map_option (\<lambda>m.
           let total_time = stop - start_time in
           \<lparr>r_initial = state_name st, r_changes_seen = printed m, r_running = curr_time m - start_time,
            r_changes = changes m - 1, r_sleep = (sleep_time m, total_time),
            r_active = (active_time m, total_time), r_unknown = (unknown_time m, total_time)\<rparr>)
         (measure_loop endit ts m0))"

section \<open>The program\<close>

datatype dslm_result =
    DUsage
  | DCannotOpen
  | DMeasured int "dslm_report option"
  | DUndefined

text \<open>
  \<open>main\<close> without the program name: \<open>DMeasured\<close> carries the seconds slept first. The
  open is taken as failed when it gives descriptor 0; -1 goes on to measure.
\<close>

record dslm_env =
  d_fd :: "string \<Rightarrow> int"
  d_first :: "int \<Rightarrow> drive_ans"
  d_start :: int
  d_endit :: bool
  d_turns :: "int \<Rightarrow> turn list"
  d_stop :: int

definition dslm_measure :: "dslm_env \<Rightarrow> int \<Rightarrow> string \<Rightarrow> dslm_result" where
  "dslm_measure e settle_time disk =
     (let fd = d_fd e disk in
      if fd = 0 then DCannotOpen
      else DMeasured settle_time (measure_disk (d_first e fd) (d_start e) (d_endit e) (d_turns e fd) (d_stop e)))"

definition dslm_main :: "dslm_env \<Rightarrow> string list \<Rightarrow> dslm_result" where
  "dslm_main e argv =
     (if length argv = 1 then dslm_measure e 60 (argv ! 0)
      else if length argv = 3 then
        (case atoi (argv ! 1) of None \<Rightarrow> DUndefined | Some n \<Rightarrow> dslm_measure e n (argv ! 2))
      else DUsage)"

section \<open>Accounting\<close>

lemma check_powermode_range: "check_powermode a \<in> {-1, 0, 1}"
  by (simp add: check_powermode_def)

definition accounted :: "measuring \<Rightarrow> int" where
  "accounted m = active_time m + sleep_time m + unknown_time m"

lemma measure_turn_accounts: "accounted (measure_turn t m) - last_time (measure_turn t m) = accounted m - last_time m"
  by (simp add: measure_turn_def accounted_def Let_def)

lemma measure_turn_simps [simp]:
  "last_state (measure_turn t m) = check_powermode (t_ans t)"
  "changes (measure_turn t m) = changes m + (if check_powermode (t_ans t) \<noteq> last_state m \<or> t_seen t then 1 else 0)"
  by (simp_all add: measure_turn_def Let_def)

lemma measure_turn_seen:
  "t_seen t \<Longrightarrow> curr_time (measure_turn t m) = t_time t \<and> last_time (measure_turn t m) = t_time t"
  by (simp add: measure_turn_def Let_def)

lemma measure_loop_runs:
  "\<forall>t \<in> set ts. \<not> t_end t \<Longrightarrow> measure_loop False (ts @ us) m = measure_loop False us (fold measure_turn ts m)"
  by (induction ts arbitrary: m) (simp_all add: measure_loop.simps [of _ "_ # _"])

lemma fold_turns_accounts: "accounted (fold measure_turn ts m) - last_time (fold measure_turn ts m) = accounted m - last_time m"
  by (induction ts arbitrary: m) (simp_all add: measure_turn_accounts)

text \<open>The changes of state in a sequence of samples.\<close>

fun flips :: "int \<Rightarrow> int list \<Rightarrow> nat" where
  "flips s [] = 0"
| "flips s (x # xs) = (if x \<noteq> s then 1 else 0) + flips x xs"

lemma fold_turns_changes:
  "\<forall>t \<in> set ts. \<not> t_seen t \<Longrightarrow>
     changes (fold measure_turn ts m) = changes m + int (flips (last_state m) (map (check_powermode \<circ> t_ans) ts))"
  by (induction ts arbitrary: m) auto

lemma measure_ends:
  assumes "\<forall>t \<in> set ts. \<not> t_end t" and "t_end t"
  shows "measure_loop False (ts @ t # us) m = Some (measure_turn t (fold measure_turn ts m))"
  using assms measure_loop_runs [of ts "t # us" m]
  by (simp add: measure_loop.simps [of False "_ # _"] measure_loop.simps [of True])

text \<open>
  C37. When \<open>SIGINT\<close> arrives during the sleep or the sampling of a turn, the measurement ends
  with that turn, the times in the three states add up to the running time that is printed, from
  the start to that turn's clock, and the number of changes printed is the number of times the
  sampled state changed before that turn.
\<close>

theorem measure_accounts:
  assumes "\<forall>t \<in> set ts. \<not> t_seen t \<and> \<not> t_end t" and "t_seen t" and "t_end t"
  shows "\<exists>r. measure_disk first start False (ts @ t # us) stop = Some r
     \<and> r_running r = t_time t - start
     \<and> fst (r_sleep r) + fst (r_active r) + fst (r_unknown r) = r_running r
     \<and> r_changes r = int (flips (check_powermode first) (map (check_powermode \<circ> t_ans) ts))"
proof -
  define m0 where "m0 = \<lparr>last_state = check_powermode first, last_time = start, curr_time = 0, active_time = 0,
    sleep_time = 0, unknown_time = 0, changes = 0, printed = []\<rparr>"
  define m where "m = measure_turn t (fold measure_turn ts m0)"
  have run: "measure_loop False (ts @ t # us) m0 = Some m"
    unfolding m_def using assms by (intro measure_ends) auto
  have acc: "accounted m = last_time m - start"
    using measure_turn_accounts [of t "fold measure_turn ts m0"] fold_turns_accounts [of ts m0]
    by (simp add: m_def [symmetric]) (simp add: m0_def accounted_def)
  have "curr_time m = t_time t" "last_time m = t_time t"
    unfolding m_def using measure_turn_seen [OF assms(2)] by simp_all
  moreover have "changes m = int (flips (check_powermode first) (map (check_powermode \<circ> t_ans) ts)) + 1"
    using fold_turns_changes [of ts m0] assms by (simp add: m_def m0_def)
  ultimately show ?thesis
    using run acc by (simp add: measure_disk_def Let_def m0_def [symmetric] accounted_def)
qed

text \<open>A disk that is active, then sleeps for a turn.\<close>

definition sample_drive :: "u8 \<Rightarrow> drive_ans" where
  "sample_drive v = \<lparr>fail1 = False, args1 = \<lparr>arg0 = 0, arg1 = 0, arg2 = v\<rparr>, fail2 = False,
     args2 = \<lparr>arg0 = 0, arg1 = 0, arg2 = 0\<rparr>, errno = 0\<rparr>"

theorem measure_accounts_witness:
  "\<exists>r. measure_disk (sample_drive 255) 100 False
       [\<lparr>t_ans = sample_drive 255, t_time = 101, t_seen = False, t_end = False\<rparr>,
        \<lparr>t_ans = sample_drive 0, t_time = 102, t_seen = False, t_end = False\<rparr>,
        \<lparr>t_ans = sample_drive 0, t_time = 105, t_seen = True, t_end = True\<rparr>] 105 = Some r
     \<and> r_running r = 5 \<and> r_changes r = 1 \<and> fst (r_sleep r) + fst (r_active r) + fst (r_unknown r) = 5"
  using measure_accounts [of "[\<lparr>t_ans = sample_drive 255, t_time = 101, t_seen = False, t_end = False\<rparr>,
        \<lparr>t_ans = sample_drive 0, t_time = 102, t_seen = False, t_end = False\<rparr>]"
      "\<lparr>t_ans = sample_drive 0, t_time = 105, t_seen = True, t_end = True\<rparr>" "sample_drive 255" 100 "[]" 105]
  by (auto simp: check_powermode_def sample_drive_def)

text \<open>
  An interrupt before the first turn: nothing was measured, and the running time that is printed
  is counted from the clock's zero, the number of changes is -1.
\<close>

lemma interrupted_at_once:
  "measure_disk first start True ts stop =
     Some \<lparr>r_initial = state_name (check_powermode first), r_changes_seen = [], r_running = - start, r_changes = -1,
           r_sleep = (0, stop - start), r_active = (0, stop - start), r_unknown = (0, stop - start)\<rparr>"
  by (simp add: measure_disk_def measure_loop.simps Let_def)

text \<open>A disk that cannot be opened is measured all the same.\<close>

lemma unopened_measured:
  "d_fd e disk = -1 \<Longrightarrow> dslm_main e [disk] =
     DMeasured 60 (measure_disk (d_first e (-1)) (d_start e) (d_endit e) (d_turns e (-1)) (d_stop e))"
  by (simp add: dslm_main_def dslm_measure_def Let_def)

end
