(* ===== verification/Freefall.thy ===== *)
theory Freefall
  imports Doc_Prelude
begin

text \<open>
  Model of \<open>src/Documentation/laptops/freefall.c\<close>, the daemon that parks the heads of a
  disk when the laptop falls. The attribute files it writes are a map from paths to their last
  text; the events it waits for (a fall, its own alarm, a read error) drive a step relation.
\<close>

section \<open>State\<close>

datatype ff_status = Running | Exited int

record freefall =
  unload_heads_path :: string
  device_path :: string
  noled :: bool
  files :: "string \<rightharpoonup> string"
  alarm :: "nat option"
  syslog :: "(string \<times> string) list"
  status :: ff_status

definition led_path :: string where
  "led_path = ''/sys/class/leds/hp::hddprotect/brightness''"

section \<open>Operations\<close>

text \<open>\<open>-EINVAL\<close> is -22; the buffers hold 32 and 64 bytes and end in a zero byte.\<close>

definition set_unload_heads_path :: "string \<Rightarrow> freefall \<Rightarrow> int \<times> freefall" where
  "set_unload_heads_path device s =
     (if length device \<le> 5 \<or> take 5 device \<noteq> ''/dev/'' then (-22, s)
      else (0, s\<lparr>device_path := take 31 device,
                 unload_heads_path := take 62 (''/sys/block/'' @ drop 5 device @ ''/device/unload_heads'')\<rparr>))"

text \<open>A failed open or write ends the program; \<open>ok\<close> is the answer of the system.\<close>

definition write_int :: "bool \<Rightarrow> string \<Rightarrow> int \<Rightarrow> freefall \<Rightarrow> freefall" where
  "write_int ok path i s =
     (if status s \<noteq> Running then s
      else if \<not> ok then s\<lparr>status := Exited 1\<rparr>
      else s\<lparr>files := (files s)(path \<mapsto> show_int i)\<rparr>)"

definition set_led :: "bool \<Rightarrow> int \<Rightarrow> freefall \<Rightarrow> freefall" where
  "set_led ok on s = (if noled s then s else write_int ok led_path on s)"

definition protect :: "bool \<Rightarrow> int \<Rightarrow> freefall \<Rightarrow> freefall" where
  "protect ok seconds s =
     (let s1 = write_int ok (unload_heads_path s) (seconds * 1000) s in
      if status s1 \<noteq> Running then s1
      else s1\<lparr>syslog := syslog s1 @ [(if seconds = 0 then ''Unparked'' else ''Parked'', device_path s1)]\<rparr>)"

definition set_alarm :: "nat \<Rightarrow> freefall \<Rightarrow> freefall" where
  "set_alarm n s = (if status s \<noteq> Running then s else s\<lparr>alarm := (if n = 0 then None else Some n)\<rparr>)"

text \<open>The handler; the alarm is spent when it runs.\<close>

definition ignore_me :: "bool \<Rightarrow> bool \<Rightarrow> freefall \<Rightarrow> freefall" where
  "ignore_me ok1 ok2 s = set_led ok2 0 (protect ok1 0 (s\<lparr>alarm := None\<rparr>))"

definition on_ac :: int where "on_ac = 1"
definition lid_open :: int where "lid_open = 1"

text \<open>A turn of the loop in which the read gave a byte.\<close>

definition on_fall :: "bool \<Rightarrow> bool \<Rightarrow> freefall \<Rightarrow> freefall" where
  "on_fall ok1 ok2 s =
     (let s1 = set_led ok2 1 (protect ok1 21 (set_alarm 0 s)) in
      if True \<or> on_ac \<noteq> 0 \<or> lid_open \<noteq> 0 then set_alarm 2 s1 else set_alarm 20 s1)"

definition read_error :: "freefall \<Rightarrow> freefall" where
  "read_error s = (set_alarm 0 s)\<lparr>status := Exited 0\<rparr>"

text \<open>
  The steps of the running daemon. The alarm interrupts the read, which then either is restarted
  or gives \<open>EINTR\<close>, or it comes between a read and \<open>alarm(0)\<close>; it is the only signal
  with a handler.
\<close>

inductive ff_step :: "freefall \<Rightarrow> freefall \<Rightarrow> bool" where
  fall: "status s = Running \<Longrightarrow> ff_step s (on_fall ok1 ok2 s)"
| alarm_restart: "status s = Running \<Longrightarrow> alarm s \<noteq> None \<Longrightarrow> ff_step s (ignore_me ok1 ok2 s)"
| alarm_eintr: "status s = Running \<Longrightarrow> alarm s \<noteq> None \<Longrightarrow> ff_step s (set_alarm 0 (ignore_me ok1 ok2 s))"
| alarm_late: "status s = Running \<Longrightarrow> alarm s \<noteq> None \<Longrightarrow> status (ignore_me ok1 ok2 s) = Running \<Longrightarrow>
    ff_step s (on_fall ok3 ok4 (ignore_me ok1 ok2 s))"
| failed: "status s = Running \<Longrightarrow> ff_step s (read_error s)"

section \<open>The program\<close>

record ff_env =
  f_disk :: "string \<Rightarrow> bool"
  f_freefall :: bool
  f_led :: bool
  f_daemon :: bool

definition valid_disk :: "ff_env \<Rightarrow> freefall \<Rightarrow> int" where
  "valid_disk e s = (if \<not> f_disk e (unload_heads_path s) then 0 else 1)"

text \<open>\<open>main\<close> up to the loop: the state the loop starts in, or the value of the program.\<close>

definition ff_initial :: freefall where
  "ff_initial = \<lparr>unload_heads_path = [], device_path = [], noled = False, files = Map.empty, alarm = None,
     syslog = [], status = Running\<rparr>"

definition freefall_main :: "ff_env \<Rightarrow> string list \<Rightarrow> int + freefall" where
  "freefall_main e argv =
     (let (ret, s) = (case argv of
          [] \<Rightarrow> set_unload_heads_path ''/dev/sda'' ff_initial
        | [d] \<Rightarrow> set_unload_heads_path d ff_initial
        | _ \<Rightarrow> (-22, ff_initial)) in
      if ret \<noteq> 0 \<or> valid_disk e s = 0 then Inl 1
      else if \<not> f_freefall e then Inl 1
      else if \<not> f_daemon e then Inl 1
      else Inr (s\<lparr>noled := \<not> f_led e\<rparr>))"

section \<open>Heads and alarm\<close>

inductive ff_run :: "freefall \<Rightarrow> freefall \<Rightarrow> bool" where
  ff_refl: "ff_run s s"
| ff_next: "ff_run s t \<Longrightarrow> ff_step t u \<Longrightarrow> ff_run s u"

inductive_cases ff_stepE: "ff_step s t"

definition parked :: "freefall \<Rightarrow> bool" where
  "parked s \<longleftrightarrow> files s (unload_heads_path s) = Some (show_int 21000)"

definition led_on :: "freefall \<Rightarrow> bool" where
  "led_on s \<longleftrightarrow> files s led_path = Some (show_int 1)"

text \<open>
  The invariant: heads are parked exactly while an alarm is pending, and so is the light on, if
  there is one. The path of the heads is that of a disk, never that of the light.
\<close>

definition ff_inv :: "freefall \<Rightarrow> bool" where
  "ff_inv s \<longleftrightarrow> unload_heads_path s \<noteq> led_path \<and> alarm s \<in> {None, Some 2} \<and>
     (status s = Running \<longrightarrow> (parked s \<longleftrightarrow> alarm s \<noteq> None) \<and> (noled s \<or> (led_on s \<longleftrightarrow> alarm s \<noteq> None)))"

lemma ff_texts [simp]: "show_int 0 \<noteq> show_int 21000" "show_int 0 \<noteq> show_int 1"
  by (simp_all add: show_int_def show_nat_inject)

lemmas ff_ops = write_int_def set_led_def protect_def set_alarm_def ignore_me_def on_fall_def read_error_def

lemma on_fall_inv: "unload_heads_path s \<noteq> led_path \<Longrightarrow> alarm s \<in> {None, Some 2} \<Longrightarrow> ff_inv (on_fall ok1 ok2 s)"
  by (auto simp: ff_inv_def ff_ops parked_def led_on_def Let_def split: if_splits)

lemma ignore_me_inv: "unload_heads_path s \<noteq> led_path \<Longrightarrow> ff_inv (ignore_me ok1 ok2 s)"
  by (auto simp: ff_inv_def ff_ops parked_def led_on_def Let_def split: if_splits)

lemma ff_inv_alarm: "ff_inv s \<Longrightarrow> alarm s = None \<Longrightarrow> ff_inv (set_alarm 0 s)"
  by (auto simp: ff_inv_def set_alarm_def parked_def led_on_def)

lemma ignore_me_alarm [simp]: "alarm (ignore_me ok1 ok2 s) = None"
  by (simp add: ff_ops Let_def)

lemma ff_step_inv:
  assumes "ff_step s t" and "ff_inv s"
  shows "ff_inv t"
  using assms
proof (cases rule: ff_step.cases)
  case (alarm_late ok1 ok2 ok3 ok4)
  then show ?thesis
    using assms(2) on_fall_inv ignore_me_inv [of s ok1 ok2] by (auto simp: ff_inv_def)
qed (use assms(2) on_fall_inv ignore_me_inv ff_inv_alarm [OF ignore_me_inv] in
      \<open>auto simp: ff_inv_def read_error_def set_alarm_def parked_def led_on_def\<close>)

lemma heads_path_not_led:
  assumes "set_unload_heads_path d s = (0, t)"
  shows "unload_heads_path t \<noteq> led_path"
proof -
  have "unload_heads_path t ! 5 = CHR ''b''"
    using assms by (auto simp: set_unload_heads_path_def split: if_splits)
  moreover have "led_path ! 5 = CHR ''c''" by (simp add: led_path_def)
  ultimately show ?thesis by auto
qed

lemma freefall_main_start:
  assumes "freefall_main e argv = Inr s"
  obtains d t where "argv = [] \<and> d = ''/dev/sda'' \<or> argv = [d]" "set_unload_heads_path d ff_initial = (0, t)"
    "s = t\<lparr>noled := \<not> f_led e\<rparr>" "f_disk e (unload_heads_path t)"
  using assms by (auto simp: freefall_main_def valid_disk_def Let_def split: list.splits prod.splits if_splits)

lemma start_inv:
  assumes "freefall_main e argv = Inr s"
  shows "ff_inv s \<and> noled s = (\<not> f_led e)"
proof -
  from assms obtain d t where t: "set_unload_heads_path d ff_initial = (0, t)" "s = t\<lparr>noled := \<not> f_led e\<rparr>"
    by (rule freefall_main_start)
  moreover have "status t = Running \<and> alarm t = None \<and> files t = Map.empty"
    using t(1) by (auto simp: set_unload_heads_path_def ff_initial_def split: if_splits)
  ultimately show ?thesis
    using heads_path_not_led [OF t(1)] by (simp add: ff_inv_def parked_def led_on_def)
qed

lemma ff_run_inv: "ff_run s t \<Longrightarrow> ff_inv s \<Longrightarrow> ff_inv t"
  by (induction rule: ff_run.induct) (auto intro: ff_step_inv)

lemma write_int_noled: "noled (write_int ok p i s) = noled s"
  by (simp add: write_int_def)

lemma ops_noled:
  "noled (set_led ok i s) = noled s" "noled (protect ok i s) = noled s" "noled (set_alarm n s) = noled s"
  by (simp_all add: set_led_def protect_def set_alarm_def Let_def write_int_noled)

lemma ff_step_noled: "ff_step s t \<Longrightarrow> noled t = noled s"
  by (erule ff_stepE) (simp_all add: ignore_me_def on_fall_def read_error_def ops_noled Let_def)

lemma ff_run_noled: "ff_run s t \<Longrightarrow> noled t = noled s"
  by (induction rule: ff_run.induct) (auto dest: ff_step_noled)

text \<open>The path of a disk with a name of up to 31 characters is complete.\<close>

lemma heads_path_complete:
  assumes "name \<noteq> []" and "length name \<le> 31"
  shows "set_unload_heads_path (''/dev/'' @ name) s =
    (0, s\<lparr>device_path := take 31 (''/dev/'' @ name),
          unload_heads_path := ''/sys/block/'' @ name @ ''/device/unload_heads''\<rparr>)"
  using assms by (simp add: set_unload_heads_path_def)

text \<open>
  C12. In every state the running daemon reaches, the heads of the disk are parked (21000 was
  written last to its attribute) exactly while an alarm of two seconds is pending, and where the
  laptop has the light, it is on exactly then: heads are never left parked with nothing to unpark
  them. When the alarm comes and the attributes can be written, its handler unparks the heads
  and turns the light off.
\<close>

theorem heads_parked_while_alarm:
  assumes "freefall_main e argv = Inr s0" and "ff_run s0 s" and "status s = Running"
  shows "(parked s \<longleftrightarrow> alarm s = Some 2) \<and> (f_led e \<longrightarrow> (led_on s \<longleftrightarrow> alarm s = Some 2))
    \<and> (parked s \<longrightarrow> ff_step s (ignore_me True True s))
    \<and> \<not> parked (ignore_me True True s) \<and> status (ignore_me True True s) = Running
    \<and> (f_led e \<longrightarrow> \<not> led_on (ignore_me True True s))"
proof -
  have inv: "ff_inv s" using ff_run_inv [OF assms(2)] start_inv [OF assms(1)] by simp
  have nl: "noled s = (\<not> f_led e)" using ff_run_noled [OF assms(2)] start_inv [OF assms(1)] by simp
  have inv': "ff_inv (ignore_me True True s)" using inv by (intro ignore_me_inv) (simp add: ff_inv_def)
  have run: "status (ignore_me True True s) = Running" "noled (ignore_me True True s) = noled s"
    using assms(3) by (simp_all add: ff_ops Let_def)
  show ?thesis
    using inv inv' run nl assms(3) alarm_restart [of s True True] by (auto simp: ff_inv_def)
qed

theorem heads_parked_while_alarm_witness:
  "(let e = \<lparr>f_disk = (\<lambda>p. p = ''/sys/block/sda/device/unload_heads''), f_freefall = True, f_led = True, f_daemon = True\<rparr> in
    \<exists>s0 s. freefall_main e [] = Inr s0 \<and> ff_run s0 s \<and> parked s \<and> led_on s \<and> \<not> parked (ignore_me True True s))"
proof -
  define e where "e = \<lparr>f_disk = (\<lambda>p. p = ''/sys/block/sda/device/unload_heads''), f_freefall = True, f_led = True,
    f_daemon = True\<rparr>"
  define s0 where "s0 = ff_initial\<lparr>device_path := ''/dev/sda'',
    unload_heads_path := ''/sys/block/sda/device/unload_heads'', noled := False\<rparr>"
  define s where "s = on_fall True True s0"
  have m: "freefall_main e [] = Inr s0"
    by (simp add: freefall_main_def valid_disk_def set_unload_heads_path_def e_def s0_def)
  have r: "ff_run s0 s"
    unfolding s_def by (rule ff_next [OF ff_refl fall]) (simp add: s0_def ff_initial_def)
  have "status s = Running" "alarm s = Some 2" by (simp_all add: s_def s0_def ff_initial_def ff_ops Let_def)
  then show ?thesis
    using heads_parked_while_alarm [OF m r] m r unfolding e_def by (auto simp: Let_def)
qed

end
