(* ===== verification/Ucon.thy ===== *)
theory Ucon
  imports Doc_Prelude
begin

text \<open>
  Model of \<open>src/Documentation/connector/ucon.c\<close>, which sends messages to, or prints
  messages from, a user of the netlink connector. Messages are byte lists in little-endian order
  with the layout of \<open>struct nlmsghdr\<close> (16 bytes) and of \<open>struct cn_msg\<close>, as
  \<open>src/Documentation/connector/connector.txt\<close> gives it (20 bytes and the data). The number
  of connector users, a constant of the kernel header, is an argument.
\<close>

section \<open>Messages\<close>

record cn_msg =
  idx :: u32
  val :: u32
  cn_seq :: u32
  ack :: u32
  payload :: "u8 list"

definition NLMSG_DONE :: u16 where "NLMSG_DONE = 3"
definition NLMSG_ERROR :: u16 where "NLMSG_ERROR = 2"
definition CN_TEST_VAL :: u32 where "CN_TEST_VAL = 0x456"
definition CN_TEST_IDX :: "u32 \<Rightarrow> u32" where "CN_TEST_IDX users = users + 3"

definition NLMSG_SPACE :: "nat \<Rightarrow> nat" where "NLMSG_SPACE n = (16 + n + 3) div 4 * 4"

definition cn_bytes :: "cn_msg \<Rightarrow> u8 list" where
  "cn_bytes m = le_bytes 4 (idx m) @ le_bytes 4 (val m) @ le_bytes 4 (cn_seq m) @ le_bytes 4 (ack m)
     @ le_bytes 4 (of_nat (length (payload m)) :: u32) @ payload m"

text \<open>
  \<open>netlink_send\<close>: the bytes passed to \<open>send\<close>, from a buffer of 128 bytes with
  arbitrary contents, and the next sequence number; \<open>None\<close> when the message does not fit.
\<close>

definition netlink_send :: "u32 \<Rightarrow> u8 list \<Rightarrow> cn_msg \<Rightarrow> u32 \<Rightarrow> (u8 list \<times> u32) option" where
  "netlink_send pid junk msg seq =
     (let sz = NLMSG_SPACE (20 + length (payload msg));
          buf = le_bytes 4 (of_nat sz :: u32) @ le_bytes 2 NLMSG_DONE @ le_bytes 2 (0 :: u16) @ le_bytes 4 seq
                @ le_bytes 4 pid @ cn_bytes msg
      in if 128 < sz then None else Some (take sz (buf @ drop (length buf) junk), seq + 1))"

section \<open>Sending\<close>

text \<open>\<open>n\<close> sends of the same message; the values of \<open>send\<close> are not looked at.\<close>

fun send_many :: "u32 \<Rightarrow> u8 list \<Rightarrow> cn_msg \<Rightarrow> nat \<Rightarrow> u32 \<Rightarrow> (u8 list list \<times> u32) option" where
  "send_many pid junk msg 0 seq = Some ([], seq)"
| "send_many pid junk msg (Suc n) seq =
     (case netlink_send pid junk msg seq of
        None \<Rightarrow> None
      | Some (b, seq1) \<Rightarrow>
          (case send_many pid junk msg n seq1 of None \<Rightarrow> None | Some (bs, seq2) \<Rightarrow> Some (b # bs, seq2)))"

datatype ucon_line = Subscribing u32 u32 | Sent nat u32 u32 | Usage | Perror string | CannotOpen string
  | ErrorMessage | Message string u32 u32 u32 u32

text \<open>The rounds of the outer loop.\<close>

fun send_rounds :: "u32 \<Rightarrow> u8 list \<Rightarrow> cn_msg \<Rightarrow> nat \<Rightarrow> nat \<Rightarrow> u32 \<Rightarrow> (u8 list list \<times> ucon_line list) option" where
  "send_rounds pid junk msg per 0 seq = Some ([], [])"
| "send_rounds pid junk msg per (Suc j) seq =
     (case send_many pid junk msg per seq of
        None \<Rightarrow> None
      | Some (bs, seq1) \<Rightarrow>
          (case send_rounds pid junk msg per j seq1 of
             None \<Rightarrow> None
           | Some (cs, ls) \<Rightarrow> Some (bs @ cs, Sent per (idx msg) (val msg) # ls)))"

definition test_msg :: "u32 \<Rightarrow> u32 \<Rightarrow> cn_msg" where
  "test_msg users s = \<lparr>idx = CN_TEST_IDX users, val = CN_TEST_VAL, cn_seq = s, ack = 0, payload = []\<rparr>"

section \<open>Receiving\<close>

datatype ucon_event = Timeout | PollEintr | PollFailed | RecvFailed | Received "u8 list" string

text \<open>What a received message prints; the buffer of 1024 bytes was zeroed before.\<close>

definition reply_lines :: "u8 list \<Rightarrow> string \<Rightarrow> ucon_line list option" where
  "reply_lines bytes tm =
     (let buf = take 1024 bytes @ replicate (1024 - length bytes) 0 in
      case rd_word buf 4 2 of
        None \<Rightarrow> None
      | Some ty \<Rightarrow>
          if ty = ucast NLMSG_ERROR then Some [ErrorMessage]
          else if ty = ucast NLMSG_DONE then
            (case (rd_word buf 16 4, rd_word buf 20 4, rd_word buf 24 4, rd_word buf 28 4) of
               (Some i, Some v, Some s, Some a) \<Rightarrow> Some [Message (take 24 tm) i v s a]
             | _ \<Rightarrow> None)
          else Some [])"

text \<open>The loop; \<open>None\<close> while it waits for an event after the last one given.\<close>

fun recv_loop :: "ucon_event list \<Rightarrow> (int \<times> ucon_line list) option" where
  "recv_loop [] = None"
| "recv_loop (Timeout # es) = Some (0, [])"
| "recv_loop (PollFailed # es) = Some (0, [])"
| "recv_loop (PollEintr # es) = recv_loop es"
| "recv_loop (RecvFailed # es) = Some (-1, [Perror ''recv buf''])"
| "recv_loop (Received b tm # es) =
     (case (reply_lines b tm, recv_loop es) of
        (Some ls, Some (r, ls')) \<Rightarrow> Some (r, ls @ ls')
      | _ \<Rightarrow> None)"

section \<open>The program\<close>

record ucon_env =
  u_users :: u32
  u_pid :: u32
  u_junk :: "u8 list"
  u_fopen :: "string \<Rightarrow> bool"
  u_socket :: bool
  u_bind :: bool
  u_events :: "ucon_event list"

text \<open>
  The options as \<open>getopt\<close> gives them and the remaining arguments. The result: the value, the
  messages sent, the lines printed.
\<close>

definition ucon_run :: "ucon_env \<Rightarrow> bool \<Rightarrow> (int \<times> u8 list list \<times> ucon_line list) option" where
  "ucon_run e send_msgs =
     (if \<not> u_socket e then Some (-1, [], [Perror ''socket''])
      else
        let l0 = [Subscribing (CN_TEST_IDX (u_users e)) CN_TEST_VAL] in
        if \<not> u_bind e then Some (-1, [], l0 @ [Perror ''bind''])
        else if send_msgs then
          map_option (\<lambda>(bs, ls). (0, bs, l0 @ ls))
            (send_rounds (u_pid e) (u_junk e) (test_msg (u_users e) 0) 1000 10 1)
        else map_option (\<lambda>(r, ls). (r, [], l0 @ ls)) (recv_loop (u_events e)))"

fun ucon_options :: "char list \<Rightarrow> bool \<Rightarrow> int + bool" where
  "ucon_options [] send_msgs = Inr send_msgs"
| "ucon_options (c # cs) send_msgs =
     (if c = CHR ''s'' then ucon_options cs True else if c = CHR ''h'' then Inl 0 else Inl 1)"

definition ucon_main :: "ucon_env \<Rightarrow> char list \<Rightarrow> string list \<Rightarrow> string \<Rightarrow> (int \<times> u8 list list \<times> ucon_line list) option" where
  "ucon_main e copts rest argv1 =
     (case ucon_options copts False of
        Inl r \<Rightarrow> Some (r, [], [Usage])
      | Inr send_msgs \<Rightarrow>
          let l0 = (case rest of f # _ \<Rightarrow> if u_fopen e f then [] else [CannotOpen argv1] | [] \<Rightarrow> []) in
          map_option (\<lambda>(r, bs, ls). (r, bs, l0 @ ls)) (ucon_run e send_msgs))"

section \<open>What is sent is what is printed\<close>

lemma cn_bytes_length: "length (cn_bytes m) = 20 + length (payload m)"
  by (simp add: cn_bytes_def)

lemma NLMSG_SPACE_bounds: "16 + n \<le> NLMSG_SPACE n" "NLMSG_SPACE n < 16 + n + 4"
  by (simp_all add: NLMSG_SPACE_def)

lemma netlink_send_fits:
  assumes "length (payload msg) \<le> 92" and "length junk = 128"
  obtains tail where "netlink_send pid junk msg seq =
    Some (le_bytes 4 (of_nat (NLMSG_SPACE (20 + length (payload msg))) :: u32) @ le_bytes 2 NLMSG_DONE
      @ le_bytes 2 (0 :: u16) @ le_bytes 4 seq @ le_bytes 4 pid @ cn_bytes msg @ tail, seq + 1)"
    "length tail < 4" "36 + length (payload msg) + length tail = NLMSG_SPACE (20 + length (payload msg))"
proof -
  define sz where "sz = NLMSG_SPACE (20 + length (payload msg))"
  define buf where "buf = le_bytes 4 (of_nat sz :: u32) @ le_bytes 2 NLMSG_DONE @ le_bytes 2 (0 :: u16)
    @ le_bytes 4 seq @ le_bytes 4 pid @ cn_bytes msg"
  have len: "length buf = 36 + length (payload msg)" by (simp add: buf_def cn_bytes_length)
  have sz: "length buf \<le> sz" "sz < length buf + 4" "sz \<le> 128"
    using NLMSG_SPACE_bounds [of "20 + length (payload msg)"] assms(1) len
    by (simp_all add: sz_def NLMSG_SPACE_def)
  have "netlink_send pid junk msg seq = Some (take sz (buf @ drop (length buf) junk), seq + 1)"
    using sz by (simp add: netlink_send_def Let_def sz_def [symmetric] buf_def [symmetric])
  also have "take sz (buf @ drop (length buf) junk) = buf @ take (sz - length buf) (drop (length buf) junk)"
    using sz by simp
  finally have eq: "netlink_send pid junk msg seq =
      Some (buf @ take (sz - length buf) (drop (length buf) junk), seq + 1)" .
  show thesis
  proof (rule that [of "take (sz - length buf) (drop (length buf) junk)"])
    show "length (take (sz - length buf) (drop (length buf) junk)) < 4" using sz by simp
    show "36 + length (payload msg) + length (take (sz - length buf) (drop (length buf) junk))
        = NLMSG_SPACE (20 + length (payload msg))"
      using sz assms(2) len by (simp add: sz_def [symmetric])
  qed (use eq in \<open>simp add: buf_def sz_def\<close>)
qed

text \<open>Any netlink message of the right type that carries a connector message is printed as it.\<close>

lemma reply_lines_msg:
  assumes "length hdr = 16" and "take 2 (drop 4 hdr) = le_bytes 2 NLMSG_DONE"
    and "length (hdr @ cn_bytes msg @ tail) \<le> 1024"
  shows "reply_lines (hdr @ cn_bytes msg @ tail) tm =
    Some [Message (take 24 tm) (idx msg) (val msg) (cn_seq msg) (ack msg)]"
proof -
  define b where "b = hdr @ cn_bytes msg @ tail"
  define buf where "buf = take 1024 b @ replicate (1024 - length b) 0"
  have buf: "buf = b @ replicate (1024 - length b) 0" using assms(3) by (simp add: buf_def b_def)
  have "rd_word buf 4 2 = Some (of_le (le_bytes 2 NLMSG_DONE))"
    using assms(1,2) by (simp add: rd_word_def rd_bytes_def buf b_def)
  then have ty: "rd_word buf 4 2 = Some (ucast NLMSG_DONE)" by (simp add: of_le_u16)
  let ?i = "le_bytes 4 (idx msg)" and ?v = "le_bytes 4 (val msg)" and ?q = "le_bytes 4 (cn_seq msg)"
  have word: "of_le (le_bytes 4 w) = w" for w :: u32
    using take_bit_length_eq [of w] by (simp add: of_le_le_bytes)
  have "rd_word buf 16 4 = Some (idx msg)"
    using rd_word_mid [of hdr 16 ?i 4] assms(1) by (simp add: buf b_def cn_bytes_def word)
  moreover have "rd_word buf 20 4 = Some (val msg)"
    using rd_word_mid [of "hdr @ ?i" 20 ?v 4] assms(1) by (simp add: buf b_def cn_bytes_def word)
  moreover have "rd_word buf 24 4 = Some (cn_seq msg)"
    using rd_word_mid [of "hdr @ ?i @ ?v" 24 ?q 4] assms(1) by (simp add: buf b_def cn_bytes_def word)
  moreover have "rd_word buf 28 4 = Some (ack msg)"
    using rd_word_mid [of "hdr @ ?i @ ?v @ ?q" 28 "le_bytes 4 (ack msg)" 4] assms(1)
    by (simp add: buf b_def cn_bytes_def word)
  ultimately show ?thesis
    using ty by (simp add: reply_lines_def Let_def buf_def [symmetric] b_def [symmetric] NLMSG_DONE_def NLMSG_ERROR_def)
qed

text \<open>
  C35. A message that fits the buffer and is received as it was sent is printed with the
  identifier, the sequence number and the acknowledgement it was given, whatever the sender's
  buffer held and whatever its data.
\<close>

theorem ucon_message_printed:
  assumes "length (payload msg) \<le> 92" and "length junk = 128"
  shows "\<exists>b. netlink_send pid junk msg seq = Some (b, seq + 1) \<and> length b = NLMSG_SPACE (20 + length (payload msg))
    \<and> recv_loop (Received b tm # Timeout # es) = Some (0, [Message (take 24 tm) (idx msg) (val msg) (cn_seq msg) (ack msg)])"
proof -
  define sz where "sz = NLMSG_SPACE (20 + length (payload msg))"
  from netlink_send_fits [OF assms, of pid seq] obtain tail where
    s: "netlink_send pid junk msg seq = Some (le_bytes 4 (of_nat sz :: u32) @ le_bytes 2 NLMSG_DONE
      @ le_bytes 2 (0 :: u16) @ le_bytes 4 seq @ le_bytes 4 pid @ cn_bytes msg @ tail, seq + 1)"
    and t: "length tail < 4" "36 + length (payload msg) + length tail = sz"
    unfolding sz_def by metis
  define hdr where "hdr = le_bytes 4 (of_nat sz :: u32) @ le_bytes 2 NLMSG_DONE @ le_bytes 2 (0 :: u16)
    @ le_bytes 4 seq @ le_bytes 4 pid"
  have h: "length hdr = 16" "take 2 (drop 4 hdr) = le_bytes 2 NLMSG_DONE" by (simp_all add: hdr_def)
  have len: "length (hdr @ cn_bytes msg @ tail) = sz" using t h by (simp add: cn_bytes_length)
  have "reply_lines (hdr @ cn_bytes msg @ tail) tm =
      Some [Message (take 24 tm) (idx msg) (val msg) (cn_seq msg) (ack msg)]"
    using h by (rule reply_lines_msg) (use len t assms(1) in simp)
  moreover have "netlink_send pid junk msg seq = Some (hdr @ cn_bytes msg @ tail, seq + 1)"
    using s by (simp add: hdr_def)
  ultimately show ?thesis using len by (simp add: sz_def)
qed

theorem ucon_message_printed_witness:
  "(let msg = \<lparr>idx = 14, val = 0x456, cn_seq = 7, ack = 0, payload = [1, 2, 3]\<rparr> in
    \<exists>b. netlink_send 42 (replicate 128 0xFF) msg 5 = Some (b, 6) \<and> length b = 40
      \<and> recv_loop [Received b ''Thu Jan  1 00:00:00 1970'', Timeout] =
          Some (0, [Message ''Thu Jan  1 00:00:00 1970'' 14 0x456 7 0]))"
  unfolding Let_def
  using ucon_message_printed [of "\<lparr>idx = 14, val = 0x456, cn_seq = 7, ack = 0, payload = [1, 2, 3]\<rparr>"
      "replicate 128 0xFF" 42 5 "''Thu Jan  1 00:00:00 1970''" "[]"]
  by (simp add: NLMSG_SPACE_def del: recv_loop.simps)

section \<open>The sending loop\<close>

text \<open>The bytes of a message without data: nothing of the buffer's old contents.\<close>

definition empty_msg_bytes :: "u32 \<Rightarrow> cn_msg \<Rightarrow> u32 \<Rightarrow> u8 list" where
  "empty_msg_bytes pid msg seq = le_bytes 4 (36 :: u32) @ le_bytes 2 NLMSG_DONE @ le_bytes 2 (0 :: u16)
     @ le_bytes 4 seq @ le_bytes 4 pid @ cn_bytes msg"

lemma netlink_send_empty:
  "payload msg = [] \<Longrightarrow> netlink_send pid junk msg seq = Some (empty_msg_bytes pid msg seq, seq + 1)"
  by (simp add: netlink_send_def Let_def NLMSG_SPACE_def empty_msg_bytes_def cn_bytes_length)

lemma send_many_empty:
  "payload msg = [] \<Longrightarrow> send_many pid junk msg n seq =
     Some (map (\<lambda>k. empty_msg_bytes pid msg (seq + of_nat k)) [0..<n], seq + of_nat n)"
proof (induction n arbitrary: seq)
  case (Suc n)
  have "map (\<lambda>k. empty_msg_bytes pid msg (seq + of_nat k)) [0..<Suc n] =
      empty_msg_bytes pid msg seq # map (\<lambda>k. empty_msg_bytes pid msg (seq + 1 + of_nat k)) [0..<n]"
    by (simp add: upt_conv_Cons map_Suc_upt [symmetric] add.assoc del: upt_Suc)
  then show ?case using Suc by (simp add: netlink_send_empty add.assoc del: upt_Suc)
qed simp

lemma send_rounds_empty:
  "payload msg = [] \<Longrightarrow> send_rounds pid junk msg per j seq =
     Some (map (\<lambda>k. empty_msg_bytes pid msg (seq + of_nat k)) [0..<per * j],
           replicate j (Sent per (idx msg) (val msg)))"
proof (induction j arbitrary: seq)
  case (Suc j)
  have "[0..<per * Suc j] = [0..<per] @ map (\<lambda>k. per + k) [0..<per * j]"
    using upt_add_eq_append [of 0 per "per * j"] by (simp add: map_add_upt add.commute)
  then show ?case using Suc by (simp add: send_many_empty add.assoc)
qed simp

text \<open>
  With \<open>-s\<close> the program sends ten times a thousand messages, numbered from 1 in their netlink
  header, and reports each thousand.
\<close>

lemma ucon_sends:
  assumes "u_socket e" and "u_bind e"
  shows "ucon_main e ''s'' [] argv1 =
    Some (0, map (\<lambda>k. empty_msg_bytes (u_pid e) (test_msg (u_users e) 0) (1 + of_nat k)) [0..<10000],
      Subscribing (CN_TEST_IDX (u_users e)) CN_TEST_VAL # replicate 10 (Sent 1000 (CN_TEST_IDX (u_users e)) CN_TEST_VAL))"
proof -
  have "send_rounds (u_pid e) (u_junk e) (test_msg (u_users e) 0) 1000 10 1 =
      Some (map (\<lambda>k. empty_msg_bytes (u_pid e) (test_msg (u_users e) 0) (1 + of_nat k)) [0..<10000],
        replicate 10 (Sent 1000 (CN_TEST_IDX (u_users e)) CN_TEST_VAL))"
    using send_rounds_empty [of "test_msg (u_users e) 0" "u_pid e" "u_junk e" 1000 10 1]
    by (simp add: test_msg_def del: upt_rec_numeral)
  then show ?thesis using assms by (simp add: ucon_main_def ucon_run_def del: upt_rec_numeral send_rounds.simps)
qed

end
