(* ===== verification/Cn_Test.thy ===== *)
theory Cn_Test
  imports Ucon
begin

text \<open>
  Model of \<open>src/Documentation/connector/cn_test.c\<close>, the kernel module whose messages
  \<open>ucon\<close> prints, and their composition. Registrations with the connector are a trace of
  acquired and released identifiers; the answers of registration and allocation, and the way the
  connector wraps a message for user space, are arguments.
\<close>

section \<open>The module\<close>

record cn_test =
  id_idx :: u32
  id_val :: u32
  timer_pending :: bool
  timer_counter :: u32
  sent_msgs :: "cn_msg list"

definition cn_test_loaded :: "u32 \<Rightarrow> cn_test" where
  "cn_test_loaded users = \<lparr>id_idx = users + 3, id_val = 0x456, timer_pending = False, timer_counter = 0, sent_msgs = []\<rparr>"

definition cb_id :: "cn_test \<Rightarrow> u32 \<times> u32" where
  "cb_id t = (id_idx t, id_val t)"

text \<open>
  Loading, with the connector's answers to the two registrations; a registration that is refused
  leaves nothing in the trace. The socket \<open>nls\<close> is never set, so its release is never reached.
\<close>

definition cn_test_init :: "int \<Rightarrow> int \<Rightarrow> cn_test \<Rightarrow> int \<times> cn_test \<times> (u32 \<times> u32) ev list" where
  "cn_test_init err1 err2 t =
     (if err1 \<noteq> 0 then (err1, t, [])
      else
        let tr1 = [Acq (cb_id t)]; t1 = t\<lparr>id_val := id_val t + 1\<rparr> in
        if err2 \<noteq> 0 then (err2, t1, tr1 @ [Rel (cb_id t1)])
        else (0, t1\<lparr>timer_pending := True\<rparr>, tr1 @ [Acq (cb_id t1)]))"

definition cn_test_fini :: "cn_test \<Rightarrow> cn_test \<times> (u32 \<times> u32) ev list" where
  "cn_test_fini t =
     (let t1 = t\<lparr>timer_pending := False\<rparr>; t2 = t1\<lparr>id_val := id_val t1 - 1\<rparr> in
      (t2, [Rel (cb_id t1), Rel (cb_id t2)]))"

text \<open>What the callback logs of a message: the identifier, the numbers, the length and the text, if any.\<close>

definition cn_test_callback :: "cn_msg \<Rightarrow> u32 \<times> u32 \<times> u32 \<times> u32 \<times> nat \<times> u8 list" where
  "cn_test_callback m = (idx m, val m, cn_seq m, ack m, length (payload m),
     if payload m = [] then [] else takeWhile (\<lambda>b. b \<noteq> 0) (payload m))"

text \<open>The text of a tick, cut to the 32 bytes of \<open>data\<close> with its final zero byte.\<close>

definition counter_text :: "u32 \<Rightarrow> string" where
  "counter_text n = take 31 (''counter = '' @ show_nat (unat n))"

definition counter_msg :: "cn_test \<Rightarrow> cn_msg" where
  "counter_msg t = \<lparr>idx = id_idx t, val = id_val t, cn_seq = timer_counter t, ack = 0,
     payload = map (\<lambda>c. of_nat (of_char c)) (counter_text (timer_counter t)) @ [0]\<rparr>"

definition cn_test_timer_func :: "bool \<Rightarrow> cn_test \<Rightarrow> cn_test" where
  "cn_test_timer_func alloc t =
     (let t1 = (if alloc then t\<lparr>sent_msgs := sent_msgs t @ [counter_msg t]\<rparr> else t) in
      t1\<lparr>timer_counter := timer_counter t1 + 1, timer_pending := True\<rparr>)"

section \<open>Loading and unloading\<close>

lemma cn_test_tick_id: "cb_id (cn_test_timer_func alloc t) = cb_id t"
  by (simp add: cn_test_timer_func_def cb_id_def Let_def)

lemma cn_test_session_clean:
  assumes "cn_test_init 0 0 t = (0, t', tr)" and "cb_id u = cb_id t'"
  shows "run_ev {} (tr @ snd (cn_test_fini u)) = Some {}"
  using assms by (auto simp: cn_test_init_def cn_test_fini_def cb_id_def Let_def)

text \<open>
  When the second callback cannot be registered, loading the module fails but the first
  callback stays registered: the clean-up deletes the identifier after it was advanced, which is
  the one that was refused and is not held.
\<close>

theorem cn_test_init_leaves_callback:
  assumes "err \<noteq> 0" and "cn_test_init 0 err (cn_test_loaded users) = (r, t, tr)"
  shows "r = err \<and> Acq (users + 3, 0x456) \<in> set tr \<and> Rel (users + 3, 0x456) \<notin> set tr \<and> run_ev {} tr = None"
  using assms by (auto simp: cn_test_init_def cn_test_loaded_def cb_id_def Let_def)

theorem cn_test_init_leaves_callback_witness:
  "\<exists>r t tr. cn_test_init 0 (-12) (cn_test_loaded 11) = (r, t, tr) \<and>
     r = -12 \<and> Acq (14, 0x456) \<in> set tr \<and> Rel (14, 0x456) \<notin> set tr \<and> run_ev {} tr = None"
proof -
  obtain r t tr where i: "cn_test_init 0 (-12) (cn_test_loaded 11) = (r, t, tr)" by (cases "cn_test_init 0 (-12) (cn_test_loaded 11)") auto
  from cn_test_init_leaves_callback [OF _ i] i show ?thesis by simp
qed

section \<open>Ticks\<close>

lemma show_nat_u32_length: "length (show_nat (unat (n :: u32))) \<le> 10"
proof (rule length_show_nat)
  show "unat n < 10 ^ 10" by (rule less_trans [OF unat_u32_less]) simp
qed simp

text \<open>The text is never cut.\<close>

lemma counter_text_whole: "counter_text n = ''counter = '' @ show_nat (unat n)"
  using show_nat_u32_length [of n] by (simp add: counter_text_def)

lemma ticks_sent:
  "sent_msgs ((cn_test_timer_func True ^^ n) t) =
     sent_msgs t @ map (\<lambda>k. counter_msg (t\<lparr>timer_counter := timer_counter t + of_nat k\<rparr>)) [0..<n]
   \<and> timer_counter ((cn_test_timer_func True ^^ n) t) = timer_counter t + of_nat n
   \<and> id_idx ((cn_test_timer_func True ^^ n) t) = id_idx t \<and> id_val ((cn_test_timer_func True ^^ n) t) = id_val t"
  by (induction n) (auto simp: cn_test_timer_func_def counter_msg_def Let_def)

section \<open>From the module to the screen\<close>

text \<open>
  The connector delivers a message as a netlink message of type \<open>NLMSG_DONE\<close> that holds it
  behind the header of 16 bytes, padded to a multiple of four.
\<close>

definition delivers :: "(cn_msg \<Rightarrow> u8 list) \<Rightarrow> bool" where
  "delivers deliver \<longleftrightarrow> (\<forall>m. \<exists>hdr tail. deliver m = hdr @ cn_bytes m @ tail \<and> length hdr = 16 \<and> length tail < 4
     \<and> take 2 (drop 4 hdr) = le_bytes 2 NLMSG_DONE)"

lemma delivered_printed:
  assumes "delivers deliver" and "length (payload m) \<le> 100"
  shows "reply_lines (deliver m) tm = Some [Message (take 24 tm) (idx m) (val m) (cn_seq m) (ack m)]"
proof -
  obtain hdr tail where d: "deliver m = hdr @ cn_bytes m @ tail" "length hdr = 16" "length tail < 4"
      "take 2 (drop 4 hdr) = le_bytes 2 NLMSG_DONE"
    using assms(1) unfolding delivers_def by blast
  show ?thesis
    unfolding d(1) using d(2,4) by (rule reply_lines_msg) (use d(2,3) assms(2) cn_bytes_length [of m] in simp)
qed

lemma counter_msg_small: "length (payload (counter_msg t)) \<le> 100"
  using show_nat_u32_length [of "timer_counter t"] by (simp add: counter_msg_def counter_text_whole)

text \<open>
  C34. The module and the program together: once the module is loaded, each tick of its timer
  shows up as one line of \<open>ucon\<close>, in order, with the sequence numbers 0, 1, 2, and so on modulo
  2 ^ 32, whatever header the connector puts in front. The identifier is the second one the module
  registered, 0x457, not the 0x456 that \<open>ucon\<close> announces.
\<close>

theorem cn_test_ticks_printed:
  assumes "delivers deliver" and "cn_test_init 0 0 (cn_test_loaded users) = (0, t, tr)"
  shows "recv_loop (map (\<lambda>m. Received (deliver m) tm) (sent_msgs ((cn_test_timer_func True ^^ n) t)) @ [Timeout]) =
    Some (0, map (\<lambda>k. Message (take 24 tm) (CN_TEST_IDX users) 0x457 (of_nat k) 0) [0..<n])"
proof -
  have t: "sent_msgs t = []" "timer_counter t = 0" "id_idx t = CN_TEST_IDX users" "id_val t = 0x457"
    using assms(2) by (auto simp: cn_test_init_def cn_test_loaded_def CN_TEST_IDX_def Let_def)
  define ms where "ms = map (\<lambda>k. counter_msg (t\<lparr>timer_counter := of_nat k\<rparr>)) [0..<n]"
  have sent: "sent_msgs ((cn_test_timer_func True ^^ n) t) = ms"
    using ticks_sent [of n t] t by (simp add: ms_def)
  have "recv_loop (map (\<lambda>m. Received (deliver m) tm) ms @ [Timeout]) =
      Some (0, map (\<lambda>m. Message (take 24 tm) (idx m) (val m) (cn_seq m) (ack m)) ms)"
  proof -
    have "reply_lines (deliver m) tm = Some [Message (take 24 tm) (idx m) (val m) (cn_seq m) (ack m)]" if "m \<in> set ms" for m
      using that counter_msg_small by (intro delivered_printed [OF assms(1)]) (auto simp: ms_def)
    then show ?thesis by (induction ms) simp_all
  qed
  then show ?thesis by (simp add: sent ms_def counter_msg_def t comp_def)
qed

text \<open>A connector with the header of a message to all listeners.\<close>

definition sample_deliver :: "cn_msg \<Rightarrow> u8 list" where
  "sample_deliver m = le_bytes 4 (of_nat (36 + length (payload m)) :: u32) @ le_bytes 2 NLMSG_DONE @ replicate 10 0
     @ cn_bytes m @ replicate ((4 - length (payload m) mod 4) mod 4) 0"

lemma sample_deliver_ok: "delivers sample_deliver"
  unfolding delivers_def
proof
  fix m
  show "\<exists>hdr tail. sample_deliver m = hdr @ cn_bytes m @ tail \<and> length hdr = 16 \<and> length tail < 4
     \<and> take 2 (drop 4 hdr) = le_bytes 2 NLMSG_DONE"
    by (intro exI [of _ "le_bytes 4 (of_nat (36 + length (payload m)) :: u32) @ le_bytes 2 NLMSG_DONE @ replicate 10 0"]
        exI [of _ "replicate ((4 - length (payload m) mod 4) mod 4) 0"])
      (simp add: sample_deliver_def)
qed

theorem cn_test_ticks_printed_witness:
  "\<exists>t tr. cn_test_init 0 0 (cn_test_loaded 11) = (0, t, tr) \<and>
     recv_loop (map (\<lambda>m. Received (sample_deliver m) ''Thu Jan  1 00:00:00 1970'')
       (sent_msgs ((cn_test_timer_func True ^^ 2) t)) @ [Timeout]) =
     Some (0, [Message ''Thu Jan  1 00:00:00 1970'' 14 0x457 0 0, Message ''Thu Jan  1 00:00:00 1970'' 14 0x457 1 0])"
proof -
  obtain t tr where t: "cn_test_init 0 0 (cn_test_loaded 11) = (0, t, tr)" by (simp add: cn_test_init_def Let_def)
  from cn_test_ticks_printed [OF sample_deliver_ok t, of "''Thu Jan  1 00:00:00 1970''" 2] t
  show ?thesis by (simp add: CN_TEST_IDX_def upt_rec)
qed

end
