(* ===== verification/Txtimestamp.thy ===== *)
theory Txtimestamp
  imports Doc_Prelude
begin

text \<open>
  Model of \<open>src/Documentation/networking/timestamping/txtimestamp.c\<close>, which sends packets
  over TCP, UDP or raw sockets and prints the transmit time stamps the kernel queues for them.
  The answers of sockets, clock and resolver are arguments. A computation gives \<open>None\<close> where
  C is undefined, \<open>Inl\<close> when \<open>error\<close> or \<open>usage\<close> ended the program with value 1,
  else \<open>Inr\<close>.
\<close>

section \<open>Configuration\<close>

datatype sock_type = SOCK_STREAM | SOCK_DGRAM | SOCK_RAW
datatype ip_proto = IPPROTO_TCP | IPPROTO_UDP | IPPROTO_RAW

record tx_cfg =
  cfg_proto :: sock_type
  cfg_ipproto :: ip_proto
  cfg_num_pkts :: nat
  do_ipv4 :: bool
  do_ipv6 :: bool
  cfg_payload_len :: int
  dest_port :: u16
  proto_count :: nat

definition tx_defaults :: tx_cfg where
  "tx_defaults = \<lparr>cfg_proto = SOCK_STREAM, cfg_ipproto = IPPROTO_TCP, cfg_num_pkts = 4, do_ipv4 = True,
     do_ipv6 = True, cfg_payload_len = 10, dest_port = 9000, proto_count = 0\<rparr>"

text \<open>\<open>strtoul\<close> in base 10: saturates, and negates modulo the word after a minus sign.\<close>

definition strtoul10 :: "string \<Rightarrow> u64" where
  "strtoul10 s =
     (let s1 = dropWhile c_isspace s;
          neg = (s1 \<noteq> [] \<and> hd s1 = CHR ''-'');
          ds = (if s1 \<noteq> [] \<and> hd s1 \<in> {CHR ''-'', CHR ''+''} then tl s1 else s1);
          v = digits_val 0 (takeWhile is_digit ds)
      in if v \<ge> 2 ^ 64 then -1 else if neg then - of_nat v else of_nat v)"

definition tx_option :: "char \<times> string \<Rightarrow> tx_cfg \<Rightarrow> tx_cfg option" where
  "tx_option copt c =
     (let o1 = fst copt; optarg = snd copt in
      if o1 = CHR ''4'' then Some (c\<lparr>do_ipv6 := False\<rparr>)
      else if o1 = CHR ''6'' then Some (c\<lparr>do_ipv4 := False\<rparr>)
      else if o1 = CHR ''r'' then
        Some (c\<lparr>proto_count := proto_count c + 1, cfg_proto := SOCK_RAW, cfg_ipproto := IPPROTO_UDP\<rparr>)
      else if o1 = CHR ''R'' then
        Some (c\<lparr>proto_count := proto_count c + 1, cfg_proto := SOCK_RAW, cfg_ipproto := IPPROTO_RAW\<rparr>)
      else if o1 = CHR ''u'' then
        Some (c\<lparr>proto_count := proto_count c + 1, cfg_proto := SOCK_DGRAM, cfg_ipproto := IPPROTO_UDP\<rparr>)
      else if o1 = CHR ''l'' then Some (c\<lparr>cfg_payload_len := sint (ucast (strtoul10 optarg) :: u32)\<rparr>)
      else if o1 = CHR ''p'' then Some (c\<lparr>dest_port := ucast (strtoul10 optarg)\<rparr>)
      else None)"

text \<open>\<open>None\<close> for the usage text, then the checks with their messages.\<close>

definition parse_opt :: "(char \<times> string) list \<Rightarrow> nat \<Rightarrow> string + tx_cfg" where
  "parse_opt copts rest =
     (case foldO tx_option copts tx_defaults of
        None \<Rightarrow> Inl ''usage''
      | Some c \<Rightarrow>
          if cfg_payload_len c = 0 then Inl ''payload may not be nonzero''
          else if cfg_proto c \<noteq> SOCK_STREAM \<and> cfg_payload_len c > 1472 then Inl ''udp packet might exceed expected MTU''
          else if \<not> do_ipv4 c \<and> \<not> do_ipv6 c then Inl ''pass -4 or -6, not both''
          else if proto_count c > 1 then Inl ''pass -r, -R or -u, not multiple''
          else if rest \<noteq> 1 then Inl ''missing required hostname argument''
          else Inr c)"

section \<open>Addresses\<close>

text \<open>An address of the resolver: the four bytes of an IPv4 address, an IPv6 one, or another.\<close>

datatype ai = Inet "u8 list" | Inet6 "u8 list" | OtherFamily

text \<open>The loop of \<open>resolve_hostname\<close>, which goes on while neither family has been found.\<close>

fun resolve_loop :: "ai list \<Rightarrow> u8 list option \<Rightarrow> u8 list option \<Rightarrow> u8 list option \<times> u8 list option" where
  "resolve_loop [] a4 a6 = (a4, a6)"
| "resolve_loop (cur # rest) a4 a6 =
     (if a4 \<noteq> None \<or> a6 \<noteq> None then (a4, a6)
      else case cur of
        Inet b \<Rightarrow> resolve_loop rest (Some b) a6
      | Inet6 b \<Rightarrow> resolve_loop rest a4 (Some b)
      | OtherFamily \<Rightarrow> resolve_loop rest a4 a6)"

definition resolve_hostname :: "ai list \<Rightarrow> tx_cfg \<Rightarrow> tx_cfg \<times> u8 list" where
  "resolve_hostname addrs c =
     (let (a4, a6) = resolve_loop addrs None None in
      (c\<lparr>do_ipv4 := (do_ipv4 c \<and> a4 \<noteq> None), do_ipv6 := (do_ipv6 c \<and> a6 \<noteq> None)\<rparr>,
       case a4 of None \<Rightarrow> replicate 4 0 | Some b \<Rightarrow> b))"

section \<open>Packets\<close>

definition be16 :: "u16 \<Rightarrow> u8 list" where "be16 w = rev (le_bytes 2 w)"

definition total_len :: "tx_cfg \<Rightarrow> int" where
  "total_len c = cfg_payload_len c
     + (if cfg_proto c = SOCK_RAW then 8 + (if cfg_ipproto c = IPPROTO_RAW then 20 else 0) else 0)"

definition iphdr :: "u8 list \<Rightarrow> u8 list" where
  "iphdr daddr = [0x45, 0, 0, 0, 0, 0, 0, 0, 2, 17, 0, 0, 0, 0, 0, 0] @ daddr"

definition udphdr :: "tx_cfg \<Rightarrow> u8 list" where
  "udphdr c = be16 9000 @ be16 (dest_port c) @ be16 (word_of_int (8 + cfg_payload_len c)) @ be16 0"

text \<open>
  The buffer for packet \<open>i\<close>: filled with a letter, ended, then overwritten with headers.
  \<open>None\<close>: a write in front of the buffer.
\<close>

definition packet :: "tx_cfg \<Rightarrow> u8 list \<Rightarrow> nat \<Rightarrow> u8 list option" where
  "packet c daddr i =
     (let n = nat (total_len c) in
      if n < 2 then None
      else
        let b = (replicate n (of_nat (97 + i)))[n - 2 := 10, n - 1 := 0] in
        if cfg_proto c = SOCK_RAW then
          let b1 = (if cfg_ipproto c = IPPROTO_RAW then iphdr daddr @ drop 20 b else b);
              off = (if cfg_ipproto c = IPPROTO_RAW then 20 else 0)
          in Some (take off b1 @ udphdr c @ drop (off + 8) b1)
        else Some b)"

section \<open>Time stamps\<close>

record timespec =
  tv_sec :: int
  tv_nsec :: int

abbreviation "zero_ts \<equiv> \<lparr>tv_sec = 0, tv_nsec = 0\<rparr>"

definition nonzero_ts :: "timespec \<Rightarrow> bool" where
  "nonzero_ts t \<longleftrightarrow> tv_sec t \<noteq> 0 \<or> tv_nsec t \<noteq> 0"

datatype ee_errno = ENOMSG | OtherErrno int
datatype ee_origin = SO_EE_ORIGIN_TIMESTAMPING | OtherOrigin int

datatype tx_line =
    Stamp string int int u32 int "int option"
  | UnknownIpError ee_errno ee_origin | UnknownCmsg int int
  | Skipped | Family string | Test string | Err string | Info string

definition us_of :: "timespec \<Rightarrow> int" where
  "us_of t = tv_sec t * 1000 * 1000 + c_quot (tv_nsec t) 1000"

text \<open>The flags of \<open>SO_TIMESTAMPING\<close>, as the list of those set.\<close>

datatype sof = TX_SOFTWARE | TX_SCHED | TX_ACK | SOFTWARE | OPT_ID

record tx_st =
  ts_prev :: timespec
  out :: "tx_line list"
  sent :: "u8 list list"
  requested :: "sof list list"

type_synonym tx = "(tx_st + tx_st) option"

definition put :: "tx_line \<Rightarrow> tx_st \<Rightarrow> tx_st" where "put l s = s\<lparr>out := out s @ [l]\<rparr>"

definition err :: "string \<Rightarrow> tx_st \<Rightarrow> tx" where "err msg s = Some (Inl (put (Err msg) s))"

definition tbind :: "tx \<Rightarrow> (tx_st \<Rightarrow> tx) \<Rightarrow> tx" where
  "tbind m k = (case m of Some (Inr s) \<Rightarrow> k s | r \<Rightarrow> r)"

definition print_ts :: "string \<Rightarrow> timespec \<Rightarrow> u32 \<Rightarrow> int \<Rightarrow> tx_st \<Rightarrow> tx_st" where
  "print_ts name cur key payload_len s =
     (if \<not> nonzero_ts cur then s
      else (put (Stamp name (tv_sec cur) (c_quot (tv_nsec cur) 1000) key payload_len
             (if nonzero_ts (ts_prev s) then Some (us_of cur - us_of (ts_prev s)) else None)) s)\<lparr>ts_prev := cur\<rparr>)"

definition print_timestamp_usr :: "int \<times> int \<Rightarrow> tx_st \<Rightarrow> tx_st" where
  "print_timestamp_usr tv = print_ts ''  USR'' \<lparr>tv_sec = fst tv, tv_nsec = snd tv * 1000\<rparr> 0 0"

datatype tstamp_type = SCM_TSTAMP_SCHED | SCM_TSTAMP_SND | SCM_TSTAMP_ACK | OtherTstamp int

fun ts_name :: "tstamp_type \<Rightarrow> string option" where
  "ts_name SCM_TSTAMP_SCHED = Some ''  ENQ''"
| "ts_name SCM_TSTAMP_SND = Some ''  SND''"
| "ts_name SCM_TSTAMP_ACK = Some ''  ACK''"
| "ts_name (OtherTstamp i) = None"

definition print_timestamp :: "timespec \<Rightarrow> tstamp_type \<Rightarrow> u32 \<Rightarrow> int \<Rightarrow> tx_st \<Rightarrow> tx" where
  "print_timestamp ts0 tstype tskey payload_len s =
     (case ts_name tstype of
        None \<Rightarrow> err ''unknown timestamp type'' s
      | Some n \<Rightarrow> Some (Inr (print_ts n ts0 tskey payload_len s)))"

text \<open>
  Control messages: a time stamp, an extended error (\<open>ee_errno\<close>, \<open>ee_origin\<close>,
  \<open>ee_info\<close>, \<open>ee_data\<close>), or another one.
\<close>

datatype cmsg = Timestamping timespec | RecvErr ee_errno ee_origin tstamp_type u32 | OtherCmsg int int

fun cmsg_loop :: "cmsg list \<Rightarrow> (tstamp_type \<times> u32) option \<Rightarrow> timespec option \<Rightarrow> tx_st
    \<Rightarrow> (tstamp_type \<times> u32) option \<times> timespec option \<times> tx_st" where
  "cmsg_loop [] serr tss s = (serr, tss, s)"
| "cmsg_loop (Timestamping t # cs) serr tss s = cmsg_loop cs serr (Some t) s"
| "cmsg_loop (RecvErr eno origin ei ed # cs) serr tss s =
     (if eno \<noteq> ENOMSG \<or> origin \<noteq> SO_EE_ORIGIN_TIMESTAMPING
      then cmsg_loop cs None tss (put (UnknownIpError eno origin) s)
      else cmsg_loop cs (Some (ei, ed)) tss s)"
| "cmsg_loop (OtherCmsg level ty # cs) serr tss s = cmsg_loop cs serr tss (put (UnknownCmsg level ty) s)"

definition recv_errmsg_cmsg :: "cmsg list \<Rightarrow> int \<Rightarrow> tx_st \<Rightarrow> tx" where
  "recv_errmsg_cmsg cs payload_len s =
     (case cmsg_loop cs None None s of
        (Some (ei, ed), Some t, s1) \<Rightarrow> print_timestamp t ei ed payload_len s1
      | (_, _, s1) \<Rightarrow> Some (Inr s1))"

text \<open>
  The loop over the error queue: each message read with its length, until \<open>EAGAIN\<close>, which
  reads no control message, or another error. \<open>recv_errmsg\<close> is one turn.
\<close>

datatype errq = NoMemory | QueueError | Queued int "cmsg list"

fun drain :: "errq list \<Rightarrow> tx_st \<Rightarrow> tx" where
  "drain [] s = Some (Inr s)"
| "drain (NoMemory # q) s = err ''malloc'' s"
| "drain (QueueError # q) s = err ''recvmsg'' s"
| "drain (Queued ret cs # q) s = tbind (recv_errmsg_cmsg cs ret s) (drain q)"

section \<open>Tests\<close>

record pkt_ans =
  p_tod :: "int \<times> int"
  p_sent :: int
  p_poll :: int
  p_queue :: "errq list"

record test_ans =
  a_malloc :: bool
  a_socket :: int
  a_nodelay :: int
  a_connect :: int
  a_timestamping :: "sof list \<Rightarrow> int"
  a_pkts :: "nat \<Rightarrow> pkt_ans"
  a_close :: int

definition PF_INET :: int where "PF_INET = 2"
definition PF_INET6 :: int where "PF_INET6 = 10"
definition IPPROTO_IPV6 :: int where "IPPROTO_IPV6 = 41"

definition tx_poll :: "int \<Rightarrow> tx_st \<Rightarrow> tx" where
  "tx_poll ret s = (if ret \<noteq> 1 then err ''poll'' s else Some (Inr s))"

definition send_one :: "tx_cfg \<Rightarrow> u8 list \<Rightarrow> pkt_ans \<Rightarrow> nat \<Rightarrow> tx_st \<Rightarrow> tx" where
  "send_one c daddr a i s =
     (case packet c daddr i of
        None \<Rightarrow> None
      | Some b \<Rightarrow>
          let s1 = print_timestamp_usr (p_tod a) (s\<lparr>ts_prev := zero_ts\<rparr>); s2 = s1\<lparr>sent := sent s1 @ [b]\<rparr> in
          if p_sent a \<noteq> total_len c then err ''send'' s2
          else tbind (tx_poll (p_poll a) s2) (drain (p_queue a)))"

fun send_pkts :: "tx_cfg \<Rightarrow> u8 list \<Rightarrow> (nat \<Rightarrow> pkt_ans) \<Rightarrow> nat \<Rightarrow> nat \<Rightarrow> tx_st \<Rightarrow> tx" where
  "send_pkts c daddr ans i 0 s = Some (Inr s)"
| "send_pkts c daddr ans i (Suc n) s = tbind (send_one c daddr (ans i) i s) (send_pkts c daddr ans (Suc i) n)"

text \<open>A negative length makes \<open>malloc\<close> fail: it is a size above the address space.\<close>

definition do_test :: "tx_cfg \<Rightarrow> u8 list \<Rightarrow> test_ans \<Rightarrow> int \<Rightarrow> sof list \<Rightarrow> tx_st \<Rightarrow> tx" where
  "do_test c daddr a family opt s =
     (if family = IPPROTO_IPV6 \<and> cfg_proto c \<noteq> SOCK_STREAM then Some (Inr (put Skipped s))
      else if total_len c < 0 \<or> \<not> a_malloc a then err ''malloc'' s
      else if a_socket a < 0 then err ''socket'' s
      else if cfg_proto c = SOCK_STREAM \<and> a_nodelay a \<noteq> 0 then err ''setsockopt no nagle'' s
      else if cfg_proto c = SOCK_STREAM \<and> a_connect a \<noteq> 0
      then err (if family = PF_INET then ''connect ipv4'' else ''connect ipv6'') s
      else
        let opt1 = opt @ [SOFTWARE, OPT_ID]; s0 = s\<lparr>requested := requested s @ [opt1]\<rparr> in
        if a_timestamping a opt1 \<noteq> 0 then err ''setsockopt timestamping'' s0
        else tbind (send_pkts c daddr (a_pkts a) 0 (cfg_num_pkts c) s0)
             (\<lambda>s1. if a_close a \<noteq> 0 then err ''close'' s1 else Some (Inr s1)))"

fun run_tests :: "tx_cfg \<Rightarrow> u8 list \<Rightarrow> (nat \<Rightarrow> test_ans) \<Rightarrow> int \<Rightarrow> nat \<Rightarrow> (string \<times> sof list) list \<Rightarrow> tx_st \<Rightarrow> tx" where
  "run_tests c daddr ans family k [] s = Some (Inr s)"
| "run_tests c daddr ans family k ((name, opt) # tests) s =
     tbind (do_test c daddr (ans k) family opt (put (Test name) s)) (run_tests c daddr ans family (Suc k) tests)"

definition do_main :: "tx_cfg \<Rightarrow> u8 list \<Rightarrow> (nat \<Rightarrow> test_ans) \<Rightarrow> int \<Rightarrow> tx_st \<Rightarrow> tx" where
  "do_main c daddr ans family s =
     run_tests c daddr ans family 0
       ([(''SND'', [TX_SOFTWARE]), (''ENQ'', [TX_SCHED]), (''ENQ + SND'', [TX_SCHED, TX_SOFTWARE])]
        @ (if cfg_proto c = SOCK_STREAM
           then [(''ACK'', [TX_ACK]), (''SND + ACK'', [TX_SOFTWARE, TX_ACK]),
                 (''ENQ + SND + ACK'', [TX_SCHED, TX_SOFTWARE, TX_ACK])]
           else []))
       (put (Family (if family = PF_INET then ''INET'' else ''INET6'')) s)"

definition tx_main :: "ai list option \<Rightarrow> (int \<Rightarrow> nat \<Rightarrow> test_ans) \<Rightarrow> (char \<times> string) list \<Rightarrow> nat \<Rightarrow> tx" where
  "tx_main resolved ans copts rest =
     (let s0 = \<lparr>ts_prev = zero_ts, out = [], sent = [], requested = []\<rparr> in
      case parse_opt copts rest of
        Inl msg \<Rightarrow> err msg s0
      | Inr c0 \<Rightarrow>
          (case resolved of
             None \<Rightarrow> err ''getaddrinfo'' s0
           | Some addrs \<Rightarrow>
               let (c, daddr) = resolve_hostname addrs c0 in
               tbind (if do_ipv4 c then do_main c daddr (ans PF_INET) PF_INET s0 else Some (Inr s0))
                 (\<lambda>s. if do_ipv6 c then do_main c daddr (ans PF_INET6) PF_INET6 s else Some (Inr s))))"

section \<open>Packet layout\<close>

definition headers :: "tx_cfg \<Rightarrow> u8 list \<Rightarrow> u8 list" where
  "headers c daddr =
     (if cfg_proto c \<noteq> SOCK_RAW then []
      else (if cfg_ipproto c = IPPROTO_RAW then iphdr daddr else []) @ udphdr c)"

lemma header_lengths [simp]: "length (be16 w) = 2" "length (udphdr c) = 8" "length (iphdr d) = 16 + length d"
  by (simp_all add: be16_def udphdr_def iphdr_def)

lemma filled_buffer:
  assumes "2 \<le> m"
  shows "(replicate (k + m) x)[k + m - 2 := y, k + m - 1 := z] = replicate k x @ replicate (m - 2) x @ [y, z]"
proof -
  obtain j where m: "m = j + 2" using assms by (metis le_add_diff_inverse2)
  have "replicate (k + m) x = replicate ((k + j) + 2) x" by (simp add: m)
  also have "\<dots> = replicate (k + j) x @ replicate 2 x" by (rule replicate_add)
  also have "replicate 2 x = [x, x]" by (simp add: numeral_2_eq_2)
  finally show ?thesis by (simp add: m list_update_append replicate_add)
qed

text \<open>
  The packets have the layout their protocols ask for. With a payload of at least two bytes,
  packet \<open>i\<close> is the headers, that is nothing for TCP and UDP, a UDP header for a raw socket
  and an IPv4 header with the resolved address before it for \<open>-R\<close>, followed by the payload: the
  letter of the packet up to its last two bytes, which are newline and zero. It has the length
  passed to the socket call, and the UDP length field counts header and payload.
\<close>

theorem txtimestamp_packet:
  assumes "2 \<le> cfg_payload_len c" and "cfg_payload_len c \<le> 1472" and "length daddr = 4"
  shows "packet c daddr i = Some (headers c daddr @ replicate (nat (cfg_payload_len c) - 2) (of_nat (97 + i)) @ [10, 0])
    \<and> int (length (the (packet c daddr i))) = total_len c
    \<and> take 2 (drop 4 (udphdr c)) = be16 (of_nat (8 + nat (cfg_payload_len c)))
    \<and> unat (of_nat (8 + nat (cfg_payload_len c)) :: u16) = 8 + nat (cfg_payload_len c)"
proof -
  define m where "m = nat (cfg_payload_len c)"
  have m: "2 \<le> m" "m \<le> 1472" "cfg_payload_len c = int m" using assms by (simp_all add: m_def)
  define k :: nat where "k = (if cfg_proto c = SOCK_RAW then 8 + (if cfg_ipproto c = IPPROTO_RAW then 20 else 0) else 0)"
  have n: "nat (total_len c) = k + m" by (simp add: total_len_def k_def m(3) nat_add_distrib)
  have b: "(replicate (k + m) x)[k + m - 2 := y, k + m - 1 := z] = replicate k x @ replicate (m - 2) x @ [y, z]"
    for x y z :: u8 by (rule filled_buffer [OF m(1)])
  have p: "packet c daddr i = Some (headers c daddr @ replicate (m - 2) (of_nat (97 + i)) @ [10, 0])"
    using m(1) assms(3)
    unfolding packet_def Let_def n b
    by (auto simp: headers_def k_def)
  have "length (headers c daddr) = k" using assms(3) by (simp add: headers_def k_def)
  then have "int (length (the (packet c daddr i))) = total_len c"
    using p m n by (simp add: total_len_def k_def)
  moreover have "take 2 (drop 4 (udphdr c)) = be16 (of_nat (8 + m))"
    by (simp add: udphdr_def m(3))
  moreover have "unat (of_nat (8 + m) :: u16) = 8 + m" using m(2) by (intro unat_of_nat_u16) simp
  ultimately show ?thesis using p by (simp add: m_def)
qed

theorem txtimestamp_packet_witness:
  "(let c = tx_defaults\<lparr>cfg_proto := SOCK_RAW, cfg_ipproto := IPPROTO_UDP, cfg_payload_len := 4\<rparr> in
    packet c [127, 0, 0, 1] 1 = Some (udphdr c @ [98, 98, 10, 0]) \<and> total_len c = 12)"
  unfolding Let_def
  using txtimestamp_packet [of "tx_defaults\<lparr>cfg_proto := SOCK_RAW, cfg_ipproto := IPPROTO_UDP, cfg_payload_len := 4\<rparr>"
      "[127, 0, 0, 1]" 1]
  by (simp add: headers_def total_len_def numeral_2_eq_2)

text \<open>A payload of one byte over TCP or UDP writes in front of the buffer.\<close>

lemma payload_one_underruns:
  "cfg_proto c \<noteq> SOCK_RAW \<Longrightarrow> cfg_payload_len c = 1 \<Longrightarrow> packet c daddr i = None"
  by (simp add: packet_def total_len_def)

section \<open>Resolving\<close>

definition first_family :: "ai list \<Rightarrow> ai option" where
  "first_family addrs = find (\<lambda>a. a \<noteq> OtherFamily) addrs"

lemma resolve_loop_found [simp]:
  "resolve_loop as (Some b) a6 = (Some b, a6)" "resolve_loop as a4 (Some b) = (a4, Some b)"
  by (cases as; simp)+

lemma resolve_loop_first:
  "resolve_loop addrs None None =
     (case first_family addrs of Some (Inet b) \<Rightarrow> (Some b, None) | Some (Inet6 b) \<Rightarrow> (None, Some b) | _ \<Rightarrow> (None, None))"
proof (induction addrs)
  case (Cons a as)
  then show ?case by (cases a) (simp_all add: first_family_def)
qed (simp add: first_family_def)

text \<open>
  The search for addresses ends with the first one of either family: a test over IPv4 is run
  only if the first address the resolver gives is an IPv4 one, over IPv6 only if it is an IPv6
  one, and never both, although the loop keeps a flag for each family and the options restrict
  the tests to one.
\<close>

theorem resolve_first_family_only:
  "(do_ipv4 (fst (resolve_hostname addrs c)) \<longleftrightarrow> do_ipv4 c \<and> (\<exists>b. first_family addrs = Some (Inet b)))
   \<and> (do_ipv6 (fst (resolve_hostname addrs c)) \<longleftrightarrow> do_ipv6 c \<and> (\<exists>b. first_family addrs = Some (Inet6 b)))"
  by (auto simp: resolve_hostname_def resolve_loop_first split: option.splits ai.splits)

section \<open>A test whose calls succeed\<close>

text \<open>The stamps of a packet, each with the microseconds since the one before.\<close>

fun stamp_lines :: "timespec \<Rightarrow> (string \<times> timespec \<times> u32 \<times> int) list \<Rightarrow> tx_line list" where
  "stamp_lines prev [] = []"
| "stamp_lines prev ((name, t, key, len) # xs) =
     (if nonzero_ts t
      then Stamp name (tv_sec t) (c_quot (tv_nsec t) 1000) key len
             (if nonzero_ts prev then Some (us_of t - us_of prev) else None) # stamp_lines t xs
      else stamp_lines prev xs)"

text \<open>A queued time stamp: its type, the stamp, the key and the length of the packet.\<close>

definition queued :: "tstamp_type \<times> timespec \<times> u32 \<times> int \<Rightarrow> errq" where
  "queued q = (case q of (ty, t, key, len) \<Rightarrow>
     Queued len [Timestamping t, RecvErr ENOMSG SO_EE_ORIGIN_TIMESTAMPING ty key])"

definition named :: "tstamp_type \<times> timespec \<times> u32 \<times> int \<Rightarrow> string \<times> timespec \<times> u32 \<times> int" where
  "named q = (case q of (ty, t, key, len) \<Rightarrow> (the (ts_name ty), t, key, len))"

lemma named_simp: "named (ty, t, key, len) = (the (ts_name ty), t, key, len)"
  by (simp add: named_def)

text \<open>The lines of a packet, from the time it is sent.\<close>

definition pkt_lines :: "pkt_ans \<Rightarrow> (tstamp_type \<times> timespec \<times> u32 \<times> int) list \<Rightarrow> tx_line list" where
  "pkt_lines a qs = stamp_lines zero_ts
     ((''  USR'', \<lparr>tv_sec = fst (p_tod a), tv_nsec = snd (p_tod a) * 1000\<rparr>, 0, 0) # map named qs)"

lemma drain_queued:
  "\<forall>q \<in> set qs. ts_name (fst q) \<noteq> None \<Longrightarrow>
     \<exists>s'. drain (map queued qs) s = Some (Inr s') \<and> out s' = out s @ stamp_lines (ts_prev s) (map named qs)
       \<and> sent s' = sent s"
proof (induction qs arbitrary: s)
  case (Cons q qs)
  obtain ty t key len where q: "q = (ty, t, key, len)" by (cases q)
  obtain nm where nm: "ts_name ty = Some nm" using Cons.prems q by auto
  define s1 where "s1 = print_ts nm t key len s"
  obtain s' where s': "drain (map queued qs) s1 = Some (Inr s')"
      "out s' = out s1 @ stamp_lines (ts_prev s1) (map named qs)" "sent s' = sent s1"
    using Cons.IH [of s1] Cons.prems by auto
  have d: "drain (map queued (q # qs)) s = drain (map queued qs) s1"
    by (simp add: q queued_def recv_errmsg_cmsg_def print_timestamp_def nm tbind_def s1_def)
  show ?case
    using s' unfolding d by (auto simp: q named_simp nm s1_def print_ts_def put_def)
qed simp

text \<open>The calls for a packet succeed, and stamps of known types are queued for it.\<close>

definition goes_well :: "tx_cfg \<Rightarrow> pkt_ans \<Rightarrow> (tstamp_type \<times> timespec \<times> u32 \<times> int) list \<Rightarrow> bool" where
  "goes_well c a qs \<longleftrightarrow> p_sent a = total_len c \<and> p_poll a = 1 \<and> p_queue a = map queued qs
     \<and> (\<forall>q \<in> set qs. ts_name (fst q) \<noteq> None)"

lemma send_one_ok:
  assumes "packet c daddr i = Some b" and "goes_well c a qs"
  shows "\<exists>s'. send_one c daddr a i s = Some (Inr s') \<and> sent s' = sent s @ [b]
    \<and> out s' = out s @ pkt_lines a qs"
proof -
  define s1 where "s1 = print_timestamp_usr (p_tod a) (s\<lparr>ts_prev := zero_ts\<rparr>)"
  define s2 where "s2 = s1\<lparr>sent := sent s1 @ [b]\<rparr>"
  obtain s' where s': "drain (map queued qs) s2 = Some (Inr s')"
      "out s' = out s2 @ stamp_lines (ts_prev s2) (map named qs)" "sent s' = sent s2"
    using drain_queued [of qs s2] assms(2) by (auto simp: goes_well_def)
  have "send_one c daddr a i s = Some (Inr s')"
    using assms s'(1) by (simp add: goes_well_def send_one_def tx_poll_def tbind_def Let_def s1_def [symmetric] s2_def [symmetric])
  then show ?thesis
    using s' by (auto simp: s2_def s1_def print_timestamp_usr_def print_ts_def put_def nonzero_ts_def pkt_lines_def)
qed

lemma send_pkts_ok:
  assumes "\<And>j. i \<le> j \<Longrightarrow> j < i + n \<Longrightarrow> packet c daddr j = Some (b j) \<and> goes_well c (ans j) (qs j)"
  shows "\<exists>s'. send_pkts c daddr ans i n s = Some (Inr s') \<and> sent s' = sent s @ map b [i..<i + n]
    \<and> out s' = out s @ concat (map (\<lambda>j. pkt_lines (ans j) (qs j)) [i..<i + n])"
  using assms
proof (induction n arbitrary: i s)
  case (Suc n)
  have "packet c daddr i = Some (b i)" "goes_well c (ans i) (qs i)" using Suc.prems [of i] by auto
  from send_one_ok [OF this, of s] obtain s1 where s1: "send_one c daddr (ans i) i s = Some (Inr s1)"
      "sent s1 = sent s @ [b i]"
      "out s1 = out s @ pkt_lines (ans i) (qs i)"
    by blast
  have u: "[i..<i + Suc n] = i # [Suc i..<Suc i + n]" by (simp add: upt_conv_Cons)
  have "\<exists>s'. send_pkts c daddr ans (Suc i) n s1 = Some (Inr s') \<and> sent s' = sent s1 @ map b [Suc i..<Suc i + n]
      \<and> out s' = out s1 @ concat (map (\<lambda>j. pkt_lines (ans j) (qs j)) [Suc i..<Suc i + n])"
    by (rule Suc.IH) (use Suc.prems in simp)
  then obtain s' where "send_pkts c daddr ans (Suc i) n s1 = Some (Inr s')"
      "sent s' = sent s1 @ map b [Suc i..<Suc i + n]"
      "out s' = out s1 @ concat (map (\<lambda>j. pkt_lines (ans j) (qs j)) [Suc i..<Suc i + n])"
    by blast
  with s1 show ?case unfolding u by (intro exI [of _ s']) (simp add: tbind_def del: upt_Suc)
qed simp


text \<open>One packet of a UDP test with two stamps.\<close>

definition sample_pkt :: pkt_ans where
  "sample_pkt = \<lparr>p_tod = (5, 100), p_sent = 4, p_poll = 1,
     p_queue = map queued [(SCM_TSTAMP_SCHED, \<lparr>tv_sec = 5, tv_nsec = 103000\<rparr>, 0, 4),
       (SCM_TSTAMP_SND, \<lparr>tv_sec = 5, tv_nsec = 110000\<rparr>, 0, 4)]\<rparr>"


end
