(* ===== verification/Hwtstamp_Config.thy ===== *)
theory Hwtstamp_Config
  imports Doc_Prelude
begin

text \<open>
  Model of \<open>src/Documentation/networking/timestamping/hwtstamp_config.c\<close>, which reads or sets
  the time stamping configuration of a network interface. The values of the kernel's enumerators,
  which index the tables of names, are an argument, and so are the answers of socket and ioctl.
\<close>

section \<open>Names\<close>

text \<open>
  An array with designated initialisers: as long as its largest index asks for, empty where no
  initialiser names the index, the last one winning.
\<close>

definition designated :: "(nat \<times> string) list \<Rightarrow> string option list" where
  "designated inits =
     foldl (\<lambda>a (i, s). a[i := Some s]) (replicate (if inits = [] then 0 else Suc (Max (fst ` set inits))) None) inits"

definition tx_names :: "string list" where
  "tx_names = [''OFF'', ''ON'', ''ONESTEP_SYNC'']"

definition rx_names :: "string list" where
  "rx_names = [''NONE'', ''ALL'', ''SOME'', ''PTP_V1_L4_EVENT'', ''PTP_V1_L4_SYNC'', ''PTP_V1_L4_DELAY_REQ'',
     ''PTP_V2_L4_EVENT'', ''PTP_V2_L4_SYNC'', ''PTP_V2_L4_DELAY_REQ'', ''PTP_V2_L2_EVENT'', ''PTP_V2_L2_SYNC'',
     ''PTP_V2_L2_DELAY_REQ'', ''PTP_V2_EVENT'', ''PTP_V2_SYNC'', ''PTP_V2_DELAY_REQ'']"

definition names_array :: "(string \<Rightarrow> nat) \<Rightarrow> string list \<Rightarrow> string option list" where
  "names_array enum names = designated (map (\<lambda>n. (enum n, n)) names)"

definition tx_types :: "(string \<Rightarrow> nat) \<Rightarrow> string option list" where
  "tx_types enum = names_array enum tx_names"

definition rx_filters :: "(string \<Rightarrow> nat) \<Rightarrow> string option list" where
  "rx_filters enum = names_array enum rx_names"

text \<open>\<open>lookup_value\<close>, from index \<open>i\<close> on.\<close>

fun lookup_from :: "nat \<Rightarrow> string option list \<Rightarrow> string \<Rightarrow> int" where
  "lookup_from i [] name = -1"
| "lookup_from i (n # ns) name =
     (case n of
        Some s \<Rightarrow> if strcasecmp_eq s name then int i else lookup_from (Suc i) ns name
      | None \<Rightarrow> lookup_from (Suc i) ns name)"

definition lookup_value :: "string option list \<Rightarrow> string \<Rightarrow> int" where
  "lookup_value names name = lookup_from 0 names name"

definition lookup_name :: "string option list \<Rightarrow> int \<Rightarrow> string option" where
  "lookup_name names val = (if 0 \<le> val \<and> val < int (length names) then names ! nat val else None)"

definition list_names :: "string option list \<Rightarrow> string list" where
  "list_names names = concat (map (\<lambda>n. case n of Some s \<Rightarrow> [''    '' @ s] | None \<Rightarrow> []) names)"

section \<open>The program\<close>

record hwtstamp_config =
  flags :: u32
  tx_type :: int
  rx_filter :: int

datatype hw_request = SIOCGHWTSTAMP | SIOCSHWTSTAMP hwtstamp_config

datatype hw_line = HwUsage "string list" "string list" | HwPerror string
  | HwFlags u32 | HwTx "string + int" | HwRx "string + int"

record hw_env =
  h_tx :: "string \<Rightarrow> nat"
  h_rx :: "string \<Rightarrow> nat"
  h_socket :: bool
  h_ioctl :: "string \<Rightarrow> hw_request \<Rightarrow> hwtstamp_config option"

definition hw_usage :: "hw_env \<Rightarrow> hw_line" where
  "hw_usage e = HwUsage (list_names (tx_types (h_tx e))) (list_names (rx_filters (h_rx e)))"

definition name_or_value :: "string option list \<Rightarrow> int \<Rightarrow> string + int" where
  "name_or_value names v = (case lookup_name names v of Some n \<Rightarrow> Inl n | None \<Rightarrow> Inr v)"

definition hw_report :: "hw_env \<Rightarrow> hwtstamp_config \<Rightarrow> hw_line list" where
  "hw_report e c =
     [HwFlags (flags c), HwTx (name_or_value (tx_types (h_tx e)) (tx_type c)),
      HwRx (name_or_value (rx_filters (h_rx e)) (rx_filter c))]"

definition hw_do :: "hw_env \<Rightarrow> string \<Rightarrow> hw_request \<Rightarrow> int \<times> hw_line list" where
  "hw_do e ifname req =
     (if \<not> h_socket e then (1, [HwPerror ''socket''])
      else case h_ioctl e ifname req of
        None \<Rightarrow> (1, [HwPerror ''ioctl''])
      | Some c \<Rightarrow> (0, hw_report e c))"

text \<open>\<open>main\<close> without the program name; \<open>IFNAMSIZ\<close> is 16.\<close>

definition hwtstamp_main :: "hw_env \<Rightarrow> string list \<Rightarrow> int \<times> hw_line list" where
  "hwtstamp_main e argv =
     (if length argv \<notin> {1, 3} \<or> length (argv ! 0) \<ge> 16 then (2, [hw_usage e])
      else if length argv = 3 then
        (let c = \<lparr>flags = 0, tx_type = lookup_value (tx_types (h_tx e)) (argv ! 1),
                  rx_filter = lookup_value (rx_filters (h_rx e)) (argv ! 2)\<rparr> in
         if tx_type c < 0 \<or> rx_filter c < 0 then (2, [hw_usage e])
         else hw_do e (argv ! 0) (SIOCSHWTSTAMP c))
      else hw_do e (argv ! 0) SIOCGHWTSTAMP)"

section \<open>The tables\<close>

lemma foldl_inits_length: "length (foldl (\<lambda>a (i, s). a[i := Some s]) a inits) = length a"
  by (induction inits arbitrary: a) auto

lemma designated_length: "length (designated inits) = (if inits = [] then 0 else Suc (Max (fst ` set inits)))"
  by (simp add: designated_def foldl_inits_length)

lemma foldl_inits_nth:
  "distinct (map fst inits) \<Longrightarrow> k < length a \<Longrightarrow> foldl (\<lambda>a (i, s). a[i := Some s]) a inits ! k =
     (case map_of inits k of Some s \<Rightarrow> Some s | None \<Rightarrow> a ! k)"
proof (induction inits arbitrary: a)
  case (Cons x inits)
  obtain i s where x: "x = (i, s)" by (cases x)
  have "i \<notin> dom (map_of inits)" using Cons.prems x by (simp add: dom_map_of_conv_image_fst)
  then show ?case using Cons x by (auto simp: nth_list_update split: option.splits)
qed simp

lemma designated_nth:
  assumes "distinct (map fst inits)" and "k < length (designated inits)"
  shows "designated inits ! k = map_of inits k"
proof -
  define n where "n = (if inits = [] then 0 else Suc (Max (fst ` set inits)))"
  have k: "k < n" using assms(2) by (simp add: designated_length n_def)
  have "designated inits ! k = (case map_of inits k of Some s \<Rightarrow> Some s | None \<Rightarrow> replicate n None ! k)"
    unfolding designated_def n_def [symmetric] using k by (intro foldl_inits_nth [OF assms(1)]) simp
  then show ?thesis using k by (simp split: option.splits)
qed

lemma names_array_nth:
  assumes "inj_on enum (set names)" and "distinct names" and "n \<in> set names"
  shows "enum n < length (names_array enum names) \<and> names_array enum names ! enum n = Some n"
proof -
  let ?in = "map (\<lambda>n. (enum n, n)) names"
  have d: "distinct (map fst ?in)"
    using assms(1,2) by (simp add: comp_def distinct_map)
  have ne: "?in \<noteq> []" using assms(3) by auto
  have "enum n \<in> fst ` set ?in" using assms(3) by force
  then have l: "enum n < length (designated ?in)"
    using ne by (simp add: designated_length less_Suc_eq_le del: map_eq_conv)
  have "map_of ?in (enum n) = Some n"
    using d assms(3) by (intro map_of_is_SomeI) auto
  then show ?thesis using designated_nth [OF d l] l by (simp add: names_array_def)
qed

lemma names_array_range:
  assumes "inj_on enum (set names)" and "distinct names" and "k < length (names_array enum names)"
    and "names_array enum names ! k = Some n"
  shows "n \<in> set names \<and> enum n = k"
proof -
  let ?in = "map (\<lambda>n. (enum n, n)) names"
  have d: "distinct (map fst ?in)" using assms(1,2) by (simp add: comp_def distinct_map)
  have "map_of ?in k = Some n"
    using designated_nth [OF d, of k] assms(3,4) by (simp add: names_array_def)
  then have "(k, n) \<in> set ?in" by (rule map_of_SomeD)
  then show ?thesis by auto
qed

lemma lookup_from_found:
  assumes "j < length ns" and "ns ! j = Some s" and "strcasecmp_eq s name"
    and "\<And>k t. k < length ns \<Longrightarrow> ns ! k = Some t \<Longrightarrow> strcasecmp_eq t name \<Longrightarrow> k = j"
  shows "lookup_from i ns name = int (i + j)"
  using assms
proof (induction ns arbitrary: i j)
  case (Cons n ns)
  show ?case
  proof (cases j)
    case 0
    then show ?thesis using Cons.prems by simp
  next
    case (Suc j')
    have nomatch: "\<not> strcasecmp_eq t name" if "n = Some t" for t
      using Cons.prems(4) [of 0 t] that Suc by auto
    have "lookup_from (Suc i) ns name = int (Suc i + j')"
    proof (rule Cons.IH)
      show "k = j'" if "k < length ns" "ns ! k = Some t" "strcasecmp_eq t name" for k t
        using Cons.prems(4) [of "Suc k" t] that Suc by simp
    qed (use Cons.prems Suc in auto)
    then show ?thesis using nomatch Suc by (cases n) simp_all
  qed
qed simp

text \<open>No two names of a table are equal up to case.\<close>

definition case_distinct :: "string list \<Rightarrow> bool" where
  "case_distinct names \<longleftrightarrow> distinct (map (map c_tolower) names)"

lemma tables_case_distinct: "case_distinct tx_names" "case_distinct rx_names"
  by code_simp+

lemma lookup_value_name:
  assumes "case_distinct names" and "inj_on enum (set names)" and "n \<in> set names" and "strcasecmp_eq n arg"
  shows "lookup_value (names_array enum names) arg = int (enum n)"
    and "lookup_name (names_array enum names) (int (enum n)) = Some n"
proof -
  have d: "distinct names" using assms(1) by (simp add: case_distinct_def distinct_map)
  note at = names_array_nth [OF assms(2) d assms(3)]
  have uniq: "k = enum n" if "k < length (names_array enum names)" "names_array enum names ! k = Some t"
      "strcasecmp_eq t arg" for k t
  proof -
    have t: "t \<in> set names" "enum t = k" using names_array_range [OF assms(2) d that(1,2)] by auto
    have "map c_tolower t = map c_tolower n" using that(3) assms(4) by (simp add: strcasecmp_eq_def)
    then have "t = n"
      using t(1) assms(1,3) by (simp add: case_distinct_def distinct_map inj_on_def)
    then show ?thesis using t(2) by simp
  qed
  show "lookup_value (names_array enum names) arg = int (enum n)"
    using lookup_from_found [of "enum n" "names_array enum names" n arg 0] at assms(4) uniq
    by (simp add: lookup_value_def)
  show "lookup_name (names_array enum names) (int (enum n)) = Some n"
    using at by (simp add: lookup_name_def)
qed

text \<open>
  C31. Names and values fit together: whatever distinct values the kernel gives its enumerators,
  a configuration named in the tables, in any mixture of cases, reaches the driver as the value
  of the enumerator with that name, and if the driver takes it as it is, the report prints the
  names as the tables spell them.
\<close>

theorem hwtstamp_set_reports:
  assumes "inj_on (h_tx e) (set tx_names)" and "inj_on (h_rx e) (set rx_names)"
    and "t \<in> set tx_names" and "r \<in> set rx_names" and "strcasecmp_eq t targ" and "strcasecmp_eq r rarg"
    and "length ifname < 16" and "h_socket e"
    and driver: "h_ioctl e ifname (SIOCSHWTSTAMP \<lparr>flags = 0, tx_type = int (h_tx e t), rx_filter = int (h_rx e r)\<rparr>)
      = Some \<lparr>flags = 0, tx_type = int (h_tx e t), rx_filter = int (h_rx e r)\<rparr>"
  shows "hwtstamp_main e [ifname, targ, rarg] = (0, [HwFlags 0, HwTx (Inl t), HwRx (Inl r)])"
proof -
  note tx = lookup_value_name [OF tables_case_distinct(1) assms(1,3,5)]
  note rx = lookup_value_name [OF tables_case_distinct(2) assms(2,4,6)]
  show ?thesis
    using assms(7-9) tx rx
    by (simp add: hwtstamp_main_def hw_do_def hw_report_def name_or_value_def tx_types_def rx_filters_def Let_def)
qed

text \<open>The enumerators in the order of the tables, and a driver that takes any configuration.\<close>

definition sample_hw :: hw_env where
  "sample_hw = \<lparr>h_tx = (\<lambda>n. length (takeWhile (\<lambda>m. m \<noteq> n) tx_names)),
     h_rx = (\<lambda>n. length (takeWhile (\<lambda>m. m \<noteq> n) rx_names)), h_socket = True,
     h_ioctl = (\<lambda>_ r. case r of SIOCSHWTSTAMP c \<Rightarrow> Some c | SIOCGHWTSTAMP \<Rightarrow> None)\<rparr>"

theorem hwtstamp_set_reports_witness:
  "hwtstamp_main sample_hw [''eth0'', ''on'', ''ptp_v2_event''] = (0, [HwFlags 0, HwTx (Inl ''ON''), HwRx (Inl ''PTP_V2_EVENT'')])"
proof (rule hwtstamp_set_reports)
  show "inj_on (h_tx sample_hw) (set tx_names)" by code_simp
  show "inj_on (h_rx sample_hw) (set rx_names)" by code_simp
  show "strcasecmp_eq ''ON'' ''on''" "strcasecmp_eq ''PTP_V2_EVENT'' ''ptp_v2_event''" by code_simp+
qed (simp_all add: tx_names_def rx_names_def sample_hw_def)

end
