(* ===== verification/Timestamping.thy ===== *)
theory Timestamping
  imports Io_Trace Hwtstamp_Config
begin

text \<open>
  Model of \<open>src/Documentation/networking/timestamping/timestamping.c\<close>, which sends a PTP
  packet every five seconds and prints the time stamps of sent and received packets: options,
  the set-up of the socket as a sequence of calls that must succeed, the printing of a received
  packet, and the turns of the endless loop. The kernel's flag values are an argument.
\<close>

section \<open>Options\<close>

record ts_abi =
  TX_HARDWARE :: u32
  TX_SOFTWARE :: u32
  RX_HARDWARE :: u32
  RX_SOFTWARE :: u32
  SOFTWARE :: u32
  RAW_HARDWARE :: u32

record ts_opts =
  so_timestamping_flags :: u32
  so_timestamp :: bool
  so_timestampns :: bool
  siocgstamp :: bool
  siocgstampns :: bool
  ip_multicast_loop :: bool

definition ts_no_opts :: ts_opts where
  "ts_no_opts = \<lparr>so_timestamping_flags = 0, so_timestamp = False, so_timestampns = False, siocgstamp = False,
     siocgstampns = False, ip_multicast_loop = False\<rparr>"

definition ts_option :: "ts_abi \<Rightarrow> string \<Rightarrow> ts_opts \<Rightarrow> ts_opts option" where
  "ts_option abi arg p =
     (let flag = (\<lambda>f. Some (p\<lparr>so_timestamping_flags := so_timestamping_flags p OR f\<rparr>)) in
      if strcasecmp_eq arg ''SO_TIMESTAMP'' then Some (p\<lparr>so_timestamp := True\<rparr>)
      else if strcasecmp_eq arg ''SO_TIMESTAMPNS'' then Some (p\<lparr>so_timestampns := True\<rparr>)
      else if strcasecmp_eq arg ''SIOCGSTAMP'' then Some (p\<lparr>siocgstamp := True\<rparr>)
      else if strcasecmp_eq arg ''SIOCGSTAMPNS'' then Some (p\<lparr>siocgstampns := True\<rparr>)
      else if strcasecmp_eq arg ''IP_MULTICAST_LOOP'' then Some (p\<lparr>ip_multicast_loop := True\<rparr>)
      else if strcasecmp_eq arg ''SOF_TIMESTAMPING_TX_HARDWARE'' then flag (TX_HARDWARE abi)
      else if strcasecmp_eq arg ''SOF_TIMESTAMPING_TX_SOFTWARE'' then flag (TX_SOFTWARE abi)
      else if strcasecmp_eq arg ''SOF_TIMESTAMPING_RX_HARDWARE'' then flag (RX_HARDWARE abi)
      else if strcasecmp_eq arg ''SOF_TIMESTAMPING_RX_SOFTWARE'' then flag (RX_SOFTWARE abi)
      else if strcasecmp_eq arg ''SOF_TIMESTAMPING_SOFTWARE'' then flag (SOFTWARE abi)
      else if strcasecmp_eq arg ''SOF_TIMESTAMPING_RAW_HARDWARE'' then flag (RAW_HARDWARE abi)
      else None)"

section \<open>Set-up\<close>

datatype tx_kind = HWTSTAMP_TX_OFF | HWTSTAMP_TX_ON
datatype rx_kind = HWTSTAMP_FILTER_NONE | HWTSTAMP_FILTER_PTP_V1_L4_SYNC | HWTSTAMP_FILTER_OTHER int

datatype ts_call =
    Socket | GetIfAddr string | SetHwTstamp string tx_kind rx_kind | Bind nat
  | MulticastIf | AddMembership | MulticastLoop bool
  | SetTimestamp | SetTimestampNs | SetTimestamping u32 | SetPktInfo
  | GetTimestamp | GetTimestampNs | GetTimestamping

datatype hw_errno = EINVAL | ENOTSUP | OtherErrno

record ts_ans =
  rc :: int
  a_errno :: hw_errno
  a_val :: u32
  a_tx :: tx_kind
  a_rx :: rx_kind

datatype ts_line =
    Usage "string option" | Bail string | Failed string | HwNotDisabled
  | HwGot tx_kind tx_kind rx_kind rx_kind | SockOpt string u32 | NotExpected u32

type_synonym ts_st = "(ts_call, ts_line) io"
type_synonym ts_sys = "(ts_call, ts_ans) answers"
type_synonym ts_step = "ts_st \<Rightarrow> flow \<times> ts_st"

text \<open>A call whose failure ends the program.\<close>

definition must :: "ts_sys \<Rightarrow> ts_call \<Rightarrow> string \<Rightarrow> ts_step" where
  "must sys c msg s = (if rc (ask sys c s) < 0 then (Return 1, say [Bail msg] (did c s)) else (Next, did c s))"

definition must_if :: "bool \<Rightarrow> ts_sys \<Rightarrow> ts_call \<Rightarrow> string \<Rightarrow> ts_step" where
  "must_if b sys c msg s = (if b then must sys c msg s else (Next, s))"

definition tx_requested :: "ts_abi \<Rightarrow> ts_opts \<Rightarrow> tx_kind" where
  "tx_requested abi p =
     (if so_timestamping_flags p AND TX_HARDWARE abi \<noteq> 0 then HWTSTAMP_TX_ON else HWTSTAMP_TX_OFF)"

definition rx_requested :: "ts_abi \<Rightarrow> ts_opts \<Rightarrow> rx_kind" where
  "rx_requested abi p =
     (if so_timestamping_flags p AND RX_HARDWARE abi \<noteq> 0 then HWTSTAMP_FILTER_PTP_V1_L4_SYNC else HWTSTAMP_FILTER_NONE)"

text \<open>Hardware time stamping that is not wanted may be unsupported; then the request stays as it was.\<close>

definition set_hwtstamp :: "ts_sys \<Rightarrow> ts_abi \<Rightarrow> ts_opts \<Rightarrow> string \<Rightarrow> ts_step" where
  "set_hwtstamp sys abi p interface s =
     (let t = tx_requested abi p; r = rx_requested abi p; c = SetHwTstamp interface t r;
          a = ask sys c s; s1 = did c s in
      if rc a < 0 then
        if (a_errno a = EINVAL \<or> a_errno a = ENOTSUP) \<and> t = HWTSTAMP_TX_OFF \<and> r = HWTSTAMP_FILTER_NONE
        then (Next, say [HwNotDisabled, HwGot t t r r] s1)
        else (Return 1, say [Bail ''SIOCSHWTSTAMP''] s1)
      else (Next, say [HwGot t (a_tx a) r (a_rx a)] s1))"

definition set_pktinfo :: "ts_sys \<Rightarrow> ts_step" where
  "set_pktinfo sys s =
     (Next, if rc (ask sys SetPktInfo s) < 0 then say [Failed ''setsockopt IP_PKTINFO''] (did SetPktInfo s)
            else did SetPktInfo s)"

definition verify_opt :: "ts_sys \<Rightarrow> ts_call \<Rightarrow> string \<Rightarrow> ts_step" where
  "verify_opt sys c name s =
     (let a = ask sys c s in
      (Next, say [if rc a < 0 then Failed (''getsockopt '' @ name) else SockOpt name (a_val a)] (did c s)))"

definition verify_timestamping :: "ts_sys \<Rightarrow> ts_opts \<Rightarrow> ts_step" where
  "verify_timestamping sys p s =
     (let a = ask sys GetTimestamping s; s1 = did GetTimestamping s in
      (Next, if rc a < 0 then say [Failed ''getsockopt SO_TIMESTAMPING''] s1
             else say (SockOpt ''SO_TIMESTAMPING'' (a_val a) #
                       (if a_val a \<noteq> so_timestamping_flags p then [NotExpected (so_timestamping_flags p)] else [])) s1))"

definition ts_setup :: "ts_sys \<Rightarrow> ts_abi \<Rightarrow> ts_opts \<Rightarrow> string \<Rightarrow> ts_step list" where
  "ts_setup sys abi p interface =
     [must sys Socket ''socket'',
      must sys (GetIfAddr (take 16 interface)) ''getting interface IP address'',
      set_hwtstamp sys abi p (take 16 interface),
      must sys (Bind 319) ''bind'',
      must sys MulticastIf ''set multicast'',
      must sys AddMembership ''join multicast group'',
      must sys (MulticastLoop (ip_multicast_loop p)) ''loop multicast'',
      must_if (so_timestamp p) sys SetTimestamp ''setsockopt SO_TIMESTAMP'',
      must_if (so_timestampns p) sys SetTimestampNs ''setsockopt SO_TIMESTAMPNS'',
      must_if (so_timestamping_flags p \<noteq> 0) sys (SetTimestamping (so_timestamping_flags p)) ''setsockopt SO_TIMESTAMPING'',
      set_pktinfo sys,
      verify_opt sys GetTimestamp ''SO_TIMESTAMP'',
      verify_opt sys GetTimestampNs ''SO_TIMESTAMPNS'',
      verify_timestamping sys p]"

text \<open>\<open>main\<close> up to its loop: the outcome and, when it reaches the loop, the options.\<close>

fun ts_parse :: "ts_abi \<Rightarrow> string list \<Rightarrow> ts_opts \<Rightarrow> string + ts_opts" where
  "ts_parse abi [] p = Inr p"
| "ts_parse abi (a # as) p = (case ts_option abi a p of None \<Rightarrow> Inl a | Some p' \<Rightarrow> ts_parse abi as p')"

definition timestamping_start :: "ts_sys \<Rightarrow> ts_abi \<Rightarrow> string list \<Rightarrow> (int \<times> ts_st) + (ts_opts \<times> ts_st)" where
  "timestamping_start sys abi argv =
     (let s = \<lparr>hist = [], out = []\<rparr> in
      case argv of
        [] \<Rightarrow> Inl (1, say [Usage None] s)
      | interface # args \<Rightarrow>
          (case ts_parse abi args ts_no_opts of
             Inl a \<Rightarrow> Inl (1, say [Usage (Some a)] s)
           | Inr p \<Rightarrow>
               (case run_steps (ts_setup sys abi p interface) s of
                  (Return r, s1) \<Rightarrow> Inl (r, s1)
                | (_, s1) \<Rightarrow> Inr (p, s1))))"

section \<open>Packets\<close>

definition sync :: "u8 list" where
  "sync =
    [0, 1, 0, 1, 0x5F, 0x44, 0x46, 0x4C, 0x54, 0, 0, 0, 0, 0, 0, 0,
     0, 0, 0, 0, 1, 1, 0, 1, 2, 3, 4, 5, 0, 1, 0, 0x37,
     0, 0, 0, 8, 0, 0, 0, 0, 0x49, 5, 0xCD, 1, 0x29, 0xB1, 0x8D, 0xB0,
     0, 0, 0, 0, 0, 1, 0, 1, 2, 3, 4, 5, 0, 0, 0, 0x37,
     0, 0, 0, 4, 0x44, 0x46, 0x4C, 0x54, 0, 0, 0xF0, 0x60, 0, 1, 0, 0,
     0, 0, 0, 1, 0, 0, 0xF0, 0x60, 0, 0, 0, 0, 0, 0, 0, 4,
     0x44, 0x46, 0x4C, 0x54, 0, 1, 0, 1, 2, 3, 4, 5, 0, 0, 0, 0,
     0, 0, 0, 0, 0, 0, 0, 0, 0, 0, 0, 0]"

text \<open>Control messages with their payloads.\<close>

datatype ts_cmsg =
    SoTimestamp int int | SoTimestampNs int int | SoTimestamping "int \<times> int" "int \<times> int" "int \<times> int"
  | SolSocket int | IpRecvErr int bool | IpPktInfo nat | IpProtoIp int | OtherLevel int int

datatype bounce = Truncated | OurData | OtherData

datatype pkt_line =
    Received "int \<times> int" bool int nat
  | CmsgLen nat
  | LTimestamp int int | LTimestampNs int int | LTimestamping "int \<times> int" "int \<times> int" | LSocketType int
  | LRecvErr int bool bounce | LPktInfo nat | LIpType int | LOther int int
  | LSiocgstamp "(int \<times> int) option" | LSiocgstampNs "(int \<times> int) option"
  | RecvFailed bool | Sent "int \<times> int" int | SendFailed
  | Select "int \<times> int" int | Selected "int \<times> int" int | ReadyForReading | HasError

text \<open>
  Whether a bounced packet holds ours: its last bytes are compared. \<open>res\<close> is converted to
  \<open>size_t\<close> for the first test.
\<close>

definition bounced :: "int \<Rightarrow> u8 list \<Rightarrow> bounce" where
  "bounced res data =
     (if (word_of_int res :: u64) < of_nat (length sync) then Truncated
      else if take (length sync) (drop (nat res - length sync) data) = sync then OurData
      else OtherData)"

fun cmsg_line :: "int \<Rightarrow> u8 list \<Rightarrow> ts_cmsg \<Rightarrow> pkt_line" where
  "cmsg_line res data (SoTimestamp a b) = LTimestamp a b"
| "cmsg_line res data (SoTimestampNs a b) = LTimestampNs a b"
| "cmsg_line res data (SoTimestamping sw hw raw) = LTimestamping sw raw"
| "cmsg_line res data (SolSocket ty) = LSocketType ty"
| "cmsg_line res data (IpRecvErr origin is_ts) = LRecvErr origin is_ts (bounced res data)"
| "cmsg_line res data (IpPktInfo i) = LPktInfo i"
| "cmsg_line res data (IpProtoIp ty) = LIpType ty"
| "cmsg_line res data (OtherLevel l ty) = LOther l ty"

text \<open>A received message: its data, control messages with their lengths, and the answers after it.\<close>

record rcvd =
  r_res :: int
  r_data :: "u8 list"
  r_now :: "int \<times> int"
  r_controllen :: nat
  r_cmsgs :: "(nat \<times> ts_cmsg) list"
  r_stamp :: "(int \<times> int) option"
  r_stampns :: "(int \<times> int) option"

definition printpacket :: "ts_opts \<Rightarrow> bool \<Rightarrow> rcvd \<Rightarrow> pkt_line list" where
  "printpacket p errqueue r =
     Received (r_now r) errqueue (r_res r) (r_controllen r)
     # concat (map (\<lambda>(len, c). [CmsgLen len, cmsg_line (r_res r) (r_data r) c]) (r_cmsgs r))
     @ (if siocgstamp p then [LSiocgstamp (r_stamp r)] else [])
     @ (if siocgstampns p then [LSiocgstampNs (r_stampns r)] else [])"

definition recvpacket :: "ts_opts \<Rightarrow> bool \<Rightarrow> rcvd \<Rightarrow> pkt_line list" where
  "recvpacket p errqueue r = (if r_res r < 0 then [RecvFailed errqueue] else printpacket p errqueue r)"

section \<open>The loop\<close>

text \<open>
  A turn: the clock, and what follows from it, either the answer of \<open>select\<close> with what can be
  received, or that of \<open>sendto\<close>.
\<close>

record ts_turn =
  u_now :: "int \<times> int"
  u_select :: int
  u_after :: "int \<times> int"
  u_readable :: bool
  u_error :: bool
  u_regular :: rcvd
  u_errqueue :: rcvd
  u_sent :: int

record ts_loop =
  l_next :: int
  l_out :: "pkt_line list"
  l_timeouts :: "(int \<times> int \<times> int) list"
  l_sends :: "(int \<times> int \<times> int) list"

definition delta_us :: "int \<Rightarrow> int \<times> int \<Rightarrow> int" where
  "delta_us nxt now = (nxt - fst now) * 1000000 + (0 - snd now)"

text \<open>What \<open>sendpacket\<close> prints.\<close>

definition sendpacket :: "int \<Rightarrow> int \<times> int \<Rightarrow> pkt_line" where
  "sendpacket res now = (if res < 0 then SendFailed else Sent now res)"

definition loop_turn :: "ts_opts \<Rightarrow> ts_loop \<Rightarrow> ts_turn \<Rightarrow> ts_loop" where
  "loop_turn p l u =
     (let d = delta_us (l_next l) (u_now u) in
      if d > 0 then
        l\<lparr>l_timeouts := l_timeouts l @ [(d, c_quot d 1000000, c_rem d 1000000)],
          l_out := l_out l @ [Select (u_now u) d, Selected (u_after u) (u_select u)]
            @ (if u_select u > 0
               then (if u_readable u then [ReadyForReading] else []) @ (if u_error u then [HasError] else [])
                    @ recvpacket p False (u_regular u) @ recvpacket p True (u_errqueue u)
               else [])\<rparr>
      else
        l\<lparr>l_sends := l_sends l @ [(l_next l, u_now u)],
          l_out := l_out l @ [sendpacket (u_sent u) (u_after u)],
          l_next := l_next l + 5\<rparr>)"

definition loop_start :: "int \<times> int \<Rightarrow> ts_loop" where
  "loop_start now = \<lparr>l_next = c_quot (fst now + 1) 5 * 5, l_out = [], l_timeouts = [], l_sends = []\<rparr>"

section \<open>Schedule\<close>

definition on_schedule :: "int \<Rightarrow> ts_loop \<Rightarrow> bool" where
  "on_schedule slot l \<longleftrightarrow>
     l_next l = slot + 5 * int (length (l_sends l))
     \<and> (\<forall>k < length (l_sends l). case l_sends l ! k of (sl, sec, usec) \<Rightarrow>
          sl = slot + 5 * int k \<and> sl * 1000000 \<le> sec * 1000000 + usec)
     \<and> (\<forall>(d, sec, usec) \<in> set (l_timeouts l). 0 < d \<and> 0 \<le> usec \<and> usec < 1000000 \<and> sec * 1000000 + usec = d)"

lemma timeout_split:
  "0 < d \<Longrightarrow> 0 \<le> c_rem d 1000000 \<and> c_rem d 1000000 < 1000000 \<and> c_quot d 1000000 * 1000000 + c_rem d 1000000 = d"
  by (simp add: c_rem_def c_quot_pos minus_mult_div_eq_mod)

lemma loop_turn_schedule:
  assumes "on_schedule slot l"
  shows "on_schedule slot (loop_turn p l u)"
proof (cases "delta_us (l_next l) (u_now u) > 0")
  case True
  then show ?thesis
    using assms timeout_split [OF True] by (auto simp: on_schedule_def loop_turn_def Let_def)
next
  case False
  then have "l_next l * 1000000 \<le> fst (u_now u) * 1000000 + snd (u_now u)"
    by (simp add: delta_us_def algebra_simps)
  with False assms show ?thesis
    by (auto simp: on_schedule_def loop_turn_def Let_def nth_append less_Suc_eq algebra_simps split: prod.splits)
qed

interpretation ts_machine: inv_machine "loop_turn p" "on_schedule slot" for p slot
  by unfold_locales (rule loop_turn_schedule)



section \<open>Set-up and bounced packets\<close>

text \<open>The calls of a set-up that reaches the loop.\<close>

definition setup_calls :: "ts_abi \<Rightarrow> ts_opts \<Rightarrow> string \<Rightarrow> ts_call list" where
  "setup_calls abi p interface =
     [Socket, GetIfAddr (take 16 interface), SetHwTstamp (take 16 interface) (tx_requested abi p) (rx_requested abi p),
      Bind 319, MulticastIf, AddMembership, MulticastLoop (ip_multicast_loop p)]
     @ (if so_timestamp p then [SetTimestamp] else [])
     @ (if so_timestampns p then [SetTimestampNs] else [])
     @ (if so_timestamping_flags p \<noteq> 0 then [SetTimestamping (so_timestamping_flags p)] else [])
     @ [SetPktInfo, GetTimestamp, GetTimestampNs, GetTimestamping]"

lemma steps_make:
  "makes [c] (must sys c msg)" "makes (if b then [c] else []) (must_if b sys c msg)"
  "makes [SetHwTstamp i (tx_requested abi p) (rx_requested abi p)] (set_hwtstamp sys abi p i)"
  "makes [SetPktInfo] (set_pktinfo sys)" "makes [c] (verify_opt sys c name)"
  "makes [GetTimestamping] (verify_timestamping sys p)"
  by (auto simp: makes_def must_def must_if_def set_hwtstamp_def set_pktinfo_def verify_opt_def
      verify_timestamping_def Let_def split: if_splits)

text \<open>
  A run that reaches the loop has made the calls its options ask for, once each and in the order
  of the code.
\<close>

lemma setup_makes_calls:
  assumes "run_steps (ts_setup sys abi p interface) s = (Next, s')"
  shows "hist s' = hist s @ setup_calls abi p interface"
proof -
  let ?css = "[[Socket], [GetIfAddr (take 16 interface)],
     [SetHwTstamp (take 16 interface) (tx_requested abi p) (rx_requested abi p)], [Bind 319], [MulticastIf],
     [AddMembership], [MulticastLoop (ip_multicast_loop p)], if so_timestamp p then [SetTimestamp] else [],
     if so_timestampns p then [SetTimestampNs] else [],
     if so_timestamping_flags p \<noteq> 0 then [SetTimestamping (so_timestamping_flags p)] else [],
     [SetPktInfo], [GetTimestamp], [GetTimestampNs], [GetTimestamping]]"
  have "list_all2 makes ?css (ts_setup sys abi p interface)"
    unfolding ts_setup_def by (intro list.rel_intros steps_make)
  then have "makes (concat ?css) (run_steps (ts_setup sys abi p interface))" by (rule run_steps_makes)
  then show ?thesis using assms unfolding makes_def setup_calls_def by simp
qed

lemma length_sync: "length sync = 124"
  by (simp add: sync_def)

text \<open>The cry of joy is printed exactly for packets that end in the one sent.\<close>

lemma bounced_our_data:
  assumes "0 \<le> res" and "res \<le> int (length data)" and "length data \<le> 256"
  shows "bounced res data = OurData \<longleftrightarrow> (\<exists>pre. take (nat res) data = pre @ sync)"
proof -
  define n where "n = nat res"
  have n: "res = int n" "n \<le> length data" "n \<le> 256" using assms by (simp_all add: n_def)
  have w: "(word_of_int res :: u64) < of_nat (length sync) \<longleftrightarrow> n < 124"
    using n(3) by (simp add: n(1) length_sync word_less_nat_alt unat_of_nat_u64)
  show ?thesis
  proof (cases "n < 124")
    case True
    then have "length (take n data) < length sync" by (simp add: length_sync)
    then have "\<not> (\<exists>pre. take n data = pre @ sync)" by (metis length_append not_add_less2)
    then show ?thesis using True w by (simp add: bounced_def n_def [symmetric])
  next
    case False
    have t: "take 124 (drop (n - 124) data) = drop (n - 124) (take n data)"
      using False by (simp add: drop_take)
    have "(\<exists>pre. take n data = pre @ sync) \<longleftrightarrow> drop (n - 124) (take n data) = sync"
    proof
      assume "\<exists>pre. take n data = pre @ sync"
      then obtain pre where p: "take n data = pre @ sync" by blast
      then have "length pre = n - 124" using n(2) length_sync by (metis add_diff_cancel_right' length_append length_take min.absorb2)
      then show "drop (n - 124) (take n data) = sync" using p by simp
    next
      assume "drop (n - 124) (take n data) = sync"
      then have "take n data = take (n - 124) (take n data) @ sync" by (metis append_take_drop_id)
      then show "\<exists>pre. take n data = pre @ sync" by blast
    qed
    then show ?thesis
      using False w t by (simp add: bounced_def n_def [symmetric] length_sync)
  qed
qed

end
