(* ===== verification/Spidev_Fdx.thy ===== *)
theory Spidev_Fdx
  imports Io_Trace
begin

text \<open>
  Model of \<open>src/Documentation/spi/spidev_fdx.c\<close>: reads from and full duplex messages to an
  SPI device. The device is an argument: its answer to each call and the bytes it fills in.
\<close>

section \<open>Calls and lines\<close>

text \<open>A message of two transfers: the bytes sent, and the number received.\<close>

datatype spi_call = Open string | RdMode | RdLsb | RdBits | RdSpeed | Message "u8 list" int | Read int | Close

record spi_ans =
  rc :: int
  a_bytes :: "u8 list"
  a_val :: u32

datatype spi_line =
    Usage | Perror string | ShortRead | Stat string u32 u32 bool u32
  | Response int int "u8 list" | ReadBytes int int "u8 list"

type_synonym spi_sys = "(spi_call, spi_ans) answers"
type_synonym spi_st = "(spi_call, spi_line) io"

text \<open>The buffer of 32 zero bytes after the device filled in its first ones.\<close>

definition filled :: "u8 list \<Rightarrow> u8 list \<Rightarrow> u8 list" where
  "filled buf bs = take 32 (bs @ drop (length bs) buf)"

section \<open>Operations\<close>

definition clamp_read :: "int \<Rightarrow> int" where
  "clamp_read len = (if len < 2 then 2 else if len > 32 then 32 else len)"

definition spi_read :: "spi_sys \<Rightarrow> int \<Rightarrow> spi_st \<Rightarrow> spi_st" where
  "spi_read sys len0 s =
     (let len = clamp_read len0; a = ask sys (Read len) s; s1 = did (Read len) s; status = rc a in
      if status < 0 then say [Perror ''read''] s1
      else if status \<noteq> len then say [ShortRead] s1
      else
        let buf = filled (replicate 32 0) (a_bytes a) in
        say [ReadBytes len status ([buf ! 0, buf ! 1] @ take (nat (status - 2)) (drop 2 buf))] s1)"

text \<open>
  The first byte, 0xaa, is sent; the answer is received into the same buffer. The length is
  positive here, so its conversion to \<open>size_t\<close> in the test changes nothing.
\<close>

definition spi_msg :: "spi_sys \<Rightarrow> int \<Rightarrow> spi_st \<Rightarrow> spi_st" where
  "spi_msg sys len0 s =
     (let len = (if len0 > 32 then 32 else len0); c = Message [0xAA] len; a = ask sys c s; s1 = did c s in
      if rc a < 0 then say [Perror ''SPI_IOC_MESSAGE''] s1
      else say [Response len (rc a) (take (nat len) (filled (0xAA # replicate 31 0) (a_bytes a)))] s1)"

definition spi_dumpstat :: "spi_sys \<Rightarrow> string \<Rightarrow> spi_st \<Rightarrow> spi_st" where
  "spi_dumpstat sys name s =
     (let m = ask sys RdMode s; s1 = did RdMode s in
      if rc m < 0 then say [Perror ''SPI rd_mode''] s1
      else
        let l = ask sys RdLsb s1; s2 = did RdLsb s1 in
        if rc l < 0 then say [Perror ''SPI rd_lsb_fist''] s2
        else
          let b = ask sys RdBits s2; s3 = did RdBits s2 in
          if rc b < 0 then say [Perror ''SPI bits_per_word''] s3
          else
            let h = ask sys RdSpeed s3; s4 = did RdSpeed s3 in
            if rc h < 0 then say [Perror ''SPI max_speed_hz''] s4
            else say [Stat name (a_val m) (a_val b) (a_val l \<noteq> 0) (a_val h)] s4)"

section \<open>The program\<close>

record spi_opts =
  readcount :: int
  msglen :: int
  verbose :: nat

text \<open>One option; a negative number is the jump to the usage text.\<close>

definition spi_option :: "char \<times> string \<Rightarrow> spi_opts \<Rightarrow> opt_stop + spi_opts" where
  "spi_option copt p =
     (let number = (\<lambda>k. case atoi (snd copt) of None \<Rightarrow> Inl Undefined | Some n \<Rightarrow> if n < 0 then Inl UsageExit else Inr (k n)) in
      if fst copt = CHR ''m'' then number (\<lambda>n. p\<lparr>msglen := n\<rparr>)
      else if fst copt = CHR ''r'' then number (\<lambda>n. p\<lparr>readcount := n\<rparr>)
      else if fst copt = CHR ''v'' then Inr (p\<lparr>verbose := verbose p + 1\<rparr>)
      else Inl UsageExit)"

text \<open>The value of the program is \<open>None\<close> when an option is undefined.\<close>

definition spidev_main :: "spi_sys \<Rightarrow> (char \<times> string) list \<Rightarrow> string list \<Rightarrow> int option \<times> spi_st" where
  "spidev_main sys copts rest =
     (let s = \<lparr>hist = [], out = []\<rparr> in
      case scan_with spi_option copts \<lparr>readcount = 0, msglen = 0, verbose = 0\<rparr> of
        Inl Undefined \<Rightarrow> (None, s)
      | Inl UsageExit \<Rightarrow> (Some 1, say [Usage] s)
      | Inr p \<Rightarrow>
          (case rest of
             [name] \<Rightarrow>
               let c = Open name; s1 = did c s in
               if rc (ask sys c s) < 0 then (Some 1, say [Perror ''open''] s1)
               else
                 let s2 = spi_dumpstat sys name s1;
                     s3 = (if msglen p \<noteq> 0 then spi_msg sys (msglen p) s2 else s2);
                     s4 = (if readcount p \<noteq> 0 then spi_read sys (readcount p) s3 else s3)
                 in (Some 0, did Close s4)
           | _ \<Rightarrow> (Some 1, say [Usage] s)))"

section \<open>Bounds\<close>

text \<open>What the program may ask of the device and print: never more than its buffer holds.\<close>

fun call_fits :: "spi_call \<Rightarrow> bool" where
  "call_fits (Message tx len) \<longleftrightarrow> tx = [0xAA] \<and> 0 < len \<and> len \<le> 32"
| "call_fits (Read len) \<longleftrightarrow> 2 \<le> len \<and> len \<le> 32"
| "call_fits c \<longleftrightarrow> True"

fun line_fits :: "spi_line \<Rightarrow> bool" where
  "line_fits (Response len status bs) \<longleftrightarrow> int (length bs) = len \<and> 0 < len \<and> len \<le> 32"
| "line_fits (ReadBytes len status bs) \<longleftrightarrow> int (length bs) = len \<and> status = len \<and> len \<le> 32"
| "line_fits l \<longleftrightarrow> True"

definition fits :: "spi_st \<Rightarrow> bool" where
  "fits s \<longleftrightarrow> list_all call_fits (hist s) \<and> list_all line_fits (out s)"

lemma filled_length [simp]: "length buf = 32 \<Longrightarrow> length (filled buf bs) = 32"
  by (simp add: filled_def)

lemma clamp_read_bounds: "2 \<le> clamp_read len" "clamp_read len \<le> 32"
  by (simp_all add: clamp_read_def)

lemma spi_read_fits: "fits s \<Longrightarrow> fits (spi_read sys len s)"
  using clamp_read_bounds [of len] by (simp add: spi_read_def fits_def Let_def)

lemma spi_msg_fits: "0 < len \<Longrightarrow> fits s \<Longrightarrow> fits (spi_msg sys len s)"
  by (simp add: spi_msg_def fits_def Let_def)

lemma spi_dumpstat_fits: "fits s \<Longrightarrow> fits (spi_dumpstat sys name s)"
  by (simp add: spi_dumpstat_def fits_def Let_def)

abbreviation no_close :: "spi_call \<Rightarrow> bool" where "no_close c \<equiv> c \<noteq> Close"

lemma ops_add: "adds no_close s (spi_read sys len s)" "adds no_close s (spi_msg sys len s)" "adds no_close s (spi_dumpstat sys name s)"
  by (simp_all add: adds_def spi_read_def spi_msg_def spi_dumpstat_def Let_def)

lemma spi_options_nonneg:
  assumes "scan_with spi_option copts p = Inr q" and "0 \<le> msglen p"
  shows "0 \<le> msglen q"
  using assms by (rule scan_with_induct) (auto simp: spi_option_def Let_def split: if_splits option.splits)

lemma spi_read_prints:
  assumes "rc (ask sys (Read (clamp_read len)) s) = clamp_read len"
    and "a_bytes (ask sys (Read (clamp_read len)) s) = bs" and "int (length bs) = clamp_read len"
  shows "out (spi_read sys len s) = out s @ [ReadBytes (clamp_read len) (clamp_read len) bs]"
proof -
  have len: "2 \<le> length bs" "length bs \<le> 32" using assms(3) clamp_read_bounds [of len] by linarith+
  then obtain x y zs where bs: "bs = x # y # zs" by (cases bs rule: remdups_adj.cases) auto
  have "filled (replicate 32 0) bs = bs @ drop (length bs) (replicate 32 0)"
    using len by (simp add: filled_def)
  then have "[filled (replicate 32 0) bs ! 0, filled (replicate 32 0) bs ! 1]
      @ take (nat (clamp_read len - 2)) (drop 2 (filled (replicate 32 0) bs)) = bs"
    using assms(3) by (simp add: bs)
  then show ?thesis
    using assms clamp_read_bounds [of len] by (simp add: spi_read_def Let_def)
qed

text \<open>
  Whatever lengths the options ask for, no transfer is longer than the buffer of 32 bytes, a
  read asks for at least two bytes, every byte printed is one of the buffer, and the device is
  closed exactly when it was opened.
\<close>

theorem spidev_main_fits:
  "fits (snd (spidev_main sys copts rest))
   \<and> (let h = hist (snd (spidev_main sys copts rest)) in
      h = [] \<or> (\<exists>name. h = [Open name] \<and> rc (sys [] (Open name)) < 0)
      \<or> (\<exists>name calls. h = Open name # calls @ [Close] \<and> 0 \<le> rc (sys [] (Open name)) \<and> Close \<notin> set calls))"
proof (cases "\<exists>p name. scan_with spi_option copts \<lparr>readcount = 0, msglen = 0, verbose = 0\<rparr> = Inr p \<and> rest = [name]")
  case False
  then have "snd (spidev_main sys copts rest) = say [Usage] \<lparr>hist = [], out = []\<rparr> \<or> snd (spidev_main sys copts rest) = \<lparr>hist = [], out = []\<rparr>"
    by (auto simp: spidev_main_def Let_def split: sum.splits list.splits opt_stop.splits)
  then show ?thesis by (auto simp: fits_def)
next
  case True
  then obtain p name where p: "scan_with spi_option copts \<lparr>readcount = 0, msglen = 0, verbose = 0\<rparr> = Inr p" "rest = [name]"
    by blast
  have n: "0 \<le> msglen p" using spi_options_nonneg [OF p(1)] by simp
  define s1 :: spi_st where "s1 = did (Open name) \<lparr>hist = [], out = []\<rparr>"
  define s2 where "s2 = spi_dumpstat sys name s1"
  define s3 where "s3 = (if msglen p \<noteq> 0 then spi_msg sys (msglen p) s2 else s2)"
  define s4 where "s4 = (if readcount p \<noteq> 0 then spi_read sys (readcount p) s3 else s3)"
  have main: "spidev_main sys copts rest =
      (if rc (sys [] (Open name)) < 0 then (Some 1, say [Perror ''open''] s1) else (Some 0, did Close s4))"
    by (simp add: spidev_main_def p Let_def s1_def s2_def s3_def s4_def)
  have f1: "fits s1" by (simp add: s1_def fits_def)
  have "fits s4"
    unfolding s4_def s3_def s2_def using f1 n by (simp add: spi_read_fits spi_msg_fits spi_dumpstat_fits)
  moreover have "adds no_close s1 s4"
    unfolding s4_def s3_def s2_def by (auto intro: ops_add adds_trans [OF _ ops_add(1)] adds_trans [OF _ ops_add(2)])
  then obtain calls where "hist s4 = Open name # calls" "Close \<notin> set calls"
    by (auto simp: adds_def s1_def list_all_iff)
  ultimately show ?thesis using main f1 by (auto simp: fits_def s1_def Let_def)
qed

theorem spidev_main_fits_witness:
  "(let sys = (\<lambda>h c. \<lparr>rc = (case c of Read n \<Rightarrow> n | _ \<Rightarrow> 3), a_bytes = replicate 32 0x5A, a_val = 8\<rparr>);
        s = snd (spidev_main sys [(CHR ''m'', ''100''), (CHR ''r'', ''1'')] [''/dev/spidev0.0'']) in
    fits s \<and> hist s = [Open ''/dev/spidev0.0'', RdMode, RdLsb, RdBits, RdSpeed, Message [0xAA] 32, Read 2, Close])"
proof -
  let ?sys = "\<lambda>h c. \<lparr>rc = (case c of Read n \<Rightarrow> n | _ \<Rightarrow> 3), a_bytes = replicate 32 0x5A, a_val = 8\<rparr>"
  have "hist (snd (spidev_main ?sys [(CHR ''m'', ''100''), (CHR ''r'', ''1'')] [''/dev/spidev0.0''])) =
      [Open ''/dev/spidev0.0'', RdMode, RdLsb, RdBits, RdSpeed, Message [0xAA] 32, Read 2, Close]"
    by code_simp
  then show ?thesis
    using spidev_main_fits [of ?sys "[(CHR ''m'', ''100''), (CHR ''r'', ''1'')]" "[''/dev/spidev0.0'']"]
    by (simp only: Let_def simp_thms)
qed

end
