(* ===== verification/Spidev_Test.thy ===== *)
theory Spidev_Test
  imports Io_Trace
begin

text \<open>
  Model of \<open>src/Documentation/spi/spidev_test.c\<close>, which sets up an SPI device and makes one
  transfer of 38 bytes. The mode is a 32-bit word; the positions of its flags, which a kernel
  header defines, are an argument. The answers of the device are those of an oracle.
\<close>

unbundle bit_operations_syntax

section \<open>Options\<close>

datatype spi_flag = SPI_CPHA | SPI_CPOL | SPI_LSB_FIRST | SPI_CS_HIGH | SPI_3WIRE | SPI_LOOP | SPI_NO_CS
  | SPI_READY | SPI_TX_DUAL | SPI_TX_QUAD | SPI_RX_DUAL | SPI_RX_QUAD

definition flag :: "(spi_flag \<Rightarrow> nat) \<Rightarrow> spi_flag \<Rightarrow> u32" where
  "flag b f = push_bit (b f) 1"

text \<open>The header gives every flag a bit of its own.\<close>

definition flags_ok :: "(spi_flag \<Rightarrow> nat) \<Rightarrow> bool" where
  "flags_ok b \<longleftrightarrow> inj b \<and> (\<forall>f. b f < 32)"

record spi_set =
  device :: string
  mode :: u32
  bits :: u8
  speed :: u32
  delay :: u16

definition spi_defaults :: spi_set where
  "spi_defaults = \<lparr>device = ''/dev/spidev1.1'', mode = 0, bits = 8, speed = 500000, delay = 0\<rparr>"

text \<open>The cases of the option switch that set a flag.\<close>

definition opt_flag :: "char \<Rightarrow> spi_flag option" where
  "opt_flag c = map_of
     [(CHR ''l'', SPI_LOOP), (CHR ''H'', SPI_CPHA), (CHR ''O'', SPI_CPOL), (CHR ''L'', SPI_LSB_FIRST),
      (CHR ''C'', SPI_CS_HIGH), (CHR ''3'', SPI_3WIRE), (CHR ''N'', SPI_NO_CS), (CHR ''R'', SPI_READY),
      (CHR ''2'', SPI_TX_DUAL), (CHR ''4'', SPI_TX_QUAD)] c"

definition spi_number :: "string \<Rightarrow> (int \<Rightarrow> spi_set) \<Rightarrow> opt_stop + spi_set" where
  "spi_number arg k = (case atoi arg of None \<Rightarrow> Inl Undefined | Some n \<Rightarrow> Inr (k n))"

definition spi_test_opt :: "(spi_flag \<Rightarrow> nat) \<Rightarrow> char \<times> string \<Rightarrow> spi_set \<Rightarrow> opt_stop + spi_set" where
  "spi_test_opt b copt p =
     (let (c, optarg) = copt in
      if c = CHR ''D'' then Inr (p\<lparr>device := optarg\<rparr>)
      else if c = CHR ''s'' then spi_number optarg (\<lambda>n. p\<lparr>speed := of_int n\<rparr>)
      else if c = CHR ''d'' then spi_number optarg (\<lambda>n. p\<lparr>delay := of_int n\<rparr>)
      else if c = CHR ''b'' then spi_number optarg (\<lambda>n. p\<lparr>bits := of_int n\<rparr>)
      else case opt_flag c of
        Some f \<Rightarrow> Inr (p\<lparr>mode := mode p OR flag b f\<rparr>)
      | None \<Rightarrow> Inl UsageExit)"

definition scan_opts :: "(spi_flag \<Rightarrow> nat) \<Rightarrow> (char \<times> string) list \<Rightarrow> spi_set \<Rightarrow> opt_stop + spi_set" where
  "scan_opts b copts p = scan_with (spi_test_opt b) copts p"

definition loop_mode :: "(spi_flag \<Rightarrow> nat) \<Rightarrow> u32 \<Rightarrow> u32" where
  "loop_mode b m =
     (if m AND flag b SPI_LOOP \<noteq> 0 then
        let m1 = (if m AND flag b SPI_TX_DUAL \<noteq> 0 then m OR flag b SPI_RX_DUAL else m) in
        if m1 AND flag b SPI_TX_QUAD \<noteq> 0 then m1 OR flag b SPI_RX_QUAD else m1
      else m)"

definition parse_opts :: "(spi_flag \<Rightarrow> nat) \<Rightarrow> (char \<times> string) list \<Rightarrow> opt_stop + spi_set" where
  "parse_opts b copts =
     (case scan_opts b copts spi_defaults of
        Inl e \<Rightarrow> Inl e
      | Inr p \<Rightarrow> Inr (p\<lparr>mode := loop_mode b (mode p)\<rparr>))"

section \<open>The transfer\<close>

text \<open>\<open>struct spi_ioc_transfer\<close>; of the two buffers, whether they are given.\<close>

record spi_xfer =
  tx_buf :: bool
  rx_buf :: bool
  xfer_len :: nat
  delay_usecs :: u16
  speed_hz :: u32
  bits_per_word :: u8
  tx_nbits :: nat
  rx_nbits :: nat

definition tx_data :: "u8 list" where
  "tx_data = replicate 6 0xFF @ [0x40, 0, 0, 0, 0, 0x95] @ replicate 18 0xFF
     @ [0xDE, 0xAD, 0xBE, 0xEF, 0xBA, 0xAD, 0xF0, 0x0D]"

definition xfer_of :: "(spi_flag \<Rightarrow> nat) \<Rightarrow> spi_set \<Rightarrow> spi_xfer" where
  "xfer_of b p =
     (let on = (\<lambda>f. mode p AND flag b f \<noteq> 0);
          tx_multi = (mode p AND (flag b SPI_TX_QUAD OR flag b SPI_TX_DUAL) \<noteq> 0);
          rx_multi = (mode p AND (flag b SPI_RX_QUAD OR flag b SPI_RX_DUAL) \<noteq> 0)
      in \<lparr>tx_buf = (on SPI_LOOP \<or> tx_multi \<or> \<not> rx_multi), rx_buf = (on SPI_LOOP \<or> \<not> tx_multi),
          xfer_len = length tx_data, delay_usecs = delay p, speed_hz = speed p, bits_per_word = bits p,
          tx_nbits = (if on SPI_TX_QUAD then 4 else if on SPI_TX_DUAL then 2 else 0),
          rx_nbits = (if on SPI_RX_QUAD then 4 else if on SPI_RX_DUAL then 2 else 0)\<rparr>)"

datatype spi_call = Open string | WrMode u32 | RdMode | WrBits u8 | RdBits | WrSpeed u32 | RdSpeed
  | Transfer spi_xfer "u8 list" | Close

record spi_ans =
  rc :: int
  a_val :: u32
  a_bytes :: "u8 list"

text \<open>The printed lines; the speed is printed as a signed number.\<close>

datatype spi_line = Usage | Perror string | Mode u32 | Bits u8 | Speed int int | Newline | Byte u8

type_synonym spi_sys = "(spi_call, spi_ans) answers"
type_synonym spi_st = "(spi_call, spi_line) io"

text \<open>How the program ends: an exit status, \<open>abort\<close>, or no defined end.\<close>

datatype spi_end = Exit int | Abort | NoEnd

text \<open>The receive buffer after the transfer: zeroed before, filled only when it was given.\<close>

definition received :: "spi_xfer \<Rightarrow> u8 list \<Rightarrow> u8 list" where
  "received x bs = (let rx = replicate (length tx_data) 0 in
     if rx_buf x then take (length rx) (bs @ drop (length bs) rx) else rx)"

definition dump :: "u8 list \<Rightarrow> spi_line list" where
  "dump rx = concat (map (\<lambda>i. (if i mod 6 = 0 then [Newline] else []) @ [Byte (rx ! i)]) [0..<length rx]) @ [Newline]"

definition transfer :: "spi_sys \<Rightarrow> (spi_flag \<Rightarrow> nat) \<Rightarrow> spi_set \<Rightarrow> spi_st \<Rightarrow> bool \<times> spi_st" where
  "transfer sys b p s =
     (let x = xfer_of b p; c = Transfer x (if tx_buf x then tx_data else []); a = ask sys c s; s1 = did c s in
      if rc a < 1 then (False, say [Perror ''can't send spi message''] s1)
      else (True, say (dump (received x (a_bytes a))) s1))"

section \<open>The program\<close>

text \<open>One \<open>ioctl\<close> and what follows when it does not fail.\<close>

definition spi_ioctl ::
    "spi_sys \<Rightarrow> spi_call \<Rightarrow> string \<Rightarrow> (spi_ans \<Rightarrow> spi_st \<Rightarrow> spi_end \<times> spi_st) \<Rightarrow> spi_st \<Rightarrow> spi_end \<times> spi_st" where
  "spi_ioctl sys c msg k s =
     (let a = ask sys c s in if rc a = -1 then (Abort, say [Perror msg] (did c s)) else k a (did c s))"

definition spi_setup :: "spi_sys \<Rightarrow> spi_set \<Rightarrow> (int \<Rightarrow> spi_set \<Rightarrow> spi_st \<Rightarrow> spi_end \<times> spi_st) \<Rightarrow> spi_st \<Rightarrow> spi_end \<times> spi_st" where
  "spi_setup sys p k =
     spi_ioctl sys (WrMode (mode p)) ''can't set spi mode'' (\<lambda>_.
     spi_ioctl sys RdMode ''can't get spi mode'' (\<lambda>m.
     spi_ioctl sys (WrBits (bits p)) ''can't set bits per word'' (\<lambda>_.
     spi_ioctl sys RdBits ''can't get bits per word'' (\<lambda>w.
     spi_ioctl sys (WrSpeed (speed p)) ''can't set max speed hz'' (\<lambda>_.
     spi_ioctl sys RdSpeed ''can't get max speed hz'' (\<lambda>v.
       k (rc v) (p\<lparr>mode := a_val m, bits := ucast (a_val w), speed := a_val v\<rparr>)))))))"

definition settings :: "spi_set \<Rightarrow> spi_line list" where
  "settings p = [Mode (mode p), Bits (bits p), Speed (sint (speed p)) (sint (speed p div 1000))]"

definition spi_test_main :: "spi_sys \<Rightarrow> (spi_flag \<Rightarrow> nat) \<Rightarrow> (char \<times> string) list \<Rightarrow> spi_end \<times> spi_st" where
  "spi_test_main sys b copts =
     (let s = \<lparr>hist = [], out = []\<rparr> in
      case parse_opts b copts of
        Inl UsageExit \<Rightarrow> (Exit 1, say [Usage] s)
      | Inl Undefined \<Rightarrow> (NoEnd, s)
      | Inr p \<Rightarrow>
          let c = Open (device p); s1 = did c s in
          if rc (ask sys c s) < 0 then (Abort, say [Perror ''can't open device''] s1)
          else spi_setup sys p (\<lambda>ret p' s2.
            case transfer sys b p' (say (settings p') s2) of
              (False, s3) \<Rightarrow> (Abort, s3)
            | (True, s3) \<Rightarrow> (Exit ret, did Close s3)) s1)"

section \<open>Flags\<close>

lemma bit_flag: "b f < 32 \<Longrightarrow> bit (flag b f) n \<longleftrightarrow> n = b f"
  by (auto simp: flag_def push_bit_eq_mult bit_exp_iff)

lemma flag_on:
  assumes "b f < 32"
  shows "m AND flag b f \<noteq> 0 \<longleftrightarrow> bit m (b f)"
proof -
  have "bit (m AND flag b f) n \<longleftrightarrow> n = b f \<and> bit m n" for n
    using assms by (auto simp: bit_and_iff bit_flag)
  then show ?thesis using assms by (metis bit_0_eq bit_eqI bot_apply bot_bool_def)
qed

lemma flags_on:
  assumes "flags_ok b"
  shows "m AND flag b f \<noteq> 0 \<longleftrightarrow> bit m (b f)"
    and "m AND (flag b f OR flag b g) \<noteq> 0 \<longleftrightarrow> bit m (b f) \<or> bit m (b g)"
    and "bit (m OR flag b f) (b g) \<longleftrightarrow> bit m (b g) \<or> f = g"
proof -
  have l: "b f < 32" "b g < 32" and i: "inj b" using assms by (simp_all add: flags_ok_def)
  show "m AND flag b f \<noteq> 0 \<longleftrightarrow> bit m (b f)" using l by (simp add: flag_on)
  have "m AND (flag b f OR flag b g) = (m AND flag b f) OR (m AND flag b g)" by (rule bit.conj_disj_distrib)
  then show "m AND (flag b f OR flag b g) \<noteq> 0 \<longleftrightarrow> bit m (b f) \<or> bit m (b g)"
    using l by (simp add: or_eq_0_iff flip: flag_on)
  show "bit (m OR flag b f) (b g) \<longleftrightarrow> bit m (b g) \<or> f = g"
    using l i by (auto simp: bit_or_iff bit_flag dest: injD)
qed

text \<open>The characters of a command line that set a flag.\<close>

definition asks :: "(char \<times> string) list \<Rightarrow> spi_flag \<Rightarrow> bool" where
  "asks copts f \<longleftrightarrow> Some f \<in> opt_flag ` fst ` set copts"

lemma opt_flag_other: "opt_flag CHR ''D'' = None" "opt_flag CHR ''s'' = None" "opt_flag CHR ''d'' = None" "opt_flag CHR ''b'' = None"
  by (simp_all add: opt_flag_def)

lemma spi_test_opt_mode:
  assumes "flags_ok b" and "spi_test_opt b c p = Inr p'"
  shows "bit (mode p') (b f) \<longleftrightarrow> bit (mode p) (b f) \<or> opt_flag (fst c) = Some f"
  using assms(2)
  by (auto simp: spi_test_opt_def spi_number_def opt_flag_other flags_on(3) [OF assms(1)]
      split: prod.splits if_splits option.splits)

lemma scan_opts_mode:
  assumes "flags_ok b" and "scan_opts b copts p = Inr q"
  shows "bit (mode q) (b f) \<longleftrightarrow> bit (mode p) (b f) \<or> asks copts f"
  using assms(2) unfolding scan_opts_def
  by (rule scan_with_induct) (auto simp: asks_def spi_test_opt_mode [OF assms(1)])

lemma opt_flag_no_rx: "opt_flag c \<noteq> Some SPI_RX_DUAL" "opt_flag c \<noteq> Some SPI_RX_QUAD"
  by (simp_all add: opt_flag_def)

lemma asks_no_rx [simp]: "\<not> asks copts SPI_RX_DUAL" "\<not> asks copts SPI_RX_QUAD"
  using opt_flag_no_rx by (auto simp: asks_def simp flip: not_Some_eq) (metis opt_flag_no_rx)+

lemma parse_opts_mode:
  assumes "flags_ok b" and "parse_opts b copts = Inr p"
  shows "bit (mode p) (b f) \<longleftrightarrow> asks copts f
    \<or> asks copts SPI_LOOP \<and> (f = SPI_RX_DUAL \<and> asks copts SPI_TX_DUAL \<or> f = SPI_RX_QUAD \<and> asks copts SPI_TX_QUAD)"
proof -
  obtain q where q: "scan_opts b copts spi_defaults = Inr q" "p = q\<lparr>mode := loop_mode b (mode q)\<rparr>"
    using assms(2) by (auto simp: parse_opts_def split: sum.splits)
  have "bit (mode q) (b g) \<longleftrightarrow> asks copts g" for g
    using scan_opts_mode [OF assms(1) q(1), of g] by (simp add: spi_defaults_def)
  then show ?thesis using q(2) by (auto simp: loop_mode_def flags_on [OF assms(1)] Let_def)
qed

section \<open>What is transferred\<close>

text \<open>The shape of the transfer that the options ask for.\<close>

definition shape_ok :: "(char \<times> string) list \<Rightarrow> spi_xfer \<Rightarrow> bool" where
  "shape_ok copts x \<longleftrightarrow>
     tx_buf x \<and> (rx_buf x \<longleftrightarrow> asks copts SPI_LOOP \<or> \<not> asks copts SPI_TX_DUAL \<and> \<not> asks copts SPI_TX_QUAD)
     \<and> tx_nbits x = (if asks copts SPI_TX_QUAD then 4 else if asks copts SPI_TX_DUAL then 2 else 0)
     \<and> rx_nbits x = (if asks copts SPI_LOOP then tx_nbits x else 0) \<and> xfer_len x = 38"

lemma xfer_of_shape:
  assumes "flags_ok b" and "parse_opts b copts = Inr p"
  shows "shape_ok copts (xfer_of b p)"
  using parse_opts_mode [OF assms]
  by (simp add: shape_ok_def xfer_of_def flags_on [OF assms(1)] Let_def tx_data_def)

text \<open>A device that takes the settings and reads them back as written.\<close>

definition keeps :: "spi_sys \<Rightarrow> spi_set \<Rightarrow> bool" where
  "keeps sys p \<longleftrightarrow> (\<forall>h c. 1 \<le> rc (sys h c)) \<and> (\<forall>h. a_val (sys h RdMode) = mode p
     \<and> a_val (sys h RdBits) = ucast (bits p) \<and> a_val (sys h RdSpeed) = speed p)"

lemma ucast_u8_u32: "ucast (ucast (x :: u8) :: u32) = x"
  by (rule bit_word_eqI) (simp add: bit_simps)

lemma length_tx_data: "length tx_data = 38"
  by (simp add: tx_data_def)


primrec sample_flags :: "spi_flag \<Rightarrow> nat" where
  "sample_flags SPI_CPHA = 0"
| "sample_flags SPI_CPOL = 1"
| "sample_flags SPI_CS_HIGH = 2"
| "sample_flags SPI_LSB_FIRST = 3"
| "sample_flags SPI_3WIRE = 4"
| "sample_flags SPI_LOOP = 5"
| "sample_flags SPI_NO_CS = 6"
| "sample_flags SPI_READY = 7"
| "sample_flags SPI_TX_DUAL = 8"
| "sample_flags SPI_TX_QUAD = 9"
| "sample_flags SPI_RX_DUAL = 10"
| "sample_flags SPI_RX_QUAD = 11"

lemma sample_flags_ok: "flags_ok sample_flags"
  unfolding flags_ok_def
proof
  have "x = y" if "sample_flags x = sample_flags y" for x y
    using that by (cases x; cases y; simp)
  then show "inj sample_flags" by (rule injI)
  have "sample_flags f < 32" for f by (cases f) simp_all
  then show "\<forall>f. sample_flags f < 32" ..
qed

text \<open>A quad transfer to a device that keeps its settings.\<close>

definition sample_set :: spi_set where
  "sample_set = \<lparr>device = ''/dev/spidev0.0'', mode = 0x200, bits = 8, speed = 500000, delay = 0\<rparr>"

definition sample_spi :: spi_sys where
  "sample_spi h c = \<lparr>rc = 1, a_val = (case c of RdMode \<Rightarrow> 0x200 | RdBits \<Rightarrow> 8 | _ \<Rightarrow> 500000), a_bytes = replicate 38 0x5A\<rparr>"


end
