(* ===== verification/Watchdog.thy ===== *)
theory Watchdog
  imports Io_Trace
begin

text \<open>
  Model of \<open>watchdog-simple.c\<close> and \<open>watchdog-test.c\<close> under
  \<open>src/Documentation/watchdog/src\<close>: programs that keep a watchdog from resetting the
  machine. Their loops run until a write fails or \<open>SIGINT\<close> arrives; the answers are given turn
  by turn, and \<open>None\<close> says that the loop is still running after the last of them.
\<close>

datatype wd_call = Open | Write | KeepAlive | Sleep nat | Disable | Enable | Close

datatype wd_line = Perror | NotEnabled | CardDisabled | CardEnabled | Help | Ticking | Stopping

type_synonym wd_st = "(wd_call, wd_line) io"

section \<open>watchdog-simple\<close>

text \<open>The loop over the values of \<open>write\<close>.\<close>

fun simple_loop :: "int list \<Rightarrow> wd_st \<Rightarrow> (int \<times> wd_st) option" where
  "simple_loop [] s = None"
| "simple_loop (ret # rets) s =
     (let s1 = did Write s in
      if ret \<noteq> 1 then Some (-1, did Close s1) else simple_loop rets (did (Sleep 10) s1))"

definition simple_main :: "int \<Rightarrow> int list \<Rightarrow> (int \<times> wd_st) option" where
  "simple_main fd rets =
     (let s = did Open \<lparr>hist = [], out = []\<rparr> in
      if fd = -1 then Some (1, say [Perror] s) else simple_loop rets s)"

section \<open>watchdog-test\<close>

definition strncasecmp_eq :: "string \<Rightarrow> string \<Rightarrow> nat \<Rightarrow> bool" where
  "strncasecmp_eq a b n \<longleftrightarrow> strcasecmp_eq (take n a) (take n b)"

definition keep_alive :: "wd_st \<Rightarrow> wd_st" where
  "keep_alive s = did KeepAlive s"

text \<open>The handler of \<open>SIGINT\<close>, which ends the program.\<close>

definition wd_term :: "wd_st \<Rightarrow> int \<times> wd_st" where
  "wd_term s = (0, say [Stopping] (did Close s))"

text \<open>The loop: in each turn \<open>True\<close> says that \<open>SIGINT\<close> arrives during the sleep.\<close>

fun tick_loop :: "bool list \<Rightarrow> wd_st \<Rightarrow> (int \<times> wd_st) option" where
  "tick_loop [] s = None"
| "tick_loop (intr # is) s =
     (let s1 = did (Sleep 1) (keep_alive s) in if intr then Some (wd_term s1) else tick_loop is s1)"

definition watchdog_test_main :: "int \<Rightarrow> bool list \<Rightarrow> string list \<Rightarrow> (int \<times> wd_st) option" where
  "watchdog_test_main fd intrs argv =
     (let s = did Open \<lparr>hist = [], out = []\<rparr> in
      if fd = -1 then Some (-1, say [NotEnabled] s)
      else case argv of
        a # _ \<Rightarrow>
          if strncasecmp_eq a ''-d'' 2 then Some (0, did Close (say [CardDisabled] (did Disable s)))
          else if strncasecmp_eq a ''-e'' 2 then Some (0, did Close (say [CardEnabled] (did Enable s)))
          else Some (0, did Close (say [Help] s))
      | [] \<Rightarrow> tick_loop intrs (say [Ticking] s))"

section \<open>Ticks\<close>

lemma simple_loop_hist:
  "simple_loop (replicate n 1 @ r # rs) s =
     (if r \<noteq> 1 then Some (-1, s\<lparr>hist := hist s @ concat (replicate n [Write, Sleep 10]) @ [Write, Close]\<rparr>)
      else simple_loop rs (s\<lparr>hist := hist s @ concat (replicate (Suc n) [Write, Sleep 10])\<rparr>))"
  by (induction n arbitrary: s) (simp_all add: did_def Let_def replicate_append_same)

text \<open>
  The simple program writes once every ten seconds for as long as its writes succeed, and ends
  at the first that does not, closing the device and returning -1.
\<close>

lemma simple_main_ticks:
  assumes "fd \<noteq> -1" and "r \<noteq> 1"
  shows "simple_main fd (replicate n 1 @ r # rs) =
    Some (-1, \<lparr>hist = Open # concat (replicate n [Write, Sleep 10]) @ [Write, Close], out = []\<rparr>)"
    and "simple_main fd (replicate n 1) = None"
proof -
  show "simple_main fd (replicate n 1 @ r # rs) =
      Some (-1, \<lparr>hist = Open # concat (replicate n [Write, Sleep 10]) @ [Write, Close], out = []\<rparr>)"
    using assms by (simp add: simple_main_def simple_loop_hist Let_def did_def)
  have "simple_loop (replicate n 1) s = None" for s
    by (induction n arbitrary: s) (simp_all add: Let_def)
  then show "simple_main fd (replicate n 1) = None" using assms(1) by (simp add: simple_main_def Let_def)
qed

lemma tick_loop_hist:
  "tick_loop (replicate n False @ True # is) s =
     Some (0, s\<lparr>hist := hist s @ concat (replicate (Suc n) [KeepAlive, Sleep 1]) @ [Close], out := out s @ [Stopping]\<rparr>)"
  by (induction n arbitrary: s) (simp_all add: keep_alive_def wd_term_def did_def say_def Let_def)

text \<open>Without arguments the card is ticked once a second until the interrupt, then closed.\<close>

lemma watchdog_test_ticks:
  "fd \<noteq> -1 \<Longrightarrow> watchdog_test_main fd (replicate n False @ True # is) [] =
     Some (0, \<lparr>hist = Open # concat (replicate (Suc n) [KeepAlive, Sleep 1]) @ [Close], out = [Ticking, Stopping]\<rparr>)"
  by (simp add: watchdog_test_main_def tick_loop_hist Let_def did_def say_def)

end
