(* ===== verification/Disable_Tsc.thy ===== *)
theory Disable_Tsc
  imports Doc_Prelude
begin

text \<open>
  Model of the three programs under \<open>src/Documentation/prctl\<close> that test whether the kernel
  lets a task disable its time stamp counter. What the kernel does is an argument: whether each
  attempt to execute \<open>rdtsc\<close> faults, and whether \<open>prctl\<close> succeeds. Its contract is that
  an attempt faults exactly while the task's counter is disabled. Each stress task is a machine
  that consumes one attempt per step.
\<close>

section \<open>Tasks\<close>

datatype tsc_mode = PR_TSC_ENABLE | PR_TSC_SIGSEGV

text \<open>
  A task goes on, has reported one of the two errors, has left after a failed \<open>prctl\<close>, or
  was killed by a fault that came while \<open>SIGSEGV\<close> was blocked.
\<close>

datatype tsc_result = Going | FailedWhileEnabled | SucceededWhileDisabled | PrctlFailed | Killed

record tsc_task =
  mode :: tsc_mode
  should_segv :: bool
  in_handler :: bool
  result :: tsc_result

record attempt =
  faults :: bool
  prctl_ok :: bool

section \<open>Switching on and off\<close>

text \<open>
  \<open>task\<close> and \<open>sigsegv_cb\<close> of \<open>disable-tsc-on-off-stress-test.c\<close>: in the handler,
  the counter is enabled and read once; then the interrupted instruction is tried again.
\<close>

definition sigsegv_cb :: "attempt \<Rightarrow> tsc_task \<Rightarrow> tsc_task" where
  "sigsegv_cb a t =
     (if \<not> should_segv t then t\<lparr>result := FailedWhileEnabled\<rparr>
      else if \<not> prctl_ok a then t\<lparr>result := PrctlFailed\<rparr>
      else t\<lparr>mode := PR_TSC_ENABLE, should_segv := False, in_handler := True\<rparr>)"

definition on_off_step :: "tsc_task \<Rightarrow> attempt \<Rightarrow> tsc_task" where
  "on_off_step t a =
     (if result t \<noteq> Going then t
      else if in_handler t then (if faults a then t\<lparr>result := Killed\<rparr> else t\<lparr>in_handler := False\<rparr>)
      else if faults a then sigsegv_cb a t
      else if should_segv t then t\<lparr>result := SucceededWhileDisabled\<rparr>
      else if \<not> prctl_ok a then t\<lparr>result := PrctlFailed\<rparr>
      else t\<lparr>mode := PR_TSC_SIGSEGV, should_segv := True\<rparr>)"

definition on_off_start :: tsc_task where
  "on_off_start = \<lparr>mode = PR_TSC_ENABLE, should_segv = False, in_handler = False, result = Going\<rparr>"

section \<open>Context switches\<close>

text \<open>The two kinds of tasks of \<open>disable-tsc-ctxt-sw-stress-test.c\<close>.\<close>

definition segvtask :: "bool \<Rightarrow> tsc_task" where
  "segvtask ok = \<lparr>mode = PR_TSC_SIGSEGV, should_segv = True, in_handler = False,
     result = (if ok then Going else PrctlFailed)\<rparr>"

definition rdtsctask :: "bool \<Rightarrow> tsc_task" where
  "rdtsctask ok = \<lparr>mode = PR_TSC_ENABLE, should_segv = False, in_handler = False,
     result = (if ok then Going else PrctlFailed)\<rparr>"

definition ctxt_step :: "tsc_task \<Rightarrow> attempt \<Rightarrow> tsc_task" where
  "ctxt_step t a =
     (if result t \<noteq> Going then t
      else if should_segv t then (if faults a then t else t\<lparr>result := SucceededWhileDisabled\<rparr>)
      else if faults a then t\<lparr>result := FailedWhileEnabled\<rparr> else t)"

definition ctxt_tasks :: "(nat \<Rightarrow> bool) \<Rightarrow> tsc_task list" where
  "ctxt_tasks ok = map (\<lambda>i. if odd i then segvtask (ok i) else rdtsctask (ok i)) [0..<100]"

definition on_off_tasks :: "tsc_task list" where
  "on_off_tasks = replicate 100 on_off_start"

section \<open>The simple test\<close>

text \<open>
  \<open>disable-tsc-test.c\<close> with \<open>prctl\<close> succeeding: the lines printed. A fault of
  \<open>rdtsc\<close> runs the handler, which enables the counter, and the instruction is executed again.
\<close>

datatype tsc_line = Rdtsc | Segv | TscVal tsc_mode | SetTsc tsc_mode

definition read_tsc :: "(tsc_mode \<Rightarrow> bool) \<Rightarrow> tsc_mode \<Rightarrow> (tsc_mode \<times> tsc_line list) option" where
  "read_tsc faulty m =
     (if \<not> faulty m then Some (m, [Rdtsc])
      else if faulty PR_TSC_ENABLE then None
      else Some (PR_TSC_ENABLE, [Segv, TscVal m, SetTsc PR_TSC_ENABLE, Rdtsc]))"

definition tsc_test_main :: "(tsc_mode \<Rightarrow> bool) \<Rightarrow> tsc_mode \<Rightarrow> tsc_line list option" where
  "tsc_test_main faulty m0 =
     (case read_tsc faulty m0 of
        None \<Rightarrow> None
      | Some (m1, l1) \<Rightarrow>
          (case read_tsc faulty m1 of
             None \<Rightarrow> None
           | Some (m2, l2) \<Rightarrow>
               (case read_tsc faulty PR_TSC_ENABLE of
                  None \<Rightarrow> None
                | Some (m3, l3) \<Rightarrow>
                    (case read_tsc faulty PR_TSC_SIGSEGV of
                       None \<Rightarrow> None
                     | Some (m4, l4) \<Rightarrow>
                         Some (l1 @ [TscVal m1] @ l2 @ [SetTsc PR_TSC_ENABLE] @ l3 @ [SetTsc PR_TSC_SIGSEGV] @ l4)))))"

section \<open>What the tests decide\<close>

text \<open>The attempts made by a task satisfy the kernel's contract.\<close>

fun keeps_contract :: "(tsc_task \<Rightarrow> attempt \<Rightarrow> tsc_task) \<Rightarrow> tsc_task \<Rightarrow> attempt list \<Rightarrow> bool" where
  "keeps_contract step t [] \<longleftrightarrow> True"
| "keeps_contract step t (a # as) \<longleftrightarrow>
     prctl_ok a \<and> (faults a \<longleftrightarrow> mode t = PR_TSC_SIGSEGV) \<and> keeps_contract step (step t a) as"

definition on_off_inv :: "tsc_task \<Rightarrow> bool" where
  "on_off_inv t \<longleftrightarrow> result t = Going \<and> (should_segv t \<longleftrightarrow> mode t = PR_TSC_SIGSEGV) \<and> (in_handler t \<longrightarrow> \<not> should_segv t)"

lemma on_off_step_inv:
  "on_off_inv t \<Longrightarrow> prctl_ok a \<Longrightarrow> (faults a \<longleftrightarrow> mode t = PR_TSC_SIGSEGV) \<Longrightarrow> on_off_inv (on_off_step t a)"
  by (auto simp: on_off_inv_def on_off_step_def sigsegv_cb_def)

lemma on_off_run_inv: "on_off_inv t \<Longrightarrow> keeps_contract on_off_step t as \<Longrightarrow> on_off_inv (foldl on_off_step t as)"
proof (induction as arbitrary: t)
  case (Cons a as)
  then show ?case using on_off_step_inv [of t a] by simp
qed simp

definition ctxt_inv :: "tsc_task \<Rightarrow> bool" where
  "ctxt_inv t \<longleftrightarrow> result t = Going \<and> (should_segv t \<longleftrightarrow> mode t = PR_TSC_SIGSEGV)"

lemma ctxt_run_inv: "ctxt_inv t \<Longrightarrow> keeps_contract ctxt_step t as \<Longrightarrow> ctxt_inv (foldl ctxt_step t as)"
proof (induction as arbitrary: t)
  case (Cons a as)
  have "ctxt_inv (ctxt_step t a)" using Cons.prems by (auto simp: ctxt_inv_def ctxt_step_def)
  then show ?case using Cons by simp
qed simp

lemma on_off_start_inv: "on_off_inv on_off_start"
  by (simp add: on_off_inv_def on_off_start_def)

text \<open>
  C38. The on-off test decides the kernel's contract: while every attempt faults exactly when the
  counter is disabled, the task goes on without output, for any number of attempts, and its flag
  \<open>should_segv\<close> tells the kernel's mode; the first attempt that breaks the contract ends the
  task. It is reported with the right one of the two messages, unless it is the read inside the
  signal handler: then the task is killed without output.
\<close>

theorem on_off_test_decides:
  assumes "keeps_contract on_off_step on_off_start as"
  shows "(let t = foldl on_off_step on_off_start as in
    result t = Going \<and> (should_segv t \<longleftrightarrow> mode t = PR_TSC_SIGSEGV)
    \<and> (\<forall>a. faults a \<noteq> (mode t = PR_TSC_SIGSEGV) \<longrightarrow>
         result (on_off_step t a) =
           (if in_handler t then Killed else if faults a then FailedWhileEnabled else SucceededWhileDisabled)))"
  using on_off_run_inv [OF on_off_start_inv assms]
  by (auto simp: on_off_inv_def on_off_step_def sigsegv_cb_def Let_def)

theorem on_off_test_decides_witness:
  "(let as = [\<lparr>faults = False, prctl_ok = True\<rparr>, \<lparr>faults = True, prctl_ok = True\<rparr>, \<lparr>faults = False, prctl_ok = True\<rparr>,
        \<lparr>faults = False, prctl_ok = True\<rparr>]; t = foldl on_off_step on_off_start as in
    keeps_contract on_off_step on_off_start as \<and> mode t = PR_TSC_SIGSEGV
    \<and> result (on_off_step t \<lparr>faults = False, prctl_ok = True\<rparr>) = SucceededWhileDisabled)"
proof -
  define as where "as = [\<lparr>faults = False, prctl_ok = True\<rparr>, \<lparr>faults = True, prctl_ok = True\<rparr>,
    \<lparr>faults = False, prctl_ok = True\<rparr>, \<lparr>faults = False, prctl_ok = True\<rparr>]"
  have k: "keeps_contract on_off_step on_off_start as"
    by (simp add: as_def on_off_start_def on_off_step_def sigsegv_cb_def)
  have m: "mode (foldl on_off_step on_off_start as) = PR_TSC_SIGSEGV"
      "\<not> in_handler (foldl on_off_step on_off_start as)"
    by (simp_all add: as_def on_off_start_def on_off_step_def sigsegv_cb_def)
  show ?thesis
    using on_off_test_decides [OF k] k m unfolding as_def [symmetric] Let_def by simp
qed

text \<open>The tasks of the other stress test report every breach.\<close>

lemma ctxt_test_decides:
  assumes "keeps_contract ctxt_step t as" and "t = segvtask True \<or> t = rdtsctask True"
  shows "result (foldl ctxt_step t as) = Going"
    and "faults a \<noteq> (mode (foldl ctxt_step t as) = PR_TSC_SIGSEGV) \<Longrightarrow>
      result (ctxt_step (foldl ctxt_step t as) a) \<in> {FailedWhileEnabled, SucceededWhileDisabled}"
proof -
  have "ctxt_inv t" using assms(2) by (auto simp: ctxt_inv_def segvtask_def rdtsctask_def)
  then have inv: "ctxt_inv (foldl ctxt_step t as)" using assms(1) by (rule ctxt_run_inv)
  then show "result (foldl ctxt_step t as) = Going" by (simp add: ctxt_inv_def)
  show "faults a \<noteq> (mode (foldl ctxt_step t as) = PR_TSC_SIGSEGV) \<Longrightarrow>
      result (ctxt_step (foldl ctxt_step t as) a) \<in> {FailedWhileEnabled, SucceededWhileDisabled}"
    using inv by (auto simp: ctxt_inv_def ctxt_step_def)
qed

text \<open>The simple test under the contract, from either mode.\<close>

lemma tsc_test_output:
  assumes "\<And>m. faulty m \<longleftrightarrow> m = PR_TSC_SIGSEGV"
  shows "tsc_test_main faulty PR_TSC_ENABLE =
    Some [Rdtsc, TscVal PR_TSC_ENABLE, Rdtsc, SetTsc PR_TSC_ENABLE, Rdtsc, SetTsc PR_TSC_SIGSEGV,
          Segv, TscVal PR_TSC_SIGSEGV, SetTsc PR_TSC_ENABLE, Rdtsc]"
  by (simp add: tsc_test_main_def read_tsc_def assms)

end
