(* ===== verification/Gptimers_Example.thy ===== *)
theory Gptimers_Example
  imports Doc_Prelude
begin

text \<open>
  Model of \<open>src/Documentation/blackfin/gptimers-example.c\<close>, a module that captures the
  period and width of a waveform with a hardware timer. The registers of the timer and the
  answers of the kernel are arguments.
\<close>

record gptimer_data =
  period :: u32
  width :: u32

record gptimer =
  g_intr :: bool
  g_pwidth :: u32
  g_period :: u32

datatype irqreturn = IRQ_NONE | IRQ_HANDLED

text \<open>The interrupt handler, on the module's data and the timer.\<close>

definition gptimer_example_irq :: "gptimer_data \<times> gptimer \<Rightarrow> irqreturn \<times> gptimer_data \<times> gptimer" where
  "gptimer_example_irq dt =
     (case dt of (d, t) \<Rightarrow>
        if \<not> g_intr t then (IRQ_NONE, d, t)
        else (IRQ_HANDLED, d\<lparr>width := g_pwidth t, period := g_period t\<rparr>, t\<lparr>g_intr := False\<rparr>))"

datatype gp_res = Pins | Irq | Timers

definition gptimer_example_init :: "int \<Rightarrow> int \<Rightarrow> int \<times> gp_res ev list" where
  "gptimer_example_init pins irq =
     (if pins \<noteq> 0 then (pins, [])
      else if irq \<noteq> 0 then (irq, [Acq Pins, Rel Pins])
      else (0, [Acq Pins, Acq Irq, Acq Timers]))"

definition gptimer_example_exit :: "gp_res ev list" where
  "gptimer_example_exit = [Rel Timers, Rel Irq, Rel Pins]"

text \<open>
  Loading the module holds everything or, when it fails, nothing; unloading gives all of it
  back, and stops the timer before its interrupt line goes.
\<close>

lemma gptimer_init_all_or_nothing:
  "run_ev {} (snd (gptimer_example_init pins irq)) =
     Some (if fst (gptimer_example_init pins irq) = 0 then {Pins, Irq, Timers} else {})"
  by (auto simp: gptimer_example_init_def)

lemma gptimer_exit_releases:
  "fst (gptimer_example_init pins irq) = 0 \<Longrightarrow>
     run_ev {} (snd (gptimer_example_init pins irq) @ gptimer_example_exit) = Some {}"
  by (auto simp: gptimer_example_init_def gptimer_example_exit_def split: if_splits)

text \<open>The handler takes an interrupt exactly when its timer raised one, and then clears it.\<close>

lemma gptimer_irq_once:
  "fst (gptimer_example_irq (d, t)) = IRQ_HANDLED \<longleftrightarrow> g_intr t"
  "fst (gptimer_example_irq (snd (gptimer_example_irq (d, t)))) = IRQ_NONE"
  by (simp_all add: gptimer_example_irq_def)

end
