(* ===== verification/Crc32hash.thy ===== *)
theory Crc32hash
  imports Doc_Prelude
begin

unbundle bit_operations_syntax

text \<open>
  Model of \<open>src/Documentation/pcmcia/crc32hash.c\<close>: the bit-serial CRC-32 that hashes
  the product strings of PCMCIA cards, and the command line around it. The lemmas show
  that the bit-serial loop computes the usual table-driven CRC, that it is linear, and
  that no two messages that differ in at most four neighbouring bytes collide.
\<close>

section \<open>The hash\<close>

text \<open>One turn of the inner loop: \<open>crc = (crc >> 1) ^ ((crc & 1) ? 0xedb88320 : 0)\<close>.\<close>

definition crc32_bit :: "u32 \<Rightarrow> u32" where
  "crc32_bit crc = drop_bit 1 crc XOR (if crc AND 1 \<noteq> 0 then 0xedb88320 else 0)"

fun crc32_bits :: "nat \<Rightarrow> u32 \<Rightarrow> u32" where
  "crc32_bits 0 crc = crc"
| "crc32_bits (Suc i) crc = crc32_bits i (crc32_bit crc)"

text \<open>The outer loop \<open>while (len--)\<close> over the bytes \<open>p[0..len)\<close>.\<close>

fun crc32_loop :: "u32 \<Rightarrow> u8 list \<Rightarrow> u32" where
  "crc32_loop crc [] = crc"
| "crc32_loop crc (b # p) = crc32_loop (crc32_bits 8 (crc XOR ucast b)) p"

definition crc32 :: "u8 list \<Rightarrow> u32" where
  "crc32 p = crc32_loop 0 p"

text \<open>
  \<open>main\<close>: the exit status and what is printed. \<open>crc32\<close> takes the length as an
  \<open>unsigned int\<close>, so the \<open>size_t\<close> of \<open>strlen\<close> is reduced modulo \<open>2 ^ 32\<close>.
\<close>

definition bytes_of :: "string \<Rightarrow> u8 list" where
  "bytes_of s = map (\<lambda>c. of_nat (of_char c)) s"

definition crc32hash_main :: "string list \<Rightarrow> int \<times> string" where
  "crc32hash_main argv =
     (if length argv \<noteq> 2 then (-1, ''no string passed as argument'' @ [newline])
      else let s = bytes_of (argv ! 1);
               result = crc32 (take (length s mod 2 ^ 32) s)
           in (0, ''0x'' @ show_hex (unat result) @ [newline]))"

section \<open>Reference: the table-driven CRC\<close>

definition crc32_table :: "u8 \<Rightarrow> u32" where
  "crc32_table n = crc32_bits 8 (ucast n)"

fun crc32_by_table :: "u32 \<Rightarrow> u8 list \<Rightarrow> u32" where
  "crc32_by_table crc [] = crc"
| "crc32_by_table crc (b # p) =
     crc32_by_table (drop_bit 8 crc XOR crc32_table (ucast crc XOR b)) p"

section \<open>Linearity and injectivity of the bit step\<close>

lemma and_one_iff: "x AND 1 \<noteq> (0 :: 'a::len word) \<longleftrightarrow> bit x 0"
  by (simp add: and_one_eq odd_iff_mod_2_eq_one bit_0 flip: odd_iff_mod_2_eq_one)

lemma crc32_bit_alt: "crc32_bit crc = drop_bit 1 crc XOR (if bit crc 0 then 0xedb88320 else 0)"
  by (simp add: crc32_bit_def and_one_iff)

lemma crc32_bit_xor: "crc32_bit (a XOR b) = crc32_bit a XOR crc32_bit b"
  by (simp add: crc32_bit_alt bit_xor_iff drop_bit_xor ac_simps)

lemma crc32_bits_xor: "crc32_bits n (a XOR b) = crc32_bits n a XOR crc32_bits n b"
  by (induction n arbitrary: a b) (auto simp: crc32_bit_xor)

lemma crc32_bits_add: "crc32_bits (m + n) crc = crc32_bits n (crc32_bits m crc)"
  by (induction m arbitrary: crc) auto


lemma crc32_bit_top: "bit (crc32_bit d) 31 \<longleftrightarrow> bit d 0"
proof -
  have "bit (0xedb88320 :: u32) 31" by code_simp
  then show ?thesis
    by (auto simp: crc32_bit_alt bit_xor_iff bit_drop_bit_eq dest: bit_imp_le_length)
qed

lemma crc32_bit_eq_0: "crc32_bit d = 0 \<Longrightarrow> d = 0"
proof (rule bit_word_eqI)
  fix n
  assume z: "crc32_bit d = 0" and n: "n < LENGTH(32)"
  have low: "\<not> bit d 0" using z crc32_bit_top [of d] by simp
  then have shift: "drop_bit 1 d = 0" using z by (simp add: crc32_bit_alt)
  show "bit d n = bit 0 n"
  proof (cases n)
    case 0
    with low show ?thesis by simp
  next
    case (Suc m)
    have "bit (drop_bit 1 d) m = bit d n" by (simp add: bit_drop_bit_eq Suc)
    with shift show ?thesis by simp
  qed
qed

lemma crc32_bits_eq_0: "crc32_bits n d = 0 \<Longrightarrow> d = 0"
  by (induction n arbitrary: d) (auto dest: crc32_bit_eq_0)

lemma crc32_bits_inject: "crc32_bits n a = crc32_bits n b \<longleftrightarrow> a = b"
proof
  assume "crc32_bits n a = crc32_bits n b"
  then have "crc32_bits n (a XOR b) = 0" by (simp add: crc32_bits_xor)
  then have "a XOR b = b XOR b" by (simp add: crc32_bits_eq_0)
  then show "a = b" by (simp only: xor_right_cancel)
qed simp

lemma crc32_loop_inject: "crc32_loop a p = crc32_loop b p \<longleftrightarrow> a = b"
proof (induction p arbitrary: a b)
  case Nil
  show ?case by simp
next
  case (Cons c p)
  show ?case by (simp add: Cons.IH crc32_bits_inject xor_right_cancel del: crc32_bits.simps)
qed

lemma crc32_loop_append: "crc32_loop crc (p @ q) = crc32_loop (crc32_loop crc p) q"
  by (induction p arbitrary: crc) (auto simp del: crc32_bits.simps)

section \<open>Shifting zero bits through the register\<close>

lemma crc32_bit_push: "\<not> bit w 31 \<Longrightarrow> crc32_bit (push_bit 1 w) = w"
proof -
  assume top: "\<not> bit w 31"
  have "\<not> bit (push_bit 1 w) 0" by (subst bit_push_bit_iff) simp
  moreover have "drop_bit 1 (push_bit 1 w) = w"
  proof (rule bit_word_eqI)
    fix n assume "n < LENGTH(32)"
    with top have "n < 31 \<or> \<not> bit w n" by (cases "n = 31") auto
    then show "bit (drop_bit 1 (push_bit 1 w)) n = bit w n"
      by (subst bit_drop_bit_eq, subst o_apply, subst bit_push_bit_iff) auto
  qed
  ultimately show ?thesis by (simp only: crc32_bit_alt if_False xor.right_neutral)
qed

lemma crc32_bits_push:
  "(\<And>i. 32 - n \<le> i \<Longrightarrow> \<not> bit w i) \<Longrightarrow> n \<le> 32 \<Longrightarrow> crc32_bits n (push_bit n w) = w"
proof (induction n arbitrary: w)
  case 0
  show ?case by simp
next
  case (Suc n)
  have "\<not> bit (push_bit n w) 31"
    using Suc.prems by (auto simp: bit_push_bit_iff)
  then have "crc32_bit (push_bit 1 (push_bit n w)) = push_bit n w"
    by (rule crc32_bit_push)
  then have step: "crc32_bit (push_bit (Suc n) w) = push_bit n w"
    by (simp add: push_bit_push_bit)
  have "crc32_bits n (push_bit n w) = w"
    using Suc.prems by (intro Suc.IH) auto
  with step show ?case by simp
qed

lemma split_low_byte:
  "(crc :: u32) XOR ucast (b :: u8) = push_bit 8 (drop_bit 8 crc) XOR ucast (ucast crc XOR b)"
  by (rule bit_word_eqI)
    (auto simp: bit_xor_iff bit_ucast_iff bit_push_bit_iff bit_drop_bit_eq
      dest: bit_imp_le_length)

lemma crc32_byte_table:
  "crc32_bits 8 (crc XOR ucast b) = drop_bit 8 crc XOR crc32_table (ucast crc XOR b)"
proof -
  have "crc32_bits 8 (push_bit 8 (drop_bit 8 crc)) = drop_bit 8 crc"
    by (rule crc32_bits_push) (auto simp: bit_drop_bit_eq dest: bit_imp_le_length)
  then show ?thesis
    by (simp only: split_low_byte [of crc b] crc32_bits_xor crc32_table_def)
qed

lemma of_le_high_bits:
  assumes "8 * length p < 32" and "8 * length p \<le> i"
  shows "\<not> bit (of_le p :: u32) i"
proof -
  have "8 * length p \<le> LENGTH(32)" using assms(1) by simp
  then have "le_bytes (length p) (of_le p :: u32) = p" by (rule le_bytes_of_le)
  with of_le_le_bytes [of "length p" "of_le p :: u32"]
  have "of_le p = (take_bit (8 * length p) (of_le p) :: u32)" by simp
  then have "bit (of_le p :: u32) i = bit (take_bit (8 * length p) (of_le p) :: u32) i"
    by (rule arg_cong)
  with assms(2) show ?thesis by (simp add: bit_take_bit_iff)
qed

lemma crc32_loop_word:
  "length p \<le> 4 \<Longrightarrow> crc32_loop crc p = crc32_bits (8 * length p) (crc XOR of_le p)"
proof (induction p arbitrary: crc)
  case Nil
  show ?case by simp
next
  case (Cons b p)
  let ?w = "of_le p :: u32"
  have "crc32_bits 8 (push_bit 8 ?w) = ?w"
    using Cons.prems of_le_high_bits [of p] by (intro crc32_bits_push) auto
  then have "crc32_bits 8 (crc XOR ucast b) XOR ?w
      = crc32_bits 8 (crc XOR (ucast b XOR push_bit 8 ?w))"
    by (simp add: crc32_bits_xor xor.assoc del: crc32_bits.simps)
  moreover have "ucast b XOR push_bit 8 ?w = (ucast b OR push_bit 8 ?w)"
    by (rule bit_word_eqI)
      (auto simp: bit_xor_iff bit_or_iff bit_ucast_iff bit_push_bit_iff dest: bit_imp_le_length)
  ultimately show ?case
    using Cons by (simp add: crc32_bits_add del: crc32_bits.simps)
qed

lemma crc32_loop_eq_table: "crc32_loop crc p = crc32_by_table crc p"
  by (induction p arbitrary: crc) (auto simp: crc32_byte_table simp del: crc32_bits.simps)

section \<open>Properties\<close>


text \<open>
  C2: burst errors are detected: two messages of the same length that differ only inside
  a window of at most four bytes never have the same hash.
\<close>

theorem crc32_burst_detected:
  assumes "length q = length r" and "length q \<le> 4" and "q \<noteq> r"
  shows "crc32 (p @ q @ s) \<noteq> crc32 (p @ r @ s)"
proof -
  have "(of_le q :: u32) \<noteq> of_le r"
    using assms le_bytes_of_le [of q, where 'a = 32] le_bytes_of_le [of r, where 'a = 32]
    by auto
  then have "crc32_loop c q \<noteq> crc32_loop c r" for c
    using assms by (simp add: crc32_loop_word crc32_bits_inject xor_left_cancel)
  then show ?thesis
    by (simp add: crc32_def crc32_loop_append crc32_loop_inject)
qed

theorem crc32_burst_detected_witness:
  "crc32 ([0x44, 0x75] @ [0x61, 0x6c] @ [0x20]) \<noteq> crc32 ([0x44, 0x75] @ [0x61, 0x6d] @ [0x20])"
  by (rule crc32_burst_detected) simp_all

text \<open>
  C3: the program accepts exactly one argument; it then prints the hash of all its bytes
  in hexadecimal and exits 0 (for arguments below 4 GiB, the range of the length parameter).
\<close>

theorem crc32hash_main_prints:
  assumes "length s < 2 ^ 32"
  shows "crc32hash_main [prog, s] =
     (0, ''0x'' @ show_hex (unat (crc32_by_table 0 (bytes_of s))) @ [newline])"
  using assms
  by (simp add: crc32hash_main_def bytes_of_def crc32_def Let_def crc32_loop_eq_table)


theorem crc32hash_main_prints_witness:
  "crc32hash_main [''crc32hash'', ''Dual Speed''] =
     (0, ''0x'' @ show_hex (unat (crc32_by_table 0 (bytes_of ''Dual Speed''))) @ [newline])"
  by (rule crc32hash_main_prints) simp

end
