(* ===== verification/Cfag12864b.thy ===== *)
theory Cfag12864b
  imports Doc_Prelude
begin

unbundle bit_operations_syntax

text \<open>
  Model of \<open>src/Documentation/auxdisplay/cfag12864b-example.c\<close>: the user-space frame
  buffer of the 128x64 one-bit LCD, its drawing primitives and the six pictures the
  example program shows. A buffer is the list of the 1024 bytes of
  \<open>cfag12864b_buffer\<close>; a drawing primitive returns \<open>None\<close> where the C code would
  write outside that array. The abstract display is the set of lit pixels, and
  every primitive is shown to act on it as its name says.
\<close>

section \<open>The frame buffer\<close>

definition CFAG12864B_WIDTH :: nat where "CFAG12864B_WIDTH = 128"
definition CFAG12864B_HEIGHT :: nat where "CFAG12864B_HEIGHT = 64"
definition CFAG12864B_SIZE :: nat where "CFAG12864B_SIZE = 128 * 64 div 8"
definition CFAG12864B_BPB :: nat where "CFAG12864B_BPB = 8"

lemmas cfag_dims = CFAG12864B_WIDTH_def CFAG12864B_HEIGHT_def CFAG12864B_SIZE_def
  CFAG12864B_BPB_def

definition CFAG12864B_ADDRESS :: "nat \<Rightarrow> nat \<Rightarrow> nat" where
  "CFAG12864B_ADDRESS x y = y * CFAG12864B_WIDTH div CFAG12864B_BPB + x div CFAG12864B_BPB"

definition CFAG12864B_BIT :: "nat \<Rightarrow> u8" where
  "CFAG12864B_BIT n = push_bit n 1"

text \<open>\<open>CFAG12864B_DOCHECK\<close> is undefined in the source, so the check is constantly true.\<close>

definition CFAG12864B_CHECK :: "nat \<Rightarrow> nat \<Rightarrow> bool" where
  "CFAG12864B_CHECK x y = True"

type_synonym frame = "u8 list"

definition cfag12864b_set :: "u8 \<Rightarrow> u8 \<Rightarrow> frame \<Rightarrow> frame option" where
  "cfag12864b_set x y buf =
     (if CFAG12864B_CHECK (unat x) (unat y) then
        let a = CFAG12864B_ADDRESS (unat x) (unat y) in
        if a < length buf
        then Some (buf[a := buf ! a OR CFAG12864B_BIT (unat x mod CFAG12864B_BPB)])
        else None
      else Some buf)"

definition cfag12864b_unset :: "u8 \<Rightarrow> u8 \<Rightarrow> frame \<Rightarrow> frame option" where
  "cfag12864b_unset x y buf =
     (if CFAG12864B_CHECK (unat x) (unat y) then
        let a = CFAG12864B_ADDRESS (unat x) (unat y) in
        if a < length buf
        then Some (buf[a := buf ! a AND NOT (CFAG12864B_BIT (unat x mod CFAG12864B_BPB))])
        else None
      else Some buf)"

definition cfag12864b_isset :: "u8 \<Rightarrow> u8 \<Rightarrow> frame \<Rightarrow> u8 option" where
  "cfag12864b_isset x y buf =
     (if CFAG12864B_CHECK (unat x) (unat y) then
        let a = CFAG12864B_ADDRESS (unat x) (unat y) in
        if a < length buf
        then (if buf ! a AND CFAG12864B_BIT (unat x mod CFAG12864B_BPB) \<noteq> 0 then Some 1 else Some 0)
        else None
      else Some 0)"

definition cfag12864b_not :: "u8 \<Rightarrow> u8 \<Rightarrow> frame \<Rightarrow> frame option" where
  "cfag12864b_not x y buf =
     (case cfag12864b_isset x y buf of
        None \<Rightarrow> None
      | Some r \<Rightarrow> if r \<noteq> 0 then cfag12864b_unset x y buf else cfag12864b_set x y buf)"

definition cfag12864b_fill :: "frame \<Rightarrow> frame" where
  "cfag12864b_fill buf = fold (\<lambda>i b. b[i := 0xFF]) [0..<CFAG12864B_SIZE] buf"

definition cfag12864b_clear :: "frame \<Rightarrow> frame" where
  "cfag12864b_clear buf = fold (\<lambda>i b. b[i := 0]) [0..<CFAG12864B_SIZE] buf"

text \<open>
  \<open>cfag12864b_format\<close>: the byte of row \<open>i\<close>, column \<open>j\<close> is cleared and then one bit
  is set for each of the eight matrix cells that is not zero.
\<close>

definition format_byte :: "u8 list \<Rightarrow> nat \<Rightarrow> nat \<Rightarrow> frame \<Rightarrow> frame" where
  "format_byte matrix i j buf =
     (let k = i * CFAG12864B_WIDTH div CFAG12864B_BPB + j in
      fold (\<lambda>n b. if matrix ! (i * CFAG12864B_WIDTH + j * CFAG12864B_BPB + n) \<noteq> 0
                  then b[k := b ! k OR CFAG12864B_BIT n] else b)
        [0..<CFAG12864B_BPB] (buf[k := 0]))"

definition cfag12864b_format :: "u8 list \<Rightarrow> frame \<Rightarrow> frame" where
  "cfag12864b_format matrix buf =
     fold (\<lambda>i. fold (\<lambda>j. format_byte matrix i j) [0..<CFAG12864B_WIDTH div CFAG12864B_BPB])
       [0..<CFAG12864B_HEIGHT] buf"

section \<open>The six pictures\<close>

definition EXAMPLES :: nat where "EXAMPLES = 6"

definition draw_matrix :: "u8 list" where
  "draw_matrix =
     fold (\<lambda>i. fold (\<lambda>j m. m[j * CFAG12864B_WIDTH + i := 1]) (upto_by 2 CFAG12864B_HEIGHT))
       [0..<CFAG12864B_WIDTH] (replicate (CFAG12864B_WIDTH * CFAG12864B_HEIGHT) 0)"

definition example :: "nat \<Rightarrow> frame \<Rightarrow> frame option" where
  "example n buf =
     (if n > EXAMPLES then Some buf
      else if n = 1 then
        foldO (\<lambda>i. foldO (\<lambda>j. cfag12864b_set (of_nat i) (of_nat j)) (upto_by 2 CFAG12864B_HEIGHT))
          (upto_by 2 CFAG12864B_WIDTH) (cfag12864b_clear buf)
      else if n = 2 then Some (cfag12864b_clear buf)
      else if n = 3 then Some (cfag12864b_format draw_matrix buf)
      else if n = 4 then Some (cfag12864b_fill buf)
      else if n = 5 then
        foldO (\<lambda>i. foldO (\<lambda>j. cfag12864b_unset (of_nat i) (of_nat j)) [0..<CFAG12864B_HEIGHT])
          (upto_by 2 CFAG12864B_WIDTH) buf
      else if n = 6 then
        foldO (\<lambda>i. foldO (\<lambda>j. cfag12864b_not (of_nat i) (of_nat j)) [0..<CFAG12864B_HEIGHT])
          [0..<CFAG12864B_WIDTH] buf
      else Some buf)"

section \<open>Device, session and main\<close>

datatype cfag_res = CfagFd int | CfagMap

record cfag_dev =
  cfag12864b_fd :: int
  cfag12864b_mem :: "frame option"
  cfag12864b_buffer :: frame

text \<open>
  The kernel's answers to \<open>open\<close> (the descriptor, -1 on failure) and \<open>mmap\<close> (the
  mapped bytes, \<open>None\<close> for \<open>MAP_FAILED\<close>) are the environment of \<open>cfag12864b_init\<close>.
\<close>

type_synonym cfag_env = "int \<times> frame option"

definition cfag12864b_init :: "cfag_env \<Rightarrow> cfag_dev \<Rightarrow> int \<times> cfag_dev \<times> cfag_res ev list" where
  "cfag12864b_init env d =
     (let fd = fst env; d1 = d\<lparr>cfag12864b_fd := fd\<rparr> in
      if fd = -1 then (-1, d1, [])
      else let d2 = d1\<lparr>cfag12864b_mem := snd env\<rparr> in
        case snd env of
          None \<Rightarrow> (-2, d2, [Acq (CfagFd fd), Rel (CfagFd fd)])
        | Some _ \<Rightarrow> (0, d2, [Acq (CfagFd fd), Acq CfagMap]))"

definition cfag12864b_exit :: "cfag_dev \<Rightarrow> cfag_dev \<times> cfag_res ev list" where
  "cfag12864b_exit d = (d\<lparr>cfag12864b_mem := None\<rparr>, [Rel CfagMap, Rel (CfagFd (cfag12864b_fd d))])"

definition cfag12864b_blit :: "cfag_dev \<Rightarrow> cfag_dev" where
  "cfag12864b_blit d = d\<lparr>cfag12864b_mem :=
     map_option (\<lambda>m. take CFAG12864B_SIZE (cfag12864b_buffer d) @ drop CFAG12864B_SIZE m)
       (cfag12864b_mem d)\<rparr>"

text \<open>\<open>while (getchar() != '\n');\<close> never ends once the input is exhausted.\<close>

fun wait_enter :: "string \<Rightarrow> string option" where
  "wait_enter [] = None"
| "wait_enter (c # cs) = (if c \<noteq> newline then wait_enter cs else Some cs)"

text \<open>
  The loop of \<open>main\<close> over the examples: the frames on the LCD after each blit, the
  device and the rest of the input; \<open>None\<close> when the program does not get through.
\<close>

fun show_examples ::
  "nat list \<Rightarrow> cfag_dev \<Rightarrow> string \<Rightarrow> (frame option list \<times> cfag_dev \<times> string) option" where
  "show_examples [] d inp = Some ([], d, inp)"
| "show_examples (n # ns) d inp =
     (case example n (cfag12864b_buffer d) of
        None \<Rightarrow> None
      | Some b \<Rightarrow>
          let d' = cfag12864b_blit (d\<lparr>cfag12864b_buffer := b\<rparr>) in
          (case wait_enter inp of
             None \<Rightarrow> None
           | Some inp' \<Rightarrow>
               (case show_examples ns d' inp' of
                  None \<Rightarrow> None
                | Some (fs, d'', rest) \<Rightarrow> Some (cfag12864b_mem d' # fs, d'', rest))))"

definition cfag_main ::
  "cfag_env \<Rightarrow> string list \<Rightarrow> string \<Rightarrow> cfag_dev \<Rightarrow>
     (int \<times> frame option list \<times> cfag_res ev list) option" where
  "cfag_main env argv inp d =
     (if length argv \<noteq> 2 then Some (-1, [], [])
      else case cfag12864b_init env d of
        (r, d', tr) \<Rightarrow>
          if r \<noteq> 0 then Some (-2, [], tr)
          else case show_examples [1..<EXAMPLES + 1] d' inp of
              None \<Rightarrow> None
            | Some (fs, d'', _) \<Rightarrow> Some (0, fs, tr @ snd (cfag12864b_exit d'')))"


section \<open>Pixels\<close>

definition frame_ok :: "frame \<Rightarrow> bool" where
  "frame_ok b \<longleftrightarrow> length b = CFAG12864B_SIZE"

definition px :: "frame \<Rightarrow> nat \<Rightarrow> nat \<Rightarrow> bool" where
  "px b x y = bit (b ! (y * 16 + x div 8)) (x mod 8)"

lemma address_eq: "CFAG12864B_ADDRESS x y = y * 16 + x div 8"
proof -
  have "y * 128 div 8 = y * 16" by simp
  then show ?thesis by (simp add: CFAG12864B_ADDRESS_def cfag_dims)
qed

lemma address_less: "x < 128 \<Longrightarrow> y < 64 \<Longrightarrow> y * 16 + x div 8 < (1024 :: nat)"
  by linarith

lemma address_inj:
  "x < 128 \<Longrightarrow> u < 128 \<Longrightarrow> v * 16 + u div 8 = y * 16 + x div 8 \<longleftrightarrow> v = y \<and> u div 8 = x div (8 :: nat)"
proof -
  assume "x < 128" and "u < 128"
  then have "x div 8 < 16" and "u div 8 < 16" by auto
  then show ?thesis by (intro row_col_inj)
qed

lemma bit_BIT: "m < 8 \<Longrightarrow> bit (CFAG12864B_BIT n) m \<longleftrightarrow> m = n"
  by (auto simp: CFAG12864B_BIT_def bit_exp_iff)

lemma and_BIT: "n < 8 \<Longrightarrow> b AND CFAG12864B_BIT n \<noteq> 0 \<longleftrightarrow> bit b n"
proof -
  assume n: "n < 8"
  have "b AND CFAG12864B_BIT n = 0 \<longleftrightarrow> (\<forall>m < 8. \<not> (bit b m \<and> m = n))"
    by (subst bit_eq_iff) (auto simp: bit_and_iff bit_BIT dest: bit_imp_le_length)
  with n show ?thesis by blast
qed

lemma unat_small_u8 [simp]: "x < 256 \<Longrightarrow> unat (of_nat x :: u8) = x"
  by (simp add: unat_of_nat)

lemma px_update:
  assumes "frame_ok b" "x < 128" "y < 64" "u < 128" "v < 64"
  shows "px (b[y * 16 + x div 8 := w]) u v =
    (if v = y \<and> u div 8 = x div 8 then bit w (u mod 8) else px b u v)"
proof -
  have "y * 16 + x div 8 < length b"
    using assms address_less by (simp add: frame_ok_def cfag_dims)
  then show ?thesis
    using assms address_inj [of x u v y] by (auto simp: px_def nth_list_update)
qed

lemma same_pixel: "u div 8 = x div (8 :: nat) \<Longrightarrow> u mod 8 = x mod 8 \<longleftrightarrow> u = x"
  by (metis div_mult_mod_eq)

section \<open>A pixel-wise operation and the loops that draw with it\<close>

locale pixel_op =
  fixes draw :: "nat \<Rightarrow> nat \<Rightarrow> 'b \<Rightarrow> 'b option"
    and lit :: "'b \<Rightarrow> nat \<Rightarrow> nat \<Rightarrow> bool"
    and ok :: "'b \<Rightarrow> bool"
    and w :: nat
    and h :: nat
    and upd :: "bool \<Rightarrow> bool"
  assumes draw_ok: "ok b \<Longrightarrow> x < w \<Longrightarrow> y < h \<Longrightarrow>
    \<exists>b'. draw x y b = Some b' \<and> ok b' \<and>
      (\<forall>u < w. \<forall>v < h. lit b' u v = (if u = x \<and> v = y then upd (lit b u v) else lit b u v))"
begin

lemma draw_points:
  "distinct pts \<Longrightarrow> (\<And>x y. (x, y) \<in> set pts \<Longrightarrow> x < w \<and> y < h) \<Longrightarrow> ok b \<Longrightarrow>
   \<exists>b'. foldO (\<lambda>(x, y). draw x y) pts b = Some b' \<and> ok b' \<and>
     (\<forall>u < w. \<forall>v < h. lit b' u v = (if (u, v) \<in> set pts then upd (lit b u v) else lit b u v))"
proof (induction pts arbitrary: b)
  case Nil
  then show ?case by simp
next
  case (Cons p pts)
  obtain x y where p: "p = (x, y)" by (cases p)
  with Cons.prems have "x < w" "y < h" by auto
  then obtain b1 where b1: "draw x y b = Some b1" "ok b1"
    and l1: "\<forall>u < w. \<forall>v < h. lit b1 u v = (if u = x \<and> v = y then upd (lit b u v) else lit b u v)"
    using draw_ok Cons.prems(3) by blast
  obtain b' where b': "foldO (\<lambda>(x, y). draw x y) pts b1 = Some b'" "ok b'"
    and l': "\<forall>u < w. \<forall>v < h. lit b' u v =
       (if (u, v) \<in> set pts then upd (lit b1 u v) else lit b1 u v)"
    using Cons.IH [of b1] Cons.prems b1(2) by auto
  have "lit b' u v = (if (u, v) \<in> set (p # pts) then upd (lit b u v) else lit b u v)"
    if "u < w" "v < h" for u v
    using that l1 l' Cons.prems(1) p by (cases "(u, v) = (x, y)") auto
  with b1 b' p show ?case by auto
qed

lemma draw_grid:
  assumes "distinct is" "distinct js" "\<And>i. i \<in> set is \<Longrightarrow> i < w" "\<And>j. j \<in> set js \<Longrightarrow> j < h" "ok b"
  shows "\<exists>b'. foldO (\<lambda>i. foldO (\<lambda>j. draw i j) js) is b = Some b' \<and> ok b' \<and>
     (\<forall>u < w. \<forall>v < h. lit b' u v =
        (if u \<in> set is \<and> v \<in> set js then upd (lit b u v) else lit b u v))"
  using draw_points [of "List.product is js" b] assms
  by (simp add: foldO_concat_map distinct_product)

end


interpretation set_px: pixel_op
  "\<lambda>x y. cfag12864b_set (of_nat x) (of_nat y)" px frame_ok 128 64 "\<lambda>_. True"
proof
  fix b x y assume a: "frame_ok b" "x < (128 :: nat)" "y < (64 :: nat)"
  let ?b = "b[y * 16 + x div 8 := b ! (y * 16 + x div 8) OR CFAG12864B_BIT (x mod 8)]"
  have "cfag12864b_set (of_nat x) (of_nat y) b = Some ?b"
    using a address_less [of x y]
    by (simp add: cfag12864b_set_def CFAG12864B_CHECK_def address_eq unat_small_u8 Let_def
        frame_ok_def cfag_dims)
  moreover have "frame_ok ?b" using a by (simp add: frame_ok_def)
  moreover have "px ?b u v = (if u = x \<and> v = y then True else px b u v)"
    if "u < 128" "v < 64" for u v
    using a that same_pixel [of u x] by (auto simp: px_update bit_or_iff bit_BIT) (auto simp: px_def)
  ultimately show "\<exists>b'. cfag12864b_set (of_nat x) (of_nat y) b = Some b' \<and> frame_ok b' \<and>
      (\<forall>u < 128. \<forall>v < 64. px b' u v = (if u = x \<and> v = y then True else px b u v))"
    by blast
qed

interpretation unset_px: pixel_op
  "\<lambda>x y. cfag12864b_unset (of_nat x) (of_nat y)" px frame_ok 128 64 "\<lambda>_. False"
proof
  fix b x y assume a: "frame_ok b" "x < (128 :: nat)" "y < (64 :: nat)"
  let ?b = "b[y * 16 + x div 8 := b ! (y * 16 + x div 8) AND NOT (CFAG12864B_BIT (x mod 8))]"
  have "cfag12864b_unset (of_nat x) (of_nat y) b = Some ?b"
    using a address_less [of x y]
    by (simp add: cfag12864b_unset_def CFAG12864B_CHECK_def address_eq unat_small_u8 Let_def
        frame_ok_def cfag_dims)
  moreover have "frame_ok ?b" using a by (simp add: frame_ok_def)
  moreover have "px ?b u v = (if u = x \<and> v = y then False else px b u v)"
    if "u < 128" "v < 64" for u v
    using a that same_pixel [of u x]
    by (auto simp: px_update bit_and_iff bit_not_iff bit_BIT) (auto simp: px_def)
  ultimately show "\<exists>b'. cfag12864b_unset (of_nat x) (of_nat y) b = Some b' \<and> frame_ok b' \<and>
      (\<forall>u < 128. \<forall>v < 64. px b' u v = (if u = x \<and> v = y then False else px b u v))"
    by blast
qed

lemma isset_px:
  assumes "frame_ok b" "x < 128" "y < 64"
  shows "cfag12864b_isset (of_nat x) (of_nat y) b = Some (if px b x y then 1 else 0)"
  using assms address_less [of x y]
  by (simp add: cfag12864b_isset_def CFAG12864B_CHECK_def address_eq unat_small_u8 Let_def
      frame_ok_def cfag_dims and_BIT px_def)

interpretation not_px: pixel_op
  "\<lambda>x y. cfag12864b_not (of_nat x) (of_nat y)" px frame_ok 128 64 Not
proof
  fix b x y assume a: "frame_ok b" "x < (128 :: nat)" "y < (64 :: nat)"
  show "\<exists>b'. cfag12864b_not (of_nat x) (of_nat y) b = Some b' \<and> frame_ok b' \<and>
      (\<forall>u < 128. \<forall>v < 64. px b' u v = (if u = x \<and> v = y then \<not> px b u v else px b u v))"
  proof (cases "px b x y")
    case True
    with unset_px.draw_ok [OF a] show ?thesis
      by (auto simp: cfag12864b_not_def isset_px [OF a])
  next
    case False
    with set_px.draw_ok [OF a] show ?thesis
      by (auto simp: cfag12864b_not_def isset_px [OF a])
  qed
qed


section \<open>Whole-frame operations\<close>

lemma fold_upd_all:
  "k \<le> length b \<Longrightarrow> fold (\<lambda>i b. b[i := c]) [0..<k] b = replicate k c @ drop k b"
proof (induction k)
  case 0
  show ?case by simp
next
  case (Suc k)
  then have "fold (\<lambda>i b. b[i := c]) [0..<Suc k] b = (replicate k c @ drop k b)[k := c]" by simp
  also have "drop k b = b ! k # drop (Suc k) b"
    using Suc.prems by (simp add: Cons_nth_drop_Suc)
  finally show ?case by (simp add: list_update_append replicate_append_same)
qed

lemma fill_eq: "frame_ok b \<Longrightarrow> cfag12864b_fill b = replicate CFAG12864B_SIZE 0xFF"
  by (simp add: cfag12864b_fill_def fold_upd_all frame_ok_def)

lemma clear_eq: "frame_ok b \<Longrightarrow> cfag12864b_clear b = replicate CFAG12864B_SIZE 0"
  by (simp add: cfag12864b_clear_def fold_upd_all frame_ok_def)

lemma frame_ok_replicate [simp]: "frame_ok (replicate CFAG12864B_SIZE c)"
  by (simp add: frame_ok_def)

lemma px_replicate:
  assumes "x < 128" "y < 64"
  shows "px (replicate CFAG12864B_SIZE c) x y = bit c (x mod 8)"
  using address_less [OF assms] by (simp add: px_def cfag_dims)

lemma bit_0xFF: "m < 8 \<Longrightarrow> bit (0xFF :: u8) m"
proof -
  assume "m < 8"
  then have "bit (mask 8 :: u8) m" by (simp only: bit_mask_iff) simp
  moreover have "mask 8 = (0xFF :: u8)" by (simp add: mask_eq_exp_minus_1)
  ultimately show ?thesis by (simp only:)
qed

lemma px_full: "x < 128 \<Longrightarrow> y < 64 \<Longrightarrow> px (replicate CFAG12864B_SIZE 0xFF) x y"
  by (simp only: px_replicate) (rule bit_0xFF, simp)

lemma fold_cond_bits:
  "N \<le> 8 \<Longrightarrow> t < 8 \<Longrightarrow>
   bit (fold (\<lambda>n v. if P n then v OR CFAG12864B_BIT n else v) [0..<N] v0) t
     \<longleftrightarrow> bit v0 t \<or> t < N \<and> P t"
  by (induction N) (auto simp: bit_or_iff bit_BIT less_Suc_eq)

lemma fold_upd_one:
  "k < length b \<Longrightarrow>
   fold (\<lambda>n b. if P n then b[k := b ! k OR CFAG12864B_BIT n] else b) ns (b[k := v])
     = b[k := fold (\<lambda>n v. if P n then v OR CFAG12864B_BIT n else v) ns v]"
  by (induction ns arbitrary: v) auto

definition matrix_byte :: "u8 list \<Rightarrow> nat \<Rightarrow> u8" where
  "matrix_byte matrix k =
     fold (\<lambda>n v. if matrix ! (k * 8 + n) \<noteq> 0 then v OR CFAG12864B_BIT n else v) [0..<8] 0"

lemma bit_matrix_byte: "t < 8 \<Longrightarrow> bit (matrix_byte m k) t \<longleftrightarrow> m ! (k * 8 + t) \<noteq> 0"
  by (simp add: matrix_byte_def fold_cond_bits)

lemma format_byte_eq:
  assumes "frame_ok b" "i < 64" "j < 16"
  shows "format_byte m i j b = b[i * 16 + j := matrix_byte m (i * 16 + j)]"
proof -
  have k: "i * 128 div 8 + j = i * 16 + j" by simp
  have len: "i * 16 + j < length b" using assms by (simp add: frame_ok_def cfag_dims)
  have cell: "i * 128 + j * 8 + n = (i * 16 + j) * 8 + n" for n by simp
  show ?thesis
    unfolding format_byte_def matrix_byte_def cfag_dims Let_def k cell
    by (rule fold_upd_one [OF len])
qed

lemma format_row:
  assumes "frame_ok b" "i < 64" "c \<le> 16" "\<And>k. k < i * 16 \<Longrightarrow> b ! k = matrix_byte m k"
  shows "frame_ok (fold (format_byte m i) [0..<c] b)
    \<and> (\<forall>k < i * 16 + c. fold (format_byte m i) [0..<c] b ! k = matrix_byte m k)"
  using assms(3)
proof (induction c)
  case 0
  with assms show ?case by simp
next
  case (Suc c)
  let ?b = "fold (format_byte m i) [0..<c] b"
  from Suc have ok: "frame_ok ?b" and pre: "\<And>k. k < i * 16 + c \<Longrightarrow> ?b ! k = matrix_byte m k"
    by auto
  have step: "fold (format_byte m i) [0..<Suc c] b
      = ?b[i * 16 + c := matrix_byte m (i * 16 + c)]"
    using Suc.prems ok assms(2) by (simp add: format_byte_eq)
  have "i * 16 + c < length ?b"
    using ok Suc.prems assms(2) by (simp add: frame_ok_def cfag_dims)
  with ok pre show ?case
    by (auto simp: step frame_ok_def nth_list_update less_Suc_eq simp del: upt_Suc)
qed

lemma format_rows:
  assumes "frame_ok b" "r \<le> 64"
  shows "frame_ok (fold (\<lambda>i. fold (format_byte m i) [0..<16]) [0..<r] b)
    \<and> (\<forall>k < r * 16. fold (\<lambda>i. fold (format_byte m i) [0..<16]) [0..<r] b ! k = matrix_byte m k)"
  using assms(2)
proof (induction r)
  case 0
  with assms show ?case by simp
next
  case (Suc r)
  let ?b = "fold (\<lambda>i. fold (format_byte m i) [0..<16]) [0..<r] b"
  have "fold (\<lambda>i. fold (format_byte m i) [0..<16]) [0..<Suc r] b = fold (format_byte m r) [0..<16] ?b"
    by (simp only: upt_Suc_append fold_append fold.simps comp_apply id_apply le0)
  with Suc format_row [of ?b r 16 m] show ?case by (simp add: add.commute)
qed

lemma format_px:
  assumes "frame_ok b" "x < 128" "y < 64"
  shows "px (cfag12864b_format m b) x y \<longleftrightarrow> m ! (y * 128 + x) \<noteq> 0"
proof -
  have "cfag12864b_format m b = fold (\<lambda>i. fold (format_byte m i) [0..<16]) [0..<64] b"
    by (simp add: cfag12864b_format_def cfag_dims del: upt_Suc upt_rec_numeral)
  then have "cfag12864b_format m b ! (y * 16 + x div 8) = matrix_byte m (y * 16 + x div 8)"
    using format_rows [OF assms(1), of 64 m] address_less [OF assms(2,3)] by simp
  moreover have "(y * 16 + x div 8) * 8 + x mod 8 = y * 128 + x" by presburger
  ultimately show ?thesis by (simp only: px_def) (simp only: bit_matrix_byte mod_less_divisor)
qed

lemma frame_ok_format: "frame_ok b \<Longrightarrow> frame_ok (cfag12864b_format m b)"
  using format_rows [of b 64 m]
  by (simp add: cfag12864b_format_def cfag_dims del: upt_Suc upt_rec_numeral)

lemma fold_set_const:
  "q < length m \<Longrightarrow> fold (\<lambda>k m. m[k := c]) ks m ! q = (if q \<in> set ks then c else m ! q)"
  by (induction ks arbitrary: m) (auto simp: nth_list_update)

lemma fold_nested_const:
  "fold (\<lambda>i. fold (\<lambda>j m. m[f i j := c]) js) is m
     = fold (\<lambda>k m. m[k := c]) (concat (map (\<lambda>i. map (f i) js) is)) m"
  by (induction "is" arbitrary: m) (auto simp: fold_map comp_def)

lemma mem_grid:
  assumes "x < w"
  shows "y * w + x \<in> set (concat (map (\<lambda>i. map (\<lambda>j. j * w + i) js) [0..<w])) \<longleftrightarrow> y \<in> set js"
  using assms by (auto simp: row_col_inj image_iff)

lemma draw_matrix_cell:
  assumes "x < 128" "y < 64"
  shows "draw_matrix ! (y * 128 + x) = (if even y then 1 else 0)"
proof -
  let ?ks = "concat (map (\<lambda>i. map (\<lambda>j. j * 128 + i) (upto_by 2 64)) [0..<128])"
  have q: "y * 128 + x < 128 * 64" using assms by linarith
  have mem: "y * 128 + x \<in> set ?ks \<longleftrightarrow> even y"
    using assms(2) by (simp only: mem_grid [OF assms(1)] set_upto_by mem_Collect_eq simp_thms)
  have dm: "draw_matrix = fold (\<lambda>k m. m[k := 1]) ?ks (replicate (128 * 64) 0)"
    unfolding draw_matrix_def cfag_dims by (rule fold_nested_const)
  have "draw_matrix ! (y * 128 + x)
      = (if y * 128 + x \<in> set ?ks then 1 else replicate (128 * 64) 0 ! (y * 128 + x))"
    unfolding dm by (rule fold_set_const) (simp only: length_replicate q)
  moreover have "replicate (128 * 64) (0 :: u8) ! (y * 128 + x) = 0"
    by (rule nth_replicate [OF q])
  ultimately show ?thesis by (simp only: mem)
qed

section \<open>The pictures\<close>

definition picture :: "nat \<Rightarrow> nat \<Rightarrow> nat \<Rightarrow> bool" where
  "picture n x y =
     (if n = 1 then even x \<and> even y
      else if n = 2 then False
      else if n = 3 then even y
      else if n = 4 then True
      else if n = 5 then odd x
      else even x)"

definition shows_picture :: "frame \<Rightarrow> nat \<Rightarrow> bool" where
  "shows_picture b n \<longleftrightarrow> frame_ok b \<and> (\<forall>x < 128. \<forall>y < 64. px b x y = picture n x y)"

lemma example_1: "frame_ok b \<Longrightarrow> \<exists>b'. example 1 b = Some b' \<and> shows_picture b' 1"
  using set_px.draw_grid [of "upto_by 2 128" "upto_by 2 64" "replicate CFAG12864B_SIZE 0"]
  by (simp add: example_def EXAMPLES_def clear_eq CFAG12864B_WIDTH_def CFAG12864B_HEIGHT_def
      shows_picture_def picture_def)
    (auto simp: px_replicate split: if_splits)

lemma example_2: "frame_ok b \<Longrightarrow> \<exists>b'. example 2 b = Some b' \<and> shows_picture b' 2"
  by (simp add: example_def EXAMPLES_def clear_eq shows_picture_def picture_def px_replicate)

lemma example_3: "frame_ok b \<Longrightarrow> \<exists>b'. example 3 b = Some b' \<and> shows_picture b' 3"
  by (simp add: example_def EXAMPLES_def shows_picture_def picture_def frame_ok_format format_px
      draw_matrix_cell)

lemma example_4: "frame_ok b \<Longrightarrow> \<exists>b'. example 4 b = Some b' \<and> shows_picture b' 4"
  by (simp add: example_def EXAMPLES_def fill_eq shows_picture_def picture_def px_full)

lemma example_5: "shows_picture b 4 \<Longrightarrow> \<exists>b'. example 5 b = Some b' \<and> shows_picture b' 5"
  using unset_px.draw_grid [of "upto_by 2 128" "[0..<64]" b]
  by (simp add: example_def EXAMPLES_def CFAG12864B_WIDTH_def CFAG12864B_HEIGHT_def
      shows_picture_def picture_def del: upt_Suc upt_rec_numeral)
    (auto split: if_splits)

lemma example_6: "shows_picture b 5 \<Longrightarrow> \<exists>b'. example 6 b = Some b' \<and> shows_picture b' 6"
  using not_px.draw_grid [of "[0..<128]" "[0..<64]" b]
  by (simp add: example_def EXAMPLES_def CFAG12864B_WIDTH_def CFAG12864B_HEIGHT_def
      shows_picture_def picture_def del: upt_Suc upt_rec_numeral)


section \<open>The session\<close>

lemma blit_fd [simp]: "cfag12864b_fd (cfag12864b_blit d) = cfag12864b_fd d"
  by (simp add: cfag12864b_blit_def)

lemma blit_buffer [simp]: "cfag12864b_buffer (cfag12864b_blit d) = cfag12864b_buffer d"
  by (simp add: cfag12864b_blit_def)

lemma blit_mem:
  "cfag12864b_mem d = Some m \<Longrightarrow> length m = CFAG12864B_SIZE \<Longrightarrow> frame_ok (cfag12864b_buffer d)
   \<Longrightarrow> cfag12864b_mem (cfag12864b_blit d) = Some (cfag12864b_buffer d)"
  by (simp add: cfag12864b_blit_def frame_ok_def)

lemma show_examples_fd:
  "show_examples ns d inp = Some (fs, d', rest) \<Longrightarrow> cfag12864b_fd d' = cfag12864b_fd d"
  by (induction ns d inp arbitrary: fs rule: show_examples.induct)
    (fastforce simp: Let_def split: option.splits)+

lemma wait_enter_enough:
  "0 < count_list inp newline \<Longrightarrow>
   \<exists>inp'. wait_enter inp = Some inp' \<and> count_list inp' newline = count_list inp newline - 1"
  by (induction inp rule: wait_enter.induct) auto

lemma wait_enter_stuck: "count_list inp newline = 0 \<Longrightarrow> wait_enter inp = None"
  by (induction inp rule: wait_enter.induct) (auto split: if_splits)

text \<open>Each example draws its picture from the frame the one before it left.\<close>

definition ready_for :: "nat \<Rightarrow> frame \<Rightarrow> bool" where
  "ready_for n b \<longleftrightarrow> frame_ok b \<and> (n \<noteq> 1 \<longrightarrow> shows_picture b (n - 1))"

lemma example_next:
  assumes "1 \<le> n" "n \<le> 6" "ready_for n b"
  shows "\<exists>b'. example n b = Some b' \<and> shows_picture b' n"
proof -
  from assms consider "n = 1" | "n = 2" | "n = 3" | "n = 4" | "n = 5" | "n = 6" by linarith
  then show ?thesis
    using assms(3) example_1 example_2 example_3 example_4 example_5 example_6
    by cases (auto simp: ready_for_def)
qed

lemma show_examples_from:
  assumes "1 \<le> n" "n \<le> 7"
  shows "ready_for n (cfag12864b_buffer d) \<Longrightarrow> cfag12864b_mem d = Some m \<Longrightarrow>
     length m = CFAG12864B_SIZE \<Longrightarrow> 7 - n \<le> count_list inp newline \<Longrightarrow>
     \<exists>fs d' rest. show_examples [n..<7] d inp = Some (fs, d', rest) \<and>
       list_all2 (\<lambda>f k. \<exists>g. f = Some g \<and> shows_picture g k) fs [n..<7]"
  using assms
proof (induction "7 - n" arbitrary: n d m inp)
  case 0
  then show ?case by simp
next
  case (Suc k)
  then have n: "1 \<le> n" "n \<le> 6" by auto
  obtain b where b: "example n (cfag12864b_buffer d) = Some b" "shows_picture b n"
    using example_next [OF n Suc.prems(1)] by blast
  then have ok: "frame_ok b" by (simp add: shows_picture_def)
  let ?d = "cfag12864b_blit (d\<lparr>cfag12864b_buffer := b\<rparr>)"
  have mem: "cfag12864b_mem ?d = Some b" using ok Suc.prems(2,3) by (simp add: blit_mem)
  have "0 < count_list inp newline" using n Suc.prems(4) by linarith
  then obtain inp' where w: "wait_enter inp = Some inp'"
      "count_list inp' newline = count_list inp newline - 1"
    using wait_enter_enough by blast
  have "\<exists>fs d' rest. show_examples [Suc n..<7] ?d inp' = Some (fs, d', rest) \<and>
      list_all2 (\<lambda>f k. \<exists>g. f = Some g \<and> shows_picture g k) fs [Suc n..<7]"
    using Suc.hyps(2) Suc.prems(4) n b(2) ok mem w(2)
    by (intro Suc.hyps(1) [of "Suc n" ?d b inp']) (auto simp: ready_for_def frame_ok_def)
  then obtain fs d' rest where r: "show_examples [Suc n..<7] ?d inp' = Some (fs, d', rest)"
      "list_all2 (\<lambda>f k. \<exists>g. f = Some g \<and> shows_picture g k) fs [Suc n..<7]"
    by blast
  have "[n..<7] = n # [Suc n..<7]" using n by (simp add: upt_conv_Cons)
  with b w r mem show ?case by (simp add: Let_def)
qed

interpretation cfag_session: acquire_release
  "\<lambda>e d. case cfag12864b_init e d of (r, d', tr) \<Rightarrow> (r = 0, d', tr)"
  cfag12864b_exit "\<lambda>d. {CfagFd (cfag12864b_fd d), CfagMap}"
  by unfold_locales
    (auto simp: cfag12864b_init_def cfag12864b_exit_def Let_def trace_simps
      split: if_splits option.splits)

section \<open>Properties\<close>

text \<open>
  C8: inside the 128x64 screen the drawing primitives never leave the buffer and act on
  exactly the one pixel they are given: set lights it, unset darkens it, not inverts it,
  isset reads it, and every other pixel keeps its value.
\<close>

theorem cfag_primitives_refine_pixels:
  assumes "frame_ok b" and "x < 128" and "y < 64"
  shows "\<exists>s u n. cfag12864b_set (of_nat x) (of_nat y) b = Some s
     \<and> cfag12864b_unset (of_nat x) (of_nat y) b = Some u
     \<and> cfag12864b_not (of_nat x) (of_nat y) b = Some n
     \<and> cfag12864b_isset (of_nat x) (of_nat y) b = Some (if px b x y then 1 else 0)
     \<and> (\<forall>i < 128. \<forall>j < 64.
          px s i j = (px b i j \<or> (i, j) = (x, y))
        \<and> px u i j = (px b i j \<and> (i, j) \<noteq> (x, y))
        \<and> px n i j = (px b i j \<noteq> ((i, j) = (x, y))))"
proof -
  from set_px.draw_ok [OF assms] obtain s where s: "cfag12864b_set (of_nat x) (of_nat y) b = Some s"
    "\<forall>i < 128. \<forall>j < 64. px s i j = (if i = x \<and> j = y then True else px b i j)" by blast
  from unset_px.draw_ok [OF assms] obtain u where u: "cfag12864b_unset (of_nat x) (of_nat y) b = Some u"
    "\<forall>i < 128. \<forall>j < 64. px u i j = (if i = x \<and> j = y then False else px b i j)" by blast
  from not_px.draw_ok [OF assms] obtain n where n: "cfag12864b_not (of_nat x) (of_nat y) b = Some n"
    "\<forall>i < 128. \<forall>j < 64. px n i j = (if i = x \<and> j = y then \<not> px b i j else px b i j)" by blast
  from s u n isset_px [OF assms] show ?thesis by auto
qed

theorem cfag_primitives_refine_pixels_witness:
  "\<exists>s. cfag12864b_set 5 7 (replicate CFAG12864B_SIZE 0) = Some s \<and> px s 5 7"
  using cfag_primitives_refine_pixels [of "replicate CFAG12864B_SIZE 0" 5 7] by auto

text \<open>
  C9: with the coordinate check compiled out, a set leaves the buffer exactly when its row is
  beyond 63 (or it is row 63 and the column is beyond 127); a column beyond 127 in an earlier
  row silently lands on the next row.
\<close>

theorem cfag_set_unchecked:
  assumes "frame_ok b"
  shows "(cfag12864b_set x y b = None \<longleftrightarrow> 64 \<le> unat y \<or> unat y = 63 \<and> 128 \<le> unat x)
    \<and> (128 \<le> unat x \<longrightarrow> unat y < 63 \<longrightarrow> cfag12864b_set x y b = cfag12864b_set (x - 128) (y + 1) b)"
proof
  have "unat x < 256" by simp
  then have "1024 \<le> unat y * 16 + unat x div 8 \<longleftrightarrow> 64 \<le> unat y \<or> unat y = 63 \<and> 128 \<le> unat x"
    by linarith
  moreover have "cfag12864b_set x y b = None \<longleftrightarrow> 1024 \<le> unat y * 16 + unat x div 8"
    using assms by (auto simp: cfag12864b_set_def CFAG12864B_CHECK_def address_eq Let_def
        frame_ok_def cfag_dims)
  ultimately show "cfag12864b_set x y b = None \<longleftrightarrow> 64 \<le> unat y \<or> unat y = 63 \<and> 128 \<le> unat x"
    by blast
  show "128 \<le> unat x \<longrightarrow> unat y < 63 \<longrightarrow> cfag12864b_set x y b = cfag12864b_set (x - 128) (y + 1) b"
  proof (intro impI)
    assume x: "128 \<le> unat x" and y: "unat y < 63"
    have "unat (x - 128) = unat x - 128"
      using x unat_sub [of "128 :: u8" x] by (simp add: word_le_nat_alt)
    moreover have "unat (y + 1) = unat y + 1"
      using y by (simp add: unat_word_ariths)
    moreover obtain k where "unat x = k + 128" using x by (metis add.commute le_Suc_ex)
    moreover have "(k + 128) div 8 = k div 8 + 16" and "(k + 128) mod 8 = k mod 8"
      using div_mult_self1 [of 8 k 16] mod_mult_self1 [of k 16 8] by simp_all
    ultimately show "cfag12864b_set x y b = cfag12864b_set (x - 128) (y + 1) b"
      by (simp add: cfag12864b_set_def CFAG12864B_CHECK_def address_eq Let_def cfag_dims ac_simps)
  qed
qed

theorem cfag_set_unchecked_witness:
  "cfag12864b_set 0 64 (replicate CFAG12864B_SIZE 0) = None
   \<and> cfag12864b_set 130 2 (replicate CFAG12864B_SIZE 0) = cfag12864b_set 2 3 (replicate CFAG12864B_SIZE 0)"
  using cfag_set_unchecked [of "replicate CFAG12864B_SIZE 0" 0 64]
    cfag_set_unchecked [of "replicate CFAG12864B_SIZE 0" 130 2]
  by simp

text \<open>
  C6: formatting a 128x64 matrix packs it losslessly: afterwards pixel (x, y) is lit exactly
  when the matrix cell of row y, column x is not zero, whatever the buffer held before.
\<close>

theorem cfag_format_packs:
  assumes "frame_ok b" and "x < 128" and "y < 64"
  shows "cfag12864b_isset (of_nat x) (of_nat y) (cfag12864b_format m b)
    = Some (if m ! (y * CFAG12864B_WIDTH + x) \<noteq> 0 then 1 else 0)"
  using assms by (simp add: isset_px frame_ok_format format_px CFAG12864B_WIDTH_def)

theorem cfag_format_packs_witness:
  "cfag12864b_isset (of_nat 3) (of_nat 4) (cfag12864b_format draw_matrix (replicate CFAG12864B_SIZE 0))
    = Some (if draw_matrix ! (4 * CFAG12864B_WIDTH + 3) \<noteq> 0 then 1 else 0)"
  by (rule cfag_format_packs) simp_all

text \<open>
  C33: a full run of the program: when the device opens and maps and the user presses Enter
  six times, main returns 0, the LCD shows the six announced pictures in order (points, blank,
  rows, full, columns, their negative), and every resource is released.
\<close>

theorem cfag_main_shows_pictures:
  assumes "fd \<noteq> -1" and "length m = CFAG12864B_SIZE" and "frame_ok (cfag12864b_buffer d)"
    and "6 \<le> count_list inp newline"
  shows "\<exists>fs tr. cfag_main (fd, Some m) [prog, path] inp d = Some (0, fs, tr)
    \<and> list_all2 (\<lambda>f k. \<exists>g. f = Some g \<and> shows_picture g k) fs [1..<7]
    \<and> run_ev {} tr = Some {}"
proof -
  let ?d = "d\<lparr>cfag12864b_fd := fd, cfag12864b_mem := Some m\<rparr>"
  have i: "cfag12864b_init (fd, Some m) d = (0, ?d, [Acq (CfagFd fd), Acq CfagMap])"
    using assms(1) by (simp add: cfag12864b_init_def Let_def)
  obtain fs d' rest where r: "show_examples [1..<7] ?d inp = Some (fs, d', rest)"
    "list_all2 (\<lambda>f k. \<exists>g. f = Some g \<and> shows_picture g k) fs [1..<7]"
    using show_examples_from [of 1 ?d m inp] assms by (auto simp: ready_for_def)
  have "cfag12864b_fd d' = fd" using show_examples_fd [OF r(1)] by simp
  then show ?thesis
    using i r by (simp add: cfag_main_def EXAMPLES_def cfag12864b_exit_def trace_simps)
qed

theorem cfag_main_shows_pictures_witness:
  "\<exists>fs tr. cfag_main (3, Some (replicate CFAG12864B_SIZE 0)) [''a.out'', ''/dev/fb0'']
      (replicate 6 newline) \<lparr>cfag12864b_fd = 0, cfag12864b_mem = None,
        cfag12864b_buffer = replicate CFAG12864B_SIZE 0\<rparr> = Some (0, fs, tr)
    \<and> run_ev {} tr = Some {}"
  using cfag_main_shows_pictures [of 3 "replicate CFAG12864B_SIZE 0"
      "\<lparr>cfag12864b_fd = 0, cfag12864b_mem = None, cfag12864b_buffer = replicate CFAG12864B_SIZE 0\<rparr>"
      "replicate 6 newline" "''a.out''" "''/dev/fb0''"]
  by (auto simp: numeral_eq_Suc)

end
