(* ===== verification/Vrl4.thy ===== *)
theory Vrl4
  imports Doc_Prelude
begin

unbundle bit_operations_syntax

text \<open>
  Model of \<open>src/Documentation/arm/SH-Mobile/vrl4.c\<close>, which turns a kernel image on
  standard input into a boot image with a vrl4 header on standard output. The system
  calls \<open>read\<close> and \<open>write\<close> are parameters that act on an arbitrary state \<open>'w\<close> of the
  outside world and may be short, interrupted or failing; every loop that retries is a
  partial function whose value \<open>None\<close> stands for not returning. The host is
  little-endian, so \<open>htole16\<close> and \<open>htole32\<close> store their argument as it is.
\<close>

section \<open>Header and constants\<close>

record hdr =
  magic1 :: u32
  reserved1 :: u32
  magic2 :: u32
  reserved2 :: u32
  copy_size :: u16
  boot_options :: u16
  reserved3 :: u32
  start_address :: u32
  reserved4 :: u32
  reserved5 :: u32
  reserved6 :: "u8 list"

definition DECLARE_HDR :: hdr where
  "DECLARE_HDR = \<lparr>magic1 = 0xea000000, reserved1 = 0x56, magic2 = 0xe59ff008, reserved2 = 0,
     copy_size = 0, boot_options = 0, reserved3 = 0x1, start_address = 0, reserved4 = 0,
     reserved5 = 0, reserved6 = replicate 308 0\<rparr>"

text \<open>The bytes of \<open>struct hdr\<close> in memory: no field needs padding.\<close>

definition hdr_bytes :: "hdr \<Rightarrow> u8 list" where
  "hdr_bytes h = le_bytes 4 (magic1 h) @ le_bytes 4 (reserved1 h) @ le_bytes 4 (magic2 h)
     @ le_bytes 4 (reserved2 h) @ le_bytes 2 (copy_size h) @ le_bytes 2 (boot_options h)
     @ le_bytes 4 (reserved3 h) @ le_bytes 4 (start_address h) @ le_bytes 4 (reserved4 h)
     @ le_bytes 4 (reserved5 h) @ reserved6 h"

definition sizeof_hdr :: nat where "sizeof_hdr = 344"

definition ALIGN_BITS :: nat where "ALIGN_BITS = 9"
definition ALIGN :: u64 where "ALIGN = push_bit ALIGN_BITS 1"
definition START_BASE :: u32 where "START_BASE = 0xe55b0000"
definition MAX_BOOT_PROG_LEN :: nat where "MAX_BOOT_PROG_LEN = 16 * 512"

definition ROUND_UP :: "u64 \<Rightarrow> u64" where
  "ROUND_UP x = (x + ALIGN - 1) AND NOT (ALIGN - 1)"

section \<open>Retrying reads and writes\<close>

datatype errno = EAGAIN | EWOULDBLOCK | EOTHER

type_synonym 'w read_call = "'w \<Rightarrow> nat \<Rightarrow> (errno + u8 list) \<times> 'w"
type_synonym 'w write_call = "'w \<Rightarrow> u8 list \<Rightarrow> (errno + nat) \<times> 'w"

text \<open>
  \<open>do_read\<close>: \<open>acc\<close> is what the buffer holds so far, so \<open>offset\<close> is its length.
  \<open>Inl ()\<close> is the return value -1.
\<close>

partial_function (option) do_read_loop ::
  "'w read_call \<Rightarrow> nat \<Rightarrow> u8 list \<Rightarrow> 'w \<Rightarrow> ((unit + u8 list) \<times> 'w) option" where
  "do_read_loop rd cnt acc w =
     (if length acc < cnt then
        (case rd w (cnt - length acc) of
           (Inr bs, w') \<Rightarrow>
             if bs = [] then Some (Inr acc, w') else do_read_loop rd cnt (acc @ bs) w'
         | (Inl e, w') \<Rightarrow>
             if e = EAGAIN \<or> e = EWOULDBLOCK then do_read_loop rd cnt acc w'
             else Some (Inl (), w'))
      else Some (Inr acc, w))"

definition do_read :: "'w read_call \<Rightarrow> nat \<Rightarrow> 'w \<Rightarrow> ((unit + u8 list) \<times> 'w) option" where
  "do_read rd cnt w = do_read_loop rd cnt [] w"

text \<open>\<open>do_write\<close>: \<open>done\<close> is \<open>offset\<close>, \<open>rest\<close> the bytes from \<open>buf + offset\<close> on.\<close>

partial_function (option) do_write_loop ::
  "'w write_call \<Rightarrow> nat \<Rightarrow> u8 list \<Rightarrow> 'w \<Rightarrow> ((unit + nat) \<times> 'w) option" where
  "do_write_loop wr offset rest w =
     (if rest \<noteq> [] then
        (case wr w rest of
           (Inr l, w') \<Rightarrow> do_write_loop wr (offset + l) (drop l rest) w'
         | (Inl e, w') \<Rightarrow>
             if e = EAGAIN \<or> e = EWOULDBLOCK then do_write_loop wr offset rest w'
             else Some (Inl (), w'))
      else Some (Inr offset, w))"

definition do_write :: "'w write_call \<Rightarrow> u8 list \<Rightarrow> 'w \<Rightarrow> ((unit + nat) \<times> 'w) option" where
  "do_write wr buf w = do_write_loop wr 0 buf w"

fun write_zero :: "'w write_call \<Rightarrow> nat \<Rightarrow> 'w \<Rightarrow> ((unit + unit) \<times> 'w) option" where
  "write_zero wr 0 w = Some (Inr (), w)"
| "write_zero wr (Suc i) w =
     (case do_write wr [0] w of
        None \<Rightarrow> None
      | Some (Inl _, w') \<Rightarrow> Some (Inl (), w')
      | Some (Inr _, w') \<Rightarrow> write_zero wr i w')"

section \<open>main\<close>

text \<open>The final loop \<open>while (1)\<close>: copy the rest of the image in chunks.\<close>

partial_function (option) copy_rest ::
  "'w read_call \<Rightarrow> 'w write_call \<Rightarrow> 'w \<Rightarrow> (int \<times> 'w) option" where
  "copy_rest rd wr w =
     (case do_read rd MAX_BOOT_PROG_LEN w of
        None \<Rightarrow> None
      | Some (r, w1) \<Rightarrow>
          (case r of
             Inl _ \<Rightarrow> Some (1, w1)
           | Inr prog \<Rightarrow>
               if prog = [] then Some (0, w1)
               else (case do_write wr prog w1 of
                       None \<Rightarrow> None
                     | Some (s, w2) \<Rightarrow>
                         (case s of Inl _ \<Rightarrow> Some (1, w2) | Inr _ \<Rightarrow> copy_rest rd wr w2))))"

definition vrl4_hdr :: "nat \<Rightarrow> hdr" where
  "vrl4_hdr prog_len =
     (let aligned_hdr_len = ROUND_UP (of_nat sizeof_hdr);
          alligned_prog_len = ROUND_UP (of_nat prog_len)
      in DECLARE_HDR\<lparr>start_address := START_BASE + ucast aligned_hdr_len,
           copy_size := ucast (aligned_hdr_len + alligned_prog_len)\<rparr>)"

definition vrl4_main :: "'w read_call \<Rightarrow> 'w write_call \<Rightarrow> 'w \<Rightarrow> (int \<times> 'w) option" where
  "vrl4_main rd wr w =
     (case do_read rd MAX_BOOT_PROG_LEN w of
        None \<Rightarrow> None
      | Some (Inl _, w1) \<Rightarrow> Some (-1, w1)
      | Some (Inr prog, w1) \<Rightarrow>
          if prog = [] then Some (-1, w1)
          else (case do_write wr (hdr_bytes (vrl4_hdr (length prog))) w1 of
                  None \<Rightarrow> None
                | Some (Inl _, w2) \<Rightarrow> Some (-1, w2)
                | Some (Inr _, w2) \<Rightarrow>
                    (case write_zero wr (unat (ROUND_UP (of_nat sizeof_hdr)) - sizeof_hdr) w2 of
                       None \<Rightarrow> None
                     | Some (Inl _, w3) \<Rightarrow> Some (-1, w3)
                     | Some (Inr _, w3) \<Rightarrow>
                         (case do_write wr prog w3 of
                            None \<Rightarrow> None
                          | Some (Inl _, w4) \<Rightarrow> Some (1, w4)
                          | Some (Inr _, w4) \<Rightarrow> copy_rest rd wr w4))))"

section \<open>Sizes\<close>

lemma length_hdr_bytes: "length (reserved6 h) = 308 \<Longrightarrow> length (hdr_bytes h) = sizeof_hdr"
  by (simp add: hdr_bytes_def sizeof_hdr_def)

lemma ALIGN_eq: "ALIGN = 512"
  by (simp add: ALIGN_def ALIGN_BITS_def)

lemma ROUND_UP_unat:
  assumes "unat x < 2 ^ 32"
  shows "unat (ROUND_UP x) = (unat x + 511) div 512 * 512"
proof -
  have x: "unat (x + 511) = unat x + 511"
    using assms by (simp add: unat_word_ariths)
  have "(x + 511) AND NOT (mask 9) = push_bit 9 (drop_bit 9 (x + 511))"
    by (rule bit_word_eqI)
      (auto simp: bit_and_iff bit_not_iff bit_mask_iff bit_push_bit_iff bit_drop_bit_eq)
  moreover have "mask 9 = (511 :: u64)" by (simp add: mask_eq_exp_minus_1)
  ultimately have "ROUND_UP x = push_bit 9 (drop_bit 9 (x + 511))"
    by (simp add: ROUND_UP_def ALIGN_eq add_diff_eq [symmetric])
  then have "ROUND_UP x = (x + 511) div 512 * 512"
    by (simp add: drop_bit_eq_div push_bit_eq_mult)
  moreover have "unat ((x + 511) div 512) = (unat x + 511) div 512"
    by (simp only: unat_div x) simp
  ultimately have "unat (ROUND_UP x) = (unat x + 511) div 512 * 512 mod 2 ^ 64"
    by (simp add: unat_word_ariths(2))
  also have "\<dots> = (unat x + 511) div 512 * 512"
    using assms div_times_less_eq_dividend [of "unat x + 511" 512] by (intro mod_less) simp
  finally show ?thesis .
qed


section \<open>What the program relies on\<close>

text \<open>
  The documented behaviour of blocking descriptors: a read returns between one and the
  requested number of the next input bytes, or nothing exactly at the end of the input; a
  write accepts a nonempty prefix; a call that has to be retried changes neither stream, and
  only finitely many calls in a row (\<open>idle\<close>) have to be retried.
\<close>

definition retryable :: "errno \<Rightarrow> bool" where
  "retryable e \<longleftrightarrow> e = EAGAIN \<or> e = EWOULDBLOCK"

definition reads_stream ::
  "'w read_call \<Rightarrow> ('w \<Rightarrow> u8 list) \<Rightarrow> ('w \<Rightarrow> u8 list) \<Rightarrow> ('w \<Rightarrow> nat) \<Rightarrow> bool" where
  "reads_stream rd inp out idle \<longleftrightarrow>
     (\<forall>w n. 0 < n \<longrightarrow>
       (case rd w n of
          (Inr bs, w') \<Rightarrow> length bs \<le> n \<and> inp w = bs @ inp w' \<and> (bs = [] \<longrightarrow> inp w = [])
             \<and> out w' = out w
        | (Inl e, w') \<Rightarrow> retryable e \<and> inp w' = inp w \<and> out w' = out w \<and> idle w' < idle w))"

definition writes_stream ::
  "'w write_call \<Rightarrow> ('w \<Rightarrow> u8 list) \<Rightarrow> ('w \<Rightarrow> u8 list) \<Rightarrow> ('w \<Rightarrow> nat) \<Rightarrow> bool" where
  "writes_stream wr inp out idle \<longleftrightarrow>
     (\<forall>w bs. bs \<noteq> [] \<longrightarrow>
       (case wr w bs of
          (Inr l, w') \<Rightarrow> 0 < l \<and> l \<le> length bs \<and> out w' = out w @ take l bs \<and> inp w' = inp w
        | (Inl e, w') \<Rightarrow> retryable e \<and> inp w' = inp w \<and> out w' = out w \<and> idle w' < idle w))"

lemma reads_data:
  "reads_stream rd inp out idle \<Longrightarrow> 0 < n \<Longrightarrow> rd w n = (Inr bs, w') \<Longrightarrow>
   length bs \<le> n \<and> inp w = bs @ inp w' \<and> (bs = [] \<longrightarrow> inp w = []) \<and> out w' = out w"
  by (drule reads_stream_def [THEN iffD1, rule_format, of _ _ _ _ n w]) auto

lemma reads_error:
  "reads_stream rd inp out idle \<Longrightarrow> 0 < n \<Longrightarrow> rd w n = (Inl e, w') \<Longrightarrow>
   retryable e \<and> inp w' = inp w \<and> out w' = out w \<and> idle w' < idle w"
  by (drule reads_stream_def [THEN iffD1, rule_format, of _ _ _ _ n w]) auto

lemma writes_data:
  "writes_stream wr inp out idle \<Longrightarrow> bs \<noteq> [] \<Longrightarrow> wr w bs = (Inr l, w') \<Longrightarrow>
   0 < l \<and> l \<le> length bs \<and> out w' = out w @ take l bs \<and> inp w' = inp w"
  by (drule writes_stream_def [THEN iffD1, rule_format, of _ _ _ _ bs w]) auto

lemma writes_error:
  "writes_stream wr inp out idle \<Longrightarrow> bs \<noteq> [] \<Longrightarrow> wr w bs = (Inl e, w') \<Longrightarrow>
   retryable e \<and> inp w' = inp w \<and> out w' = out w \<and> idle w' < idle w"
  by (drule writes_stream_def [THEN iffD1, rule_format, of _ _ _ _ bs w]) auto

section \<open>The loops return and transfer everything\<close>

lemma do_read_loop_complete:
  assumes rs: "reads_stream rd inp out idle"
  shows "length acc \<le> cnt \<Longrightarrow>
    \<exists>w'. do_read_loop rd cnt acc w = Some (Inr (acc @ take (cnt - length acc) (inp w)), w')
       \<and> inp w' = drop (cnt - length acc) (inp w) \<and> out w' = out w"
proof (induction w arbitrary: acc
    rule: wf_induct_rule [OF wf_measures [of "[\<lambda>w. length (inp w), idle]"]])
  case (1 w)
  show ?case
  proof (cases "length acc < cnt")
    case False
    with 1 show ?thesis by (simp add: do_read_loop.simps [of rd cnt acc w])
  next
    case True
    let ?n = "cnt - length acc"
    obtain r w1 where r: "rd w ?n = (r, w1)" by (cases "rd w ?n")
    show ?thesis
    proof (cases r)
      case (Inl e)
      with reads_error [OF rs, of ?n w e w1] r True
      have e: "retryable e" "inp w1 = inp w" "out w1 = out w" "idle w1 < idle w" by auto
      then have "(w1, w) \<in> measures [\<lambda>w. length (inp w), idle]" by simp
      from "1.IH" [OF this "1.prems"] e r Inl True show ?thesis
        by (auto simp: do_read_loop.simps [of rd cnt acc w] retryable_def)
    next
      case (Inr bs)
      with reads_data [OF rs, of ?n w bs w1] r True
      have d: "length bs \<le> ?n" "inp w = bs @ inp w1" "bs = [] \<longrightarrow> inp w = []" "out w1 = out w"
        by auto
      show ?thesis
      proof (cases "bs = []")
        case True
        with d r Inr \<open>length acc < cnt\<close> show ?thesis
          by (auto simp: do_read_loop.simps [of rd cnt acc w])
      next
        case False
        with d have "(w1, w) \<in> measures [\<lambda>w. length (inp w), idle]" by simp
        from "1.IH" [OF this, of "acc @ bs"] d False r Inr True show ?thesis
          by (auto simp: do_read_loop.simps [of rd cnt acc w])
      qed
    qed
  qed
qed

lemma do_read_complete:
  assumes "reads_stream rd inp out idle"
  shows "\<exists>w'. do_read rd cnt w = Some (Inr (take cnt (inp w)), w')
     \<and> inp w' = drop cnt (inp w) \<and> out w' = out w"
  using do_read_loop_complete [OF assms, of "[]" cnt w] by (simp add: do_read_def)

lemma do_write_loop_complete:
  assumes ws: "writes_stream wr inp out idle"
  shows "\<exists>w'. do_write_loop wr offset rest w = Some (Inr (offset + length rest), w')
       \<and> out w' = out w @ rest \<and> inp w' = inp w"
proof (induction "(rest, w)" arbitrary: offset rest w
    rule: wf_induct_rule [OF wf_measures [of "[\<lambda>(rest, w). length rest, \<lambda>(rest, w). idle w]"]])
  case (1 rest w)
  show ?case
  proof (cases "rest = []")
    case True
    then show ?thesis by (simp add: do_write_loop.simps [of wr offset "[]" w])
  next
    case False
    obtain r w1 where r: "wr w rest = (r, w1)" by (cases "wr w rest")
    show ?thesis
    proof (cases r)
      case (Inl e)
      with writes_error [OF ws, of rest w e w1] r False
      have e: "retryable e" "inp w1 = inp w" "out w1 = out w" "idle w1 < idle w" by auto
      with "1" [of rest w1 offset] r Inl False show ?thesis
        by (auto simp: do_write_loop.simps [of wr offset rest w] retryable_def)
    next
      case (Inr l)
      with writes_data [OF ws, of rest w l w1] r False
      have d: "0 < l" "l \<le> length rest" "out w1 = out w @ take l rest" "inp w1 = inp w" by auto
      with "1" [of "drop l rest" w1 "offset + l"] r Inr False show ?thesis
        by (auto simp: do_write_loop.simps [of wr offset rest w])
    qed
  qed
qed

lemma do_write_complete:
  assumes "writes_stream wr inp out idle"
  shows "\<exists>w'. do_write wr buf w = Some (Inr (length buf), w') \<and> out w' = out w @ buf \<and> inp w' = inp w"
  using do_write_loop_complete [OF assms, of 0 buf w] by (simp add: do_write_def)

lemma write_zero_complete:
  assumes "writes_stream wr inp out idle"
  shows "\<exists>w'. write_zero wr n w = Some (Inr (), w') \<and> out w' = out w @ replicate n 0 \<and> inp w' = inp w"
proof (induction n arbitrary: w)
  case 0
  show ?case by simp
next
  case (Suc n)
  obtain w1 where "do_write wr [0] w = Some (Inr 1, w1)" "out w1 = out w @ [0]" "inp w1 = inp w"
    using do_write_complete [OF assms, of "[0]" w] by auto
  with Suc [of w1] show ?case by auto
qed

lemma copy_rest_complete:
  assumes rs: "reads_stream rd inp out idle" and ws: "writes_stream wr inp out idle"
  shows "\<exists>w'. copy_rest rd wr w = Some (0, w') \<and> out w' = out w @ inp w"
proof (induction "length (inp w)" arbitrary: w rule: less_induct)
  case less
  obtain w1 where r: "do_read rd MAX_BOOT_PROG_LEN w = Some (Inr (take MAX_BOOT_PROG_LEN (inp w)), w1)"
      "inp w1 = drop MAX_BOOT_PROG_LEN (inp w)" "out w1 = out w"
    using do_read_complete [OF rs] by blast
  show ?case
  proof (cases "inp w = []")
    case True
    with r show ?thesis by (simp add: copy_rest.simps [of rd wr w])
  next
    case False
    obtain k w2 where s: "do_write wr (take MAX_BOOT_PROG_LEN (inp w)) w1 = Some (Inr k, w2)"
        "out w2 = out w1 @ take MAX_BOOT_PROG_LEN (inp w)" "inp w2 = inp w1"
      using do_write_complete [OF ws] by blast
    have "length (inp w2) < length (inp w)"
      using False r s by (simp add: MAX_BOOT_PROG_LEN_def)
    from less [OF this] r s False show ?thesis
      by (auto simp: copy_rest.simps [of rd wr w] MAX_BOOT_PROG_LEN_def)
  qed
qed


lemma round_up_exact: "(n + 511) div 512 * 512 = n \<longleftrightarrow> 512 dvd (n :: nat)"
proof
  assume "(n + 511) div 512 * 512 = n"
  then show "512 dvd n" by (metis dvd_triv_right)
next
  assume "512 dvd n"
  then obtain k where "n = 512 * k" ..
  moreover have "(512 * k + 511) div 512 = k" by simp
  ultimately show "(n + 511) div 512 * 512 = n" by simp
qed

lemma vrl4_hdr_fields:
  assumes "n \<le> MAX_BOOT_PROG_LEN"
  shows "unat (start_address (vrl4_hdr n)) = unat START_BASE + 512"
    and "unat (copy_size (vrl4_hdr n)) = 512 + (n + 511) div 512 * 512"
proof -
  have h: "ROUND_UP (of_nat sizeof_hdr) = 512" by (simp add: ROUND_UP_def ALIGN_eq sizeof_hdr_def)
  then show "unat (start_address (vrl4_hdr n)) = unat START_BASE + 512"
    by (simp add: vrl4_hdr_def Let_def START_BASE_def)
  have n: "unat (of_nat n :: u64) = n"
    using assms by (simp add: unat_of_nat MAX_BOOT_PROG_LEN_def)
  let ?p = "ROUND_UP (of_nat n)"
  have p: "unat ?p = (n + 511) div 512 * 512"
    using assms n by (subst ROUND_UP_unat) (simp_all add: MAX_BOOT_PROG_LEN_def)
  then have "unat ?p \<le> 8703" using assms by (simp add: MAX_BOOT_PROG_LEN_def)
  then have "unat (512 + ?p) = 512 + unat ?p" by (simp add: unat_word_ariths(1))
  moreover from this have "unat (ucast (512 + ?p) :: u16) = unat (512 + ?p)"
    using \<open>unat ?p \<le> 8703\<close> by (simp add: unsigned_ucast_eq take_bit_nat_eq_self)
  ultimately show "unat (copy_size (vrl4_hdr n)) = 512 + (n + 511) div 512 * 512"
    using h p by (simp add: vrl4_hdr_def Let_def)
qed

lemma length_vrl4_hdr: "length (hdr_bytes (vrl4_hdr n)) = sizeof_hdr"
  by (rule length_hdr_bytes) (simp add: vrl4_hdr_def Let_def DECLARE_HDR_def)

text \<open>
  A concrete world: the remaining input, the output so far, and how many calls will still be
  told to try again; reads deliver at most 100 bytes at a time.
\<close>

type_synonym pipe = "u8 list \<times> u8 list \<times> nat"

definition pipe_read :: "pipe read_call" where
  "pipe_read = (\<lambda>(i, out, k) n. if 0 < k then (Inl EAGAIN, (i, out, k - 1))
     else (Inr (take (min n 100) i), (drop (min n 100) i, out, k)))"

definition pipe_write :: "pipe write_call" where
  "pipe_write = (\<lambda>(i, out, k) bs. (Inr (length bs), (i, out @ bs, k)))"

lemma pipe_streams:
  "reads_stream pipe_read fst (fst \<circ> snd) (snd \<circ> snd)"
  "writes_stream pipe_write fst (fst \<circ> snd) (snd \<circ> snd)"
  by (auto simp: reads_stream_def writes_stream_def pipe_read_def pipe_write_def retryable_def)

section \<open>Properties\<close>

text \<open>
  C32: on descriptors that make progress, converting a nonempty image terminates with status 0,
  and the output is the header, zero padding up to the 512-byte boundary, and the image itself,
  every byte of it unmodified.
\<close>

theorem vrl4_main_image:
  assumes rs: "reads_stream rd inp out idle" and ws: "writes_stream wr inp out idle"
    and ne: "inp w \<noteq> []"
  shows "\<exists>w'. vrl4_main rd wr w = Some (0, w')
     \<and> out w' = out w @ hdr_bytes (vrl4_hdr (min (length (inp w)) MAX_BOOT_PROG_LEN))
          @ replicate (512 - sizeof_hdr) 0 @ inp w"
proof -
  let ?prog = "take MAX_BOOT_PROG_LEN (inp w)"
  have pad: "unat (ROUND_UP (of_nat sizeof_hdr)) - sizeof_hdr = 512 - sizeof_hdr"
    by (simp add: ROUND_UP_def ALIGN_eq sizeof_hdr_def)
  obtain w1 where r: "do_read rd MAX_BOOT_PROG_LEN w = Some (Inr ?prog, w1)"
      "inp w1 = drop MAX_BOOT_PROG_LEN (inp w)" "out w1 = out w"
    using do_read_complete [OF rs] by blast
  obtain k w2 where h: "do_write wr (hdr_bytes (vrl4_hdr (length ?prog))) w1 = Some (Inr k, w2)"
      "out w2 = out w1 @ hdr_bytes (vrl4_hdr (length ?prog))" "inp w2 = inp w1"
    using do_write_complete [OF ws] by blast
  obtain w3 where z: "write_zero wr (512 - sizeof_hdr) w2 = Some (Inr (), w3)"
      "out w3 = out w2 @ replicate (512 - sizeof_hdr) 0" "inp w3 = inp w2"
    using write_zero_complete [OF ws] by blast
  obtain l w4 where p: "do_write wr ?prog w3 = Some (Inr l, w4)" "out w4 = out w3 @ ?prog"
      "inp w4 = inp w3"
    using do_write_complete [OF ws] by blast
  obtain w5 where c: "copy_rest rd wr w4 = Some (0, w5)" "out w5 = out w4 @ inp w4"
    using copy_rest_complete [OF rs ws] by blast
  have "?prog \<noteq> []" using ne by (simp add: MAX_BOOT_PROG_LEN_def)
  with r h z p c pad show ?thesis
    by (simp add: vrl4_main_def min.commute)
qed

theorem vrl4_main_image_witness:
  "\<exists>w'. vrl4_main pipe_read pipe_write ([1, 2, 3], [], 4) = Some (0, w')
     \<and> fst (snd w') = hdr_bytes (vrl4_hdr (min 3 MAX_BOOT_PROG_LEN))
          @ replicate (512 - sizeof_hdr) 0 @ [1, 2, 3]"
  using vrl4_main_image [OF pipe_streams, of "([1, 2, 3], [], 4)"] by (simp add: numeral_3_eq_3)

text \<open>
  C13: the header tells the mask ROM the truth: the 344-byte header is padded so that the image
  starts 512 bytes into the output, the start address is START_BASE plus 512, and copy_size is
  512 plus the loaded part of the image rounded up to whole sectors, computed without overflow
  of its 16 bits. The usage comment promises the unrounded length instead.
\<close>

theorem vrl4_header_layout:
  assumes "n \<le> MAX_BOOT_PROG_LEN"
  shows "length (hdr_bytes (vrl4_hdr n) @ replicate (512 - sizeof_hdr) 0) = 512
    \<and> unat (start_address (vrl4_hdr n)) = unat START_BASE + 512
    \<and> unat (copy_size (vrl4_hdr n)) = 512 + (n + 511) div 512 * 512
    \<and> (copy_size (vrl4_hdr n) = of_nat (n + 512) \<longleftrightarrow> 512 dvd n)"
proof -
  have "n + 512 < 65536" using assms by (simp add: MAX_BOOT_PROG_LEN_def)
  then have "unat (of_nat (n + 512) :: u16) = n + 512" by (simp add: unat_of_nat del: of_nat_add)
  then have "copy_size (vrl4_hdr n) = of_nat (n + 512) \<longleftrightarrow> unat (copy_size (vrl4_hdr n)) = n + 512"
    by (metis unsigned_word_eqI)
  also have "\<dots> \<longleftrightarrow> (n + 511) div 512 * 512 = n" by (simp add: vrl4_hdr_fields(2) [OF assms])
  also have "\<dots> \<longleftrightarrow> 512 dvd n" by (rule round_up_exact)
  finally show ?thesis
    using vrl4_hdr_fields [OF assms] by (simp add: length_vrl4_hdr sizeof_hdr_def)
qed

theorem vrl4_header_layout_witness:
  "unat (copy_size (vrl4_hdr 1)) = 1024 \<and> copy_size (vrl4_hdr 1) \<noteq> of_nat (1 + 512)"
  using vrl4_header_layout [of 1] by (simp add: MAX_BOOT_PROG_LEN_def)

text \<open>
  C10: an input that is empty, or whose first read fails for good, produces no output at all and
  the exit status -1.
\<close>

theorem vrl4_main_no_input:
  assumes "rd w MAX_BOOT_PROG_LEN = (Inr [], w') \<or> rd w MAX_BOOT_PROG_LEN = (Inl EOTHER, w')"
  shows "vrl4_main rd wr w = Some (-1, w')"
proof -
  have "0 < MAX_BOOT_PROG_LEN" by (simp add: MAX_BOOT_PROG_LEN_def)
  with assms show ?thesis
    by (auto simp: vrl4_main_def do_read_def do_read_loop.simps [of rd MAX_BOOT_PROG_LEN "[]" w])
qed

theorem vrl4_main_no_input_witness:
  "vrl4_main pipe_read pipe_write ([], [], 0) = Some (-1, ([], [], 0))"
  by (rule vrl4_main_no_input) (simp add: pipe_read_def MAX_BOOT_PROG_LEN_def)

end
