(* ===== verification/Mei_Amt.thy ===== *)
theory Mei_Amt
  imports Doc_Prelude "HOL-Library.Monad_Syntax"
begin

unbundle bit_operations_syntax

text \<open>
  Model of \<open>src/Documentation/misc-devices/mei/mei-amt-version.c\<close>, which asks the Intel
  management engine for the versions of its firmware. Every system call is made at most once
  in a run, so the answers of the kernel and of \<open>malloc\<close> are one record; a \<open>read\<close>
  delivers at most as many bytes as were asked for. Buffers are byte lists, and an access
  outside a buffer (undefined in C) is \<open>None\<close>. Output goes to a record that also keeps
  the trace of descriptors and buffers acquired and released.
\<close>

section \<open>The system interface\<close>

datatype mei_res = MeiFd int | MeiBuf

text \<open>A client UUID with the fields of the source's initialiser.\<close>

type_synonym uuid = "u32 \<times> u16 \<times> u16 \<times> u8 list"

record mei_env =
  open_ans :: "nat option"
  connect_ans :: "uuid \<Rightarrow> int \<times> u32 \<times> u8"
  malloc_ans :: bool
  write_ans :: "u8 list \<Rightarrow> nat + nat"
  select_ans :: "u64 \<times> u64 \<Rightarrow> int \<times> bool"
  read_ans :: "nat + u8 list"
  strerror :: "nat \<Rightarrow> string"

record mei_io =
  stderr_lines :: "string list"
  evs :: "mei_res ev list"

definition trace_ev :: "mei_res ev \<Rightarrow> mei_io \<Rightarrow> mei_io" where
  "trace_ev e io = io\<lparr>evs := evs io @ [e]\<rparr>"

definition emit :: "string \<Rightarrow> mei_io \<Rightarrow> mei_io" where
  "emit s io = io\<lparr>stderr_lines := stderr_lines io @ [s]\<rparr>"

section \<open>The MEI client\<close>

record mei =
  guid :: uuid
  initialized :: bool
  verbose :: bool
  buf_size :: u32
  prot_ver :: u8
  fd :: int

definition mei_msg :: "mei \<Rightarrow> string \<Rightarrow> mei_io \<Rightarrow> mei_io" where
  "mei_msg me s io = (if verbose me then emit s io else io)"

definition mei_err :: "mei \<Rightarrow> string \<Rightarrow> mei_io \<Rightarrow> mei_io" where
  "mei_err me s io = emit (''Error: '' @ s) io"

definition mei_deinit :: "mei \<Rightarrow> mei_io \<Rightarrow> mei \<times> mei_io" where
  "mei_deinit cl io =
     (cl\<lparr>fd := -1, buf_size := 0, prot_ver := 0, initialized := False\<rparr>,
      if fd cl \<noteq> -1 then trace_ev (Rel (MeiFd (fd cl))) io else io)"

definition mei_init ::
  "mei_env \<Rightarrow> uuid \<Rightarrow> u8 \<Rightarrow> bool \<Rightarrow> mei \<Rightarrow> mei_io \<Rightarrow> bool \<times> mei \<times> mei_io" where
  "mei_init env g req_protocol_version verb me io =
     (case open_ans env of
        None \<Rightarrow>
          let me1 = me\<lparr>verbose := verb, fd := -1\<rparr> in
          (False, mei_deinit me1
             (mei_err me1 ''Cannot establish a handle to the Intel MEI driver'' io))
      | Some n \<Rightarrow>
          let me1 = me\<lparr>verbose := verb, fd := int n, guid := g, initialized := True\<rparr>;
              io1 = trace_ev (Acq (MeiFd (int n))) io;
              (result, max_msg_length, protocol_version) = connect_ans env (guid me1)
          in if result \<noteq> 0 then
               (False, mei_deinit me1 (mei_err me1
                  (''IOCTL_MEI_CONNECT_CLIENT receive message. err='' @ show_int result) io1))
             else
               let io2 = mei_msg me1 (''max_message_length '' @ show_int (sint max_msg_length)) io1;
                   io3 = mei_msg me1 (''protocol_version '' @ show_int (uint protocol_version)) io2
               in if 0 < req_protocol_version \<and> protocol_version \<noteq> req_protocol_version then
                    (False, mei_deinit me1
                       (mei_err me1 ''Intel MEI protocol version not supported'' io3))
                  else (True, me1\<lparr>buf_size := max_msg_length, prot_ver := protocol_version\<rparr>, io3))"

text \<open>\<open>mei_recv_msg\<close>: -1 for a failed read, otherwise the bytes it put in the buffer.\<close>

definition mei_recv_msg ::
  "mei_env \<Rightarrow> nat \<Rightarrow> mei \<Rightarrow> u8 list \<Rightarrow> mei_io \<Rightarrow> int \<times> u8 list \<times> mei \<times> mei_io" where
  "mei_recv_msg env len me buffer io =
     (let io1 = mei_msg me (''call read length = '' @ show_nat len) io in
      case read_ans env of
        Inl e \<Rightarrow>
          (-1, buffer, mei_deinit me
             (mei_err me (''read failed with status -1 '' @ strerror env e) io1))
      | Inr msg \<Rightarrow>
          let data = take len msg in
          (int (length data), data @ drop (length data) buffer, me,
           mei_msg me (''read succeeded with result '' @ show_nat (length data)) io1))"

definition send_timeval :: "u64 \<Rightarrow> u64 \<times> u64" where
  "send_timeval timeout = (timeout div 1000, (timeout mod 1000) * 1000000)"

definition mei_send_msg ::
  "mei_env \<Rightarrow> u64 \<Rightarrow> u8 list \<Rightarrow> mei \<Rightarrow> mei_io \<Rightarrow> int \<times> mei \<times> mei_io" where
  "mei_send_msg env timeout buffer me io =
     (let tv = send_timeval timeout;
          io1 = mei_msg me (''call write length = '' @ show_nat (length buffer)) io;
          (rc, io2) =
            (case write_ans env buffer of
               Inl e \<Rightarrow>
                 (- int e, mei_err me (''write failed with status -1 '' @ strerror env e) io1)
             | Inr written \<Rightarrow>
                 let (src, isset) = select_ans env tv in
                 if src > 0 \<and> isset then (int written, mei_msg me ''write success'' io1)
                 else if src = 0 then (src, mei_err me ''write failed on timeout with status'' io1)
                 else (src, mei_err me (''write failed on select with status '' @ show_int src) io1))
      in if rc < 0 then (rc, mei_deinit me io2) else (rc, me, io2))"

section \<open>The host interface\<close>

definition AMT_MAJOR_VERSION :: u8 where "AMT_MAJOR_VERSION = 1"
definition AMT_MINOR_VERSION :: u8 where "AMT_MINOR_VERSION = 1"
definition AMT_STATUS_SUCCESS :: u32 where "AMT_STATUS_SUCCESS = 0"
definition AMT_STATUS_INTERNAL_ERROR :: u32 where "AMT_STATUS_INTERNAL_ERROR = 1"
definition AMT_STATUS_HOST_IF_EMPTY_RESPONSE :: u32 where "AMT_STATUS_HOST_IF_EMPTY_RESPONSE = 0x4000"
definition AMT_STATUS_SDK_RESOURCES :: u32 where "AMT_STATUS_SDK_RESOURCES = 0x1004"
definition AMT_BIOS_VERSION_LEN :: nat where "AMT_BIOS_VERSION_LEN = 65"
definition AMT_VERSIONS_NUMBER :: nat where "AMT_VERSIONS_NUMBER = 50"
definition AMT_UNICODE_STRING_LEN :: nat where "AMT_UNICODE_STRING_LEN = 20"
definition AMT_HOST_IF_CODE_VERSIONS_REQUEST :: u32 where
  "AMT_HOST_IF_CODE_VERSIONS_REQUEST = 0x0400001A"
definition AMT_HOST_IF_CODE_VERSIONS_RESPONSE :: u32 where
  "AMT_HOST_IF_CODE_VERSIONS_RESPONSE = 0x0480001A"

text \<open>Sizes of the packed structures.\<close>

definition sizeof_unicode_string :: nat where
  "sizeof_unicode_string = 2 + AMT_UNICODE_STRING_LEN"
definition sizeof_version_type :: nat where "sizeof_version_type = 2 * sizeof_unicode_string"
definition sizeof_code_versions :: nat where
  "sizeof_code_versions = AMT_BIOS_VERSION_LEN + 4 + AMT_VERSIONS_NUMBER * sizeof_version_type"
definition sizeof_msg_header :: nat where "sizeof_msg_header = 2 + 2 + 4 + 4"
definition sizeof_resp_header :: nat where "sizeof_resp_header = sizeof_msg_header + 4"

definition MEI_IAMTHIF :: uuid where
  "MEI_IAMTHIF = (0x12f80028, 0xb4b7, 0x4b2d, [0xac, 0xa8, 0x46, 0xe0, 0xff, 0x65, 0x81, 0x4c])"

text \<open>A message header with its packed layout.\<close>

record amt_host_if_msg_header =
  major :: u8
  minor :: u8
  reserved :: u16
  command :: u32
  hlength :: u32

definition header_bytes :: "amt_host_if_msg_header \<Rightarrow> u8 list" where
  "header_bytes h = [major h, minor h] @ le_bytes 2 (reserved h)
     @ le_bytes 4 (command h) @ le_bytes 4 (hlength h)"

definition CODE_VERSION_REQ :: amt_host_if_msg_header where
  "CODE_VERSION_REQ = \<lparr>major = AMT_MAJOR_VERSION, minor = AMT_MINOR_VERSION, reserved = 0,
     command = AMT_HOST_IF_CODE_VERSIONS_REQUEST, hlength = 0\<rparr>"

record amt_host_if =
  mei_cl :: mei
  send_timeout :: u64
  host_initialized :: bool

definition amt_host_if_init ::
  "mei_env \<Rightarrow> u64 \<Rightarrow> bool \<Rightarrow> amt_host_if \<Rightarrow> mei_io \<Rightarrow> bool \<times> amt_host_if \<times> mei_io" where
  "amt_host_if_init env timeout verb acmd io =
     (case mei_init env MEI_IAMTHIF 0 verb (mei_cl acmd) io of (ok, me, io') \<Rightarrow>
        (ok, acmd\<lparr>mei_cl := me, send_timeout := (if timeout \<noteq> 0 then timeout else 20000),
                 host_initialized := ok\<rparr>, io'))"

definition amt_host_if_deinit :: "amt_host_if \<Rightarrow> mei_io \<Rightarrow> amt_host_if \<times> mei_io" where
  "amt_host_if_deinit acmd io =
     (case mei_deinit (mei_cl acmd) io of (me, io') \<Rightarrow>
        (acmd\<lparr>mei_cl := me, host_initialized := False\<rparr>, io'))"

section \<open>Reading a response\<close>

text \<open>Strings at an offset of a buffer; \<open>None\<close> when they are not terminated inside it.\<close>

fun cstr :: "u8 list \<Rightarrow> u8 list option" where
  "cstr [] = None"
| "cstr (b # bs) = (if b = 0 then Some [] else map_option ((#) b) (cstr bs))"

definition rd_cstr :: "u8 list \<Rightarrow> nat \<Rightarrow> u8 list option" where
  "rd_cstr buf off = cstr (drop off buf)"

text \<open>Offsets of the fields of \<open>versions[i]\<close> in a \<open>struct amt_code_versions\<close>.\<close>

definition count_off :: nat where "count_off = AMT_BIOS_VERSION_LEN"
definition descr_off :: "nat \<Rightarrow> nat" where
  "descr_off i = AMT_BIOS_VERSION_LEN + 4 + i * sizeof_version_type"
definition vers_off :: "nat \<Rightarrow> nat" where
  "vers_off i = descr_off i + sizeof_unicode_string"

text \<open>One turn of the loop of \<open>amt_verify_code_versions\<close>: is entry \<open>i\<close> acceptable?\<close>

definition verify_version :: "u8 list \<Rightarrow> nat \<Rightarrow> bool option" where
  "verify_version d i =
     do { dlen \<leftarrow> rd_word d (descr_off i) 2;
          if unat dlen > AMT_UNICODE_STRING_LEN then Some False
          else do { len \<leftarrow> rd_word d (vers_off i) 2;
                    b \<leftarrow> rd_word d (vers_off i + 2 + unat len) 1;
                    if b \<noteq> 0 then Some False
                    else do { s \<leftarrow> rd_cstr d (vers_off i + 2);
                              Some (unat len = length s) } } }"

fun verify_versions :: "u8 list \<Rightarrow> nat list \<Rightarrow> u32 option" where
  "verify_versions d [] = Some AMT_STATUS_SUCCESS"
| "verify_versions d (i # is) =
     do { ok \<leftarrow> verify_version d i;
          if ok then verify_versions d is else Some AMT_STATUS_INTERNAL_ERROR }"

definition ver_type_cnt :: "u32 \<Rightarrow> u32" where
  "ver_type_cnt len =
     ucast ((ucast len - 4 :: u64) - of_nat AMT_BIOS_VERSION_LEN - 4)"

definition amt_verify_code_versions :: "u8 list \<Rightarrow> u32 option" where
  "amt_verify_code_versions resp =
     do { hlen \<leftarrow> rd_word resp 8 4;
          let d = drop sizeof_resp_header resp;
          cnt \<leftarrow> rd_word d count_off 4;
          if ucast cnt \<noteq> (ucast (ver_type_cnt hlen) div of_nat sizeof_version_type :: u64)
          then Some AMT_STATUS_INTERNAL_ERROR
          else verify_versions d [0..<unat cnt] }"

definition amt_verify_response_header :: "u32 \<Rightarrow> u8 list \<Rightarrow> u32 \<Rightarrow> u32 option" where
  "amt_verify_response_header cmd resp_hdr response_size =
     (if unat response_size < sizeof_resp_header then Some AMT_STATUS_INTERNAL_ERROR
      else do {
        maj \<leftarrow> rd_word resp_hdr 0 1; min \<leftarrow> rd_word resp_hdr 1 1; res \<leftarrow> rd_word resp_hdr 2 2;
        com \<leftarrow> rd_word resp_hdr 4 4; len \<leftarrow> rd_word resp_hdr 8 4;
        if (ucast response_size :: u64) \<noteq> ucast len + of_nat sizeof_msg_header
        then Some AMT_STATUS_INTERNAL_ERROR
        else if com \<noteq> cmd then Some AMT_STATUS_INTERNAL_ERROR
        else if res \<noteq> 0 then Some AMT_STATUS_INTERNAL_ERROR
        else if maj \<noteq> ucast AMT_MAJOR_VERSION \<or> min < ucast AMT_MINOR_VERSION
        then Some AMT_STATUS_INTERNAL_ERROR
        else Some AMT_STATUS_SUCCESS })"

text \<open>
  \<open>amt_host_if_call\<close>: the status, the response buffer (\<open>None\<close> when \<open>malloc\<close>
  failed) and the new state. The comparison \<open>out_buf_sz <= 0\<close> is unsigned.
\<close>

definition amt_host_if_call ::
  "mei_env \<Rightarrow> u8 list \<Rightarrow> u32 \<Rightarrow> u32 \<Rightarrow> amt_host_if \<Rightarrow> mei_io
    \<Rightarrow> (u32 \<times> u8 list option \<times> amt_host_if \<times> mei_io) option" where
  "amt_host_if_call env cmd rcmd expected_sz acmd io =
     (let in_buf_sz = buf_size (mei_cl acmd) in
      if \<not> malloc_ans env then Some (AMT_STATUS_SDK_RESOURCES, None, acmd, io)
      else
        let read_buf = replicate (unat in_buf_sz) 0;
            (written, me1, io2) =
              mei_send_msg env (send_timeout acmd) cmd (mei_cl acmd) (trace_ev (Acq MeiBuf) io)
        in if written \<noteq> int (length cmd) then
             Some (AMT_STATUS_INTERNAL_ERROR, Some read_buf, acmd\<lparr>mei_cl := me1\<rparr>, io2)
           else
             let (rc, buf, me2, io3) = mei_recv_msg env (unat in_buf_sz) me1 read_buf io2;
                 out_buf_sz = (word_of_int rc :: u32);
                 fin = (\<lambda>st. (st, Some buf, acmd\<lparr>mei_cl := me2\<rparr>, io3))
             in if out_buf_sz = 0 then Some (fin AMT_STATUS_HOST_IF_EMPTY_RESPONSE)
                else do {
                  st \<leftarrow> rd_word buf sizeof_msg_header 4;
                  if st \<noteq> AMT_STATUS_SUCCESS then Some (fin st)
                  else do {
                    st2 \<leftarrow> amt_verify_response_header rcmd buf out_buf_sz;
                    if st2 \<noteq> AMT_STATUS_SUCCESS then Some (fin st2)
                    else if expected_sz \<noteq> 0 \<and> expected_sz \<noteq> out_buf_sz
                    then Some (fin AMT_STATUS_INTERNAL_ERROR)
                    else Some (fin AMT_STATUS_SUCCESS) } })"

text \<open>\<open>amt_get_code_versions\<close>: the status and, on success, the bytes of \<open>versions\<close>.\<close>

definition amt_get_code_versions ::
  "mei_env \<Rightarrow> amt_host_if \<Rightarrow> mei_io \<Rightarrow> (u32 \<times> u8 list \<times> amt_host_if \<times> mei_io) option" where
  "amt_get_code_versions env cmd io =
     do { (status, response, cmd1, io1) \<leftarrow>
            amt_host_if_call env (header_bytes CODE_VERSION_REQ) AMT_HOST_IF_CODE_VERSIONS_RESPONSE
              0 cmd io;
          (status2, versions) \<leftarrow>
            (case response of
               None \<Rightarrow> Some (status, [])
             | Some buf \<Rightarrow>
                 if status \<noteq> AMT_STATUS_SUCCESS then Some (status, [])
                 else do {
                   st \<leftarrow> amt_verify_code_versions buf;
                   if st \<noteq> AMT_STATUS_SUCCESS then Some (st, [])
                   else do { v \<leftarrow> rd_bytes buf sizeof_resp_header sizeof_code_versions;
                             Some (st, v) } });
          Some (status2, versions, cmd1,
            if response \<noteq> None then trace_ev (Rel MeiBuf) io1 else io1) }"

text \<open>
  \<open>main\<close>: the exit code, the lines printed and the final state of the resources;
  \<open>argv1\<close> is \<open>argv[1]\<close> if there is one.
\<close>

fun version_lines :: "u8 list \<Rightarrow> nat list \<Rightarrow> (u8 list \<times> u8 list) list option" where
  "version_lines ver [] = Some []"
| "version_lines ver (i # is) =
     do { d \<leftarrow> rd_cstr ver (descr_off i + 2); v \<leftarrow> rd_cstr ver (vers_off i + 2);
          rest \<leftarrow> version_lines ver is; Some ((d, v) # rest) }"

datatype amt_report = Disabled | Enabled "(u8 list \<times> u8 list) list" | ErrorOccurred | NoReport

definition mei_amt_main ::
  "mei_env \<Rightarrow> string option \<Rightarrow> amt_host_if \<Rightarrow> mei_io \<Rightarrow> (int \<times> amt_report \<times> mei_io) option" where
  "mei_amt_main env argv1 acmd io =
     (let verb = (argv1 = Some ''-v'');
          (ok, acmd1, io1) = amt_host_if_init env 5000 verb acmd io
      in if \<not> ok then Some (1, NoReport, io1)
         else do {
           (status, ver, acmd2, io2) \<leftarrow> amt_get_code_versions env acmd1 io1;
           let (acmd3, io3) = amt_host_if_deinit acmd2 io2;
           if status = AMT_STATUS_HOST_IF_EMPTY_RESPONSE then Some (0, Disabled, io3)
           else if status = AMT_STATUS_SUCCESS then do {
             cnt \<leftarrow> rd_word ver count_off 4;
             ls \<leftarrow> version_lines ver [0..<unat cnt];
             Some (0, Enabled ls, io3) }
           else Some (1, ErrorOccurred, io3) })"

section \<open>Descriptors and buffers\<close>

lemmas mei_io_defs = mei_msg_def mei_err_def emit_def trace_ev_def

lemma mei_msg_evs [simp]: "evs (mei_msg me s io) = evs io"
  by (simp add: mei_io_defs)

lemma mei_err_evs [simp]: "evs (mei_err me s io) = evs io"
  by (simp add: mei_io_defs)

lemma trace_ev_evs [simp]: "evs (trace_ev e io) = evs io @ [e]"
  by (simp add: trace_ev_def)

text \<open>What a client holds: the descriptor, unless it has been closed.\<close>

definition mei_held :: "mei \<Rightarrow> mei_res set" where
  "mei_held me = (if fd me = -1 then {} else {MeiFd (fd me)})"

lemma mei_deinit_trace:
  assumes "mei_deinit me io = (me', io')" and "run_ev {} (evs io) = Some (mei_held me \<union> B)"
    and "B \<subseteq> {MeiBuf}"
  shows "run_ev {} (evs io') = Some (mei_held me' \<union> B) \<and> mei_held me' = {}"
proof -
  have "insert (MeiFd x) B - {MeiFd x} = B" for x using assms(3) by auto
  with assms show ?thesis
    by (auto simp: mei_deinit_def mei_held_def trace_simps split: if_splits)
qed

lemma mei_init_trace:
  assumes "mei_init env g req verb me io = (ok, me', io')" and "run_ev {} (evs io) = Some {}"
  shows "run_ev {} (evs io') = Some (mei_held me') \<and> (\<not> ok \<longrightarrow> mei_held me' = {})"
  using assms
  by (auto simp: mei_init_def mei_deinit_def mei_held_def trace_simps Let_def
      split: option.splits if_splits prod.splits)

definition mei_start :: "mei_env \<times> uuid \<times> u8 \<times> bool \<Rightarrow> mei \<Rightarrow> bool \<times> mei \<times> mei_res ev list" where
  "mei_start e me =
     (case e of (env, g, req, verb) \<Rightarrow>
        case mei_init env g req verb me \<lparr>stderr_lines = [], evs = []\<rparr> of
          (ok, me', io) \<Rightarrow> (ok, me', evs io))"

definition mei_stop :: "mei \<Rightarrow> mei \<times> mei_res ev list" where
  "mei_stop me =
     (case mei_deinit me \<lparr>stderr_lines = [], evs = []\<rparr> of (me', io) \<Rightarrow> (me', evs io))"

lemma mei_start_trace:
  "mei_start e me = (ok, me', tr) \<Longrightarrow>
   run_ev {} tr = Some (mei_held me') \<and> (\<not> ok \<longrightarrow> mei_held me' = {})"
  using mei_init_trace [where io = "\<lparr>stderr_lines = [], evs = []\<rparr>"]
  by (auto simp: mei_start_def split: prod.splits)

interpretation mei_session: acquire_release mei_start mei_stop mei_held
  by unfold_locales
    (use mei_start_trace in \<open>force simp: mei_stop_def mei_deinit_def mei_held_def trace_ev_def\<close>)+

lemma mei_send_msg_trace:
  assumes "mei_send_msg env t b me io = (rc, me', io')"
    and "run_ev {} (evs io) = Some (mei_held me \<union> B)" and "B \<subseteq> {MeiBuf}"
  shows "run_ev {} (evs io') = Some (mei_held me' \<union> B)"
  using assms mei_deinit_trace [of me _ me' io' B]
  by (auto simp: mei_send_msg_def Let_def split: sum.splits if_splits prod.splits)

lemma mei_recv_msg_trace:
  assumes "mei_recv_msg env n me b io = (rc, b', me', io')"
    and "run_ev {} (evs io) = Some (mei_held me \<union> B)" and "B \<subseteq> {MeiBuf}"
  shows "run_ev {} (evs io') = Some (mei_held me' \<union> B)"
  using assms mei_deinit_trace [of me _ me' io' B]
  by (auto simp: mei_recv_msg_def Let_def split: sum.splits)

lemma amt_host_if_call_trace:
  assumes "amt_host_if_call env cmd rcmd ex acmd io = Some (st, buf, acmd', io')"
    and "run_ev {} (evs io) = Some (mei_held (mei_cl acmd))"
  shows "run_ev {} (evs io') =
     Some (mei_held (mei_cl acmd') \<union> (if buf = None then {} else {MeiBuf}))"
proof (cases "malloc_ans env")
  case False
  with assms show ?thesis by (simp add: amt_host_if_call_def)
next
  case True
  obtain w me1 io2 where w: "mei_send_msg env (send_timeout acmd) cmd (mei_cl acmd)
      (trace_ev (Acq MeiBuf) io) = (w, me1, io2)" by (metis prod_cases3)
  have t: "run_ev {} (evs io2) = Some (mei_held me1 \<union> {MeiBuf})"
    by (rule mei_send_msg_trace [OF w])
      (use assms(2) in \<open>auto simp: trace_simps mei_held_def\<close>)
  obtain rc b me2 io3 where r: "mei_recv_msg env (unat (buf_size (mei_cl acmd))) me1
      (replicate (unat (buf_size (mei_cl acmd))) 0) io2 = (rc, b, me2, io3)" by (metis prod_cases4)
  have "run_ev {} (evs io3) = Some (mei_held me2 \<union> {MeiBuf})"
    by (rule mei_recv_msg_trace [OF r t]) simp
  with t assms True w r show ?thesis
    by (auto simp: amt_host_if_call_def Let_def split: if_splits bind_splits)
qed

lemma amt_get_code_versions_trace:
  assumes g: "amt_get_code_versions env acmd io = Some (st, v, acmd', io')"
    and "run_ev {} (evs io) = Some (mei_held (mei_cl acmd))"
  shows "run_ev {} (evs io') = Some (mei_held (mei_cl acmd'))"
proof -
  from g obtain st1 buf io1 where
    c: "amt_host_if_call env (header_bytes CODE_VERSION_REQ) AMT_HOST_IF_CODE_VERSIONS_RESPONSE
        0 acmd io = Some (st1, buf, acmd', io1)"
    and io': "io' = (if buf \<noteq> None then trace_ev (Rel MeiBuf) io1 else io1)"
    unfolding amt_get_code_versions_def by (auto split: bind_splits)
  have "mei_held x - {MeiBuf} = mei_held x" for x by (auto simp: mei_held_def)
  with amt_host_if_call_trace [OF c assms(2)] io' show ?thesis
    by (auto simp: trace_simps)
qed

lemma amt_host_if_init_trace:
  assumes "amt_host_if_init env t verb acmd io = (ok, acmd', io')" and "run_ev {} (evs io) = Some {}"
  shows "run_ev {} (evs io') = Some (mei_held (mei_cl acmd'))"
    and "\<not> ok \<Longrightarrow> mei_held (mei_cl acmd') = {}"
proof -
  obtain me where m: "mei_init env MEI_IAMTHIF 0 verb (mei_cl acmd) io = (ok, me, io')" "mei_cl acmd' = me"
    using assms(1) by (auto simp: amt_host_if_init_def split: prod.splits)
  show "run_ev {} (evs io') = Some (mei_held (mei_cl acmd'))"
    "\<not> ok \<Longrightarrow> mei_held (mei_cl acmd') = {}"
    using mei_init_trace [OF m(1) assms(2)] m(2) by simp_all
qed

text \<open>
  Whatever the kernel answers, a run of \<open>main\<close> that stays inside its buffers closes
  the descriptor it opened and frees the buffer it allocated, each exactly once.
\<close>
theorem mei_amt_main_releases:
  assumes "mei_amt_main env argv1 acmd \<lparr>stderr_lines = [], evs = []\<rparr> = Some (ret, rep, io')"
  shows "run_ev {} (evs io') = Some {}"
proof -
  let ?io = "\<lparr>stderr_lines = [], evs = []\<rparr>"
  obtain ok acmd1 io1 where i: "amt_host_if_init env 5000 (argv1 = Some ''-v'') acmd ?io = (ok, acmd1, io1)"
    by (metis prod_cases3)
  note t1 = amt_host_if_init_trace [OF i]
  show ?thesis
  proof (cases ok)
    case False
    with assms i t1 show ?thesis by (simp add: mei_amt_main_def)
  next
    case True
    with assms i obtain st v acmd2 io2 where
      g: "amt_get_code_versions env acmd1 io1 = Some (st, v, acmd2, io2)"
      and "io' = snd (amt_host_if_deinit acmd2 io2)"
      by (auto simp: mei_amt_main_def Let_def split: bind_splits if_splits prod.splits)
    moreover have "run_ev {} (evs io2) = Some (mei_held (mei_cl acmd2) \<union> {})"
      using amt_get_code_versions_trace [OF g t1(1)] by simp
    ultimately show ?thesis
      using mei_deinit_trace [of "mei_cl acmd2" io2 _ _ "{}"]
      by (auto simp: amt_host_if_deinit_def split: prod.splits)
  qed
qed

definition mei_sample :: "u32 \<Rightarrow> nat + u8 list \<Rightarrow> mei_env" where
  "mei_sample sz ans = \<lparr>open_ans = Some 3, connect_ans = (\<lambda>_. (0, sz, 1)), malloc_ans = True,
     write_ans = (\<lambda>b. Inr (length b)), select_ans = (\<lambda>_. (1, True)), read_ans = ans,
     strerror = (\<lambda>_. ''I/O error'')\<rparr>"

definition acmd_sample :: amt_host_if where
  "acmd_sample = \<lparr>mei_cl = \<lparr>guid = (0, 0, 0, []), initialized = False, verbose = False,
     buf_size = 0, prot_ver = 0, fd = 0\<rparr>, send_timeout = 0, host_initialized = False\<rparr>"

section \<open>A well-formed response\<close>

definition amt_string :: "u8 list \<Rightarrow> u8 list" where
  "amt_string t = le_bytes 2 (of_nat (length t) :: u32) @ t @ replicate (20 - length t) 0"

definition amt_entry :: "u8 list \<times> u8 list \<Rightarrow> u8 list" where
  "amt_entry e = amt_string (fst e) @ amt_string (snd e)"

definition amt_data :: "u8 list \<Rightarrow> (u8 list \<times> u8 list) list \<Rightarrow> u8 list" where
  "amt_data bios vs = bios @ le_bytes 4 (of_nat (length vs) :: u32) @ concat (map amt_entry vs)"

definition amt_reply :: "u8 list \<Rightarrow> (u8 list \<times> u8 list) list \<Rightarrow> u8 list" where
  "amt_reply bios vs =
     header_bytes \<lparr>major = 1, minor = 1, reserved = 0, command = 0x0480001A,
       hlength = of_nat (73 + 44 * length vs)\<rparr>
     @ le_bytes 4 (0 :: u32) @ amt_data bios vs"

text \<open>A text fits its field with its terminator.\<close>

definition amt_text :: "u8 list \<Rightarrow> bool" where
  "amt_text t \<longleftrightarrow> length t < 20 \<and> 0 \<notin> set t"

definition amt_texts :: "(u8 list \<times> u8 list) list \<Rightarrow> bool" where
  "amt_texts vs \<longleftrightarrow> (\<forall>(d, v)\<in>set vs. amt_text d \<and> amt_text v)"

lemmas amt_sizes = sizeof_resp_header_def sizeof_msg_header_def sizeof_code_versions_def
  sizeof_version_type_def sizeof_unicode_string_def AMT_BIOS_VERSION_LEN_def
  AMT_VERSIONS_NUMBER_def AMT_UNICODE_STRING_LEN_def

lemma cstr_append: "0 \<notin> set s \<Longrightarrow> cstr (s @ 0 # zs) = Some s"
  by (induction s) auto

lemma amt_string_length: "amt_text t \<Longrightarrow> length (amt_string t) = 22"
  by (simp add: amt_string_def amt_text_def)

lemma amt_string_split:
  "amt_text t \<Longrightarrow> \<exists>zs. amt_string t @ r = le_bytes 2 (of_nat (length t) :: u32) @ t @ 0 # zs"
  by (rule exI [of _ "replicate (19 - length t) 0 @ r"])
    (auto simp: amt_string_def amt_text_def Suc_diff_le simp flip: replicate_Suc append_Cons)

lemma amt_len_word:
  "amt_text t \<Longrightarrow> unat (of_le (le_bytes 2 (of_nat (length t) :: u32)) :: u32) = length t"
  by (simp add: le_simps amt_text_def unsigned_take_bit_eq unat_of_nat take_bit_nat_eq_self)

lemma entry_at:
  assumes "amt_texts vs" and "i < length vs" and "length p = 69"
  shows "drop (descr_off i) (p @ concat (map amt_entry vs) @ z) =
     amt_entry (vs ! i) @ concat (map amt_entry (drop (Suc i) vs)) @ z"
proof -
  have len: "length (amt_entry e) = 44" if "e \<in> set vs" for e
    using that assms(1) by (force simp: amt_entry_def amt_texts_def amt_string_length)
  have "drop (i * 44) (concat (map amt_entry vs) @ z) =
      amt_entry (vs ! i) @ concat (map amt_entry (drop (Suc i) vs)) @ z"
    using assms(2) len
  proof (induction vs arbitrary: i)
    case (Cons v vs)
    then show ?case by (cases i) simp_all
  qed simp
  with assms(3) show ?thesis by (simp add: descr_off_def amt_sizes)
qed

lemma rd_cstr_drop: "rd_cstr d (off + k) = rd_cstr (drop off d) k"
  by (simp add: rd_cstr_def add.commute)

lemma unat_of_nat_text: "amt_text t \<Longrightarrow> unat (of_nat (length t) :: u32) = length t"
  by (simp add: amt_text_def unat_of_nat take_bit_nat_eq_self)

text \<open>The fields of an entry read back.\<close>

lemma entry_reads:
  assumes "amt_text t" and "amt_text v"
  shows "rd_word (amt_entry (t, v) @ r) 0 2 = Some (of_nat (length t))"
    and "rd_word (amt_entry (t, v) @ r) 22 2 = Some (of_nat (length v))"
    and "rd_word (amt_entry (t, v) @ r) (24 + length v) 1 = Some 0"
    and "rd_cstr (amt_entry (t, v) @ r) 2 = Some t"
    and "rd_cstr (amt_entry (t, v) @ r) 24 = Some v"
proof -
  obtain y where y: "amt_string t @ (amt_string v @ r) = le_bytes 2 (of_nat (length t) :: u32) @ t @ 0 # y"
    using amt_string_split [OF assms(1)] by blast
  obtain z where z: "amt_string v @ r = le_bytes 2 (of_nat (length v) :: u32) @ v @ 0 # z"
    using amt_string_split [OF assms(2)] by blast
  have lw: "of_le (le_bytes 2 (of_nat (length x) :: u32)) = (of_nat (length x) :: u32)" if "amt_text x" for x
    by (subst word_unat_eq_iff)
      (use that in \<open>simp only: amt_len_word unat_of_nat_text\<close>)
  have len: "length (amt_string t) = 22" using assms(1) by (rule amt_string_length)
  show "rd_word (amt_entry (t, v) @ r) 0 2 = Some (of_nat (length t))"
    by (simp add: rd_word_def amt_entry_def y rd_bytes_def lw [OF assms(1)])
  show "rd_cstr (amt_entry (t, v) @ r) 2 = Some t"
    using assms(1) by (simp add: rd_cstr_def amt_entry_def y cstr_append amt_text_def)
  show "rd_word (amt_entry (t, v) @ r) 22 2 = Some (of_nat (length v))"
    by (simp add: rd_word_def amt_entry_def z rd_bytes_def lw [OF assms(2)] len)
  show "rd_cstr (amt_entry (t, v) @ r) 24 = Some v"
    using assms(2) by (simp add: rd_cstr_def amt_entry_def z cstr_append amt_text_def len)
  show "rd_word (amt_entry (t, v) @ r) (24 + length v) 1 = Some 0"
    by (simp add: rd_word_def amt_entry_def z rd_bytes_def len)
qed

text \<open>An entry of a well-formed response passes the loop and prints its two texts.\<close>

lemma entry_accepted:
  assumes "amt_texts vs" and "i < length vs" and "length p = 69"
    and d_def: "d = p @ concat (map amt_entry vs) @ z"
  shows "verify_version d i = Some True"
    and "rd_cstr d (descr_off i + 2) = Some (fst (vs ! i))"
    and "rd_cstr d (vers_off i + 2) = Some (snd (vs ! i))"
proof -
  obtain t v where tv: "vs ! i = (t, v)" by (cases "vs ! i")
  then have tx: "amt_text t" "amt_text v"
    using assms(1,2) nth_mem [of i vs] by (auto simp: amt_texts_def)
  obtain r where dr: "drop (descr_off i) d = amt_entry (t, v) @ r"
    using entry_at [OF assms(1-3)] tv unfolding d_def by simp
  have "amt_entry (t, v) @ r \<noteq> []" using amt_string_length [OF tx(1)] by (auto simp: amt_entry_def)
  then have le: "descr_off i \<le> length d" using dr by (metis drop_all linear)
  have v: "vers_off i = descr_off i + 22" by (simp add: vers_off_def amt_sizes)
  have w: "rd_word d (descr_off i + k) n = rd_word (amt_entry (t, v) @ r) k n" for k n
    using rd_word_drop [OF le] dr by simp
  have c: "rd_cstr d (descr_off i + k) = rd_cstr (amt_entry (t, v) @ r) k" for k
    using rd_cstr_drop [of d "descr_off i" k] dr by simp
  show "rd_cstr d (descr_off i + 2) = Some (fst (vs ! i))"
    using c [of 2] entry_reads(4) [OF tx] tv by simp
  have c24: "rd_cstr d (vers_off i + 2) = Some v"
    using c [of 24] entry_reads(5) [OF tx] by (simp add: v add.assoc numeral_eq_Suc)
  then show "rd_cstr d (vers_off i + 2) = Some (snd (vs ! i))" using tv by simp
  have "rd_word d (descr_off i) 2 = Some (of_nat (length t))"
    using w [of 0 2] entry_reads(1) [OF tx] by simp
  moreover have "rd_word d (vers_off i) 2 = Some (of_nat (length v))"
    using w [of 22 2] entry_reads(2) [OF tx] by (simp add: v)
  moreover have "rd_word d (vers_off i + 2 + length v) 1 = Some 0"
    using w [of "24 + length v" 1] entry_reads(3) [OF tx] by (simp add: v ac_simps)
  moreover have "length t \<le> 20" using tx by (simp add: amt_text_def)
  ultimately show "verify_version d i = Some True"
    using c24 by (simp add: verify_version_def unat_of_nat_text tx amt_sizes)
qed

lemma verify_versions_ok:
  "(\<And>i. i \<in> set is \<Longrightarrow> verify_version d i = Some True) \<Longrightarrow>
   verify_versions d is = Some AMT_STATUS_SUCCESS"
  by (induction "is") simp_all

lemma version_lines_ok:
  "(\<And>i. i \<in> set is \<Longrightarrow> rd_cstr d (descr_off i + 2) = Some (f i) \<and> rd_cstr d (vers_off i + 2) = Some (g i))
   \<Longrightarrow> version_lines d is = Some (map (\<lambda>i. (f i, g i)) is)"
  by (induction "is") simp_all

lemma ver_type_cnt_exact:
  assumes "44 * n + 85 < 2 ^ 32"
  shows "ver_type_cnt (of_nat (73 + 44 * n)) = of_nat (44 * n)"
proof -
  have "(ucast (of_nat (73 + 44 * n) :: u32) :: u64) = of_nat (73 + 44 * n)"
    using assms by (intro ucast_of_nat_u32) simp
  moreover have "(of_nat (73 + 44 * n) :: u64) = 73 + of_nat (44 * n)" by simp
  moreover have "(ucast (of_nat (44 * n) :: u64) :: u32) = of_nat (44 * n)"
    using assms by (intro ucast_of_nat_u64) simp
  moreover have "(73 + x - 4 - of_nat 65 - 4 :: u64) = x" for x by simp
  ultimately show ?thesis by (simp only: ver_type_cnt_def amt_sizes)
qed

lemma count_matches:
  assumes "44 * n + 85 < 2 ^ 32"
  shows "(ucast (of_nat n :: u32) :: u64) =
     ucast (ver_type_cnt (of_nat (73 + 44 * n))) div of_nat sizeof_version_type"
proof -
  have "(ucast (of_nat (44 * n) :: u32) :: u64) = of_nat (44 * n)"
    using assms by (intro ucast_of_nat_u32) simp
  moreover have "(ucast (of_nat n :: u32) :: u64) = of_nat n"
    using assms by (intro ucast_of_nat_u32) simp
  moreover have "of_nat n = (of_nat (44 * n) div of_nat 44 :: u64)"
    using assms
    by (simp add: word_unat_eq_iff unat_div unat_of_nat_u64 del: of_nat_mult of_nat_numeral)
  ultimately show ?thesis
    unfolding ver_type_cnt_exact [OF assms] by (simp add: amt_sizes del: of_nat_mult)
qed

lemma amt_data_length:
  "amt_texts vs \<Longrightarrow> length bios = 65 \<Longrightarrow> length (amt_data bios vs) = 69 + 44 * length vs"
proof -
  have "amt_texts vs \<Longrightarrow> length (concat (map amt_entry vs)) = 44 * length vs"
    by (induction vs) (auto simp: amt_texts_def amt_entry_def amt_string_length)
  then show "amt_texts vs \<Longrightarrow> length bios = 65 \<Longrightarrow> ?thesis" by (simp add: amt_data_def)
qed

lemma header_bytes_length: "length (header_bytes h) = 12"
  by (simp add: header_bytes_def)

lemma amt_reply_length:
  "amt_texts vs \<Longrightarrow> length bios = 65 \<Longrightarrow> length (amt_reply bios vs) = 85 + 44 * length vs"
  by (simp add: amt_reply_def header_bytes_length amt_data_length)

lemma data_count:
  assumes "length bios = 65" and "44 * length vs + 85 < 2 ^ 32"
  shows "rd_word (amt_data bios vs @ z) count_off 4 = Some (of_nat (length vs))"
proof -
  have "rd_bytes (bios @ le_bytes 4 (of_nat (length vs) :: u32) @ concat (map amt_entry vs) @ z) 65 4
      = Some (le_bytes 4 (of_nat (length vs) :: u32))"
    by (rule rd_bytes_mid) (use assms in simp_all)
  then show ?thesis
    by (simp add: rd_word_def amt_data_def count_off_def amt_sizes le_simps take_bit_word_eq_self)
qed

lemma header_consts:
  "le_bytes 4 (0x0480001A :: u32) = [0x1A, 0, 0x80, 0x04]" "le_bytes 2 (0 :: u16) = [0, 0]"
  "le_bytes 4 (0 :: u32) = [0, 0, 0, 0]" "of_le [0x1A, 0, 0x80, 0x04] = (0x0480001A :: u32)"
  "of_le [0, 0] = (0 :: u32)" "of_le [0, 0, 0, 0] = (0 :: u32)" "of_le [1] = (1 :: u32)"
  by code_simp+

lemma amt_reply_split:
  "amt_reply bios vs = [1, 1, 0, 0] @ [0x1A, 0, 0x80, 0x04]
     @ le_bytes 4 (of_nat (73 + 44 * length vs) :: u32) @ [0, 0, 0, 0] @ amt_data bios vs"
  by (simp add: amt_reply_def header_bytes_def header_consts del: le_bytes.simps of_nat_add of_nat_mult)

lemma reply_fields:
  "rd_word (amt_reply bios vs @ z) 0 1 = Some 1" "rd_word (amt_reply bios vs @ z) 1 1 = Some 1"
  "rd_word (amt_reply bios vs @ z) 2 2 = Some 0"
  "rd_word (amt_reply bios vs @ z) 4 4 = Some 0x0480001A"
  "rd_word (amt_reply bios vs @ z) 8 4 = Some (of_nat (73 + 44 * length vs))"
  "rd_word (amt_reply bios vs @ z) 12 4 = Some 0"
proof -
  define l where "l = (of_nat (73 + 44 * length vs) :: u32)"
  have l: "of_le (le_bytes 4 l) = l" by (simp add: le_simps take_bit_word_eq_self)
  have r: "amt_reply bios vs @ z = [1, 1, 0, 0] @ [0x1A, 0, 0x80, 0x04] @ le_bytes 4 l
      @ [0, 0, 0, 0] @ amt_data bios vs @ z"
    by (simp add: amt_reply_split l_def)
  let ?t = "le_bytes 4 l @ [0, 0, 0, 0] @ amt_data bios vs @ z"
  show "rd_word (amt_reply bios vs @ z) 0 1 = Some 1"
    using rd_word_mid [of "[]" 0 "[1]" 1] by (simp add: r header_consts)
  show "rd_word (amt_reply bios vs @ z) 1 1 = Some 1"
    using rd_word_mid [of "[1]" 1 "[1]" 1] by (simp add: r header_consts)
  show "rd_word (amt_reply bios vs @ z) 2 2 = Some 0"
    using rd_word_mid [of "[1, 1]" 2 "[0, 0]" 2] by (simp add: r header_consts)
  show "rd_word (amt_reply bios vs @ z) 4 4 = Some 0x0480001A"
    using rd_word_mid [of "[1, 1, 0, 0]" 4 "[0x1A, 0, 0x80, 0x04]" 4 ?t] unfolding r header_consts by simp
  show "rd_word (amt_reply bios vs @ z) 8 4 = Some (of_nat (73 + 44 * length vs))"
    using rd_word_mid [of "[1, 1, 0, 0, 0x1A, 0, 0x80, 0x04]" 8 "le_bytes 4 l" 4]
    unfolding r l_def [symmetric] by (simp add: l)
  show "rd_word (amt_reply bios vs @ z) 12 4 = Some 0"
    using rd_word_mid [of "[1, 1, 0, 0, 0x1A, 0, 0x80, 0x04] @ le_bytes 4 l" 12 "[0, 0, 0, 0]" 4]
    unfolding r header_consts by simp
qed

section \<open>Runs on a device that accepts the request\<close>

definition mei_ready :: "mei_env \<Rightarrow> u32 \<Rightarrow> bool" where
  "mei_ready env sz \<longleftrightarrow> open_ans env \<noteq> None
     \<and> fst (connect_ans env MEI_IAMTHIF) = 0 \<and> fst (snd (connect_ans env MEI_IAMTHIF)) = sz
     \<and> malloc_ans env \<and> write_ans env (header_bytes CODE_VERSION_REQ) = Inr 12
     \<and> 0 < fst (select_ans env (5, 0)) \<and> snd (select_ans env (5, 0))"

text \<open>What the code makes of the answer to the read: a status and the versions.\<close>

definition read_result :: "nat \<Rightarrow> nat + u8 list \<Rightarrow> int \<times> u8 list" where
  "read_result n ans = (case ans of
     Inl e \<Rightarrow> (-1, replicate n 0)
   | Inr msg \<Rightarrow> (int (length (take n msg)), take n msg @ replicate (n - length (take n msg)) 0))"

definition judge_reply :: "int \<times> u8 list \<Rightarrow> (u32 \<times> u8 list) option" where
  "judge_reply r = (case r of (rc, buf) \<Rightarrow>
     if (word_of_int rc :: u32) = 0 then Some (AMT_STATUS_HOST_IF_EMPTY_RESPONSE, [])
     else do {
       st \<leftarrow> rd_word buf sizeof_msg_header 4;
       if st \<noteq> AMT_STATUS_SUCCESS then Some (st, [])
       else do {
         st2 \<leftarrow> amt_verify_response_header AMT_HOST_IF_CODE_VERSIONS_RESPONSE buf (word_of_int rc);
         if st2 \<noteq> AMT_STATUS_SUCCESS then Some (st2, [])
         else do {
           st3 \<leftarrow> amt_verify_code_versions buf;
           if st3 \<noteq> AMT_STATUS_SUCCESS then Some (st3, [])
           else do { v \<leftarrow> rd_bytes buf sizeof_resp_header sizeof_code_versions; Some (st3, v) } } } })"

definition report :: "u32 \<times> u8 list \<Rightarrow> (int \<times> amt_report) option" where
  "report r = (case r of (status, ver) \<Rightarrow>
     if status = AMT_STATUS_HOST_IF_EMPTY_RESPONSE then Some (0, Disabled)
     else if status = AMT_STATUS_SUCCESS then do {
       cnt \<leftarrow> rd_word ver count_off 4;
       ls \<leftarrow> version_lines ver [0..<unat cnt];
       Some (0, Enabled ls) }
     else Some (1, ErrorOccurred))"

lemma mei_recv_result:
  "\<exists>me' io'. mei_recv_msg env n me (replicate n 0) io =
     (fst (read_result n (read_ans env)), snd (read_result n (read_ans env)), me', io')"
  by (auto simp: mei_recv_msg_def read_result_def mei_deinit_def Let_def drop_replicate min_def
      split: sum.splits)

lemma req_length: "length (header_bytes CODE_VERSION_REQ) = 12"
  by (rule header_bytes_length)

lemmas amt_statuses = AMT_STATUS_SUCCESS_def AMT_STATUS_INTERNAL_ERROR_def
  AMT_STATUS_HOST_IF_EMPTY_RESPONSE_def

lemma get_versions_ready:
  assumes "mei_ready env sz" and "buf_size (mei_cl acmd) = sz" and "send_timeout acmd = 5000"
  shows "map_option (\<lambda>(st, v, _). (st, v)) (amt_get_code_versions env acmd io) =
     judge_reply (read_result (unat sz) (read_ans env))"
proof -
  have tv: "send_timeval 5000 = (5, 0)" by (simp add: send_timeval_def)
  obtain s i where sel: "select_ans env (5, 0) = (s, i)" by (cases "select_ans env (5, 0)")
  obtain io2 where w: "mei_send_msg env (send_timeout acmd) (header_bytes CODE_VERSION_REQ) (mei_cl acmd)
      (trace_ev (Acq MeiBuf) io) = (12, mei_cl acmd, io2)"
    using assms sel by (simp add: mei_send_msg_def mei_ready_def tv Let_def)
  obtain me' io3 where r: "mei_recv_msg env (unat sz) (mei_cl acmd) (replicate (unat sz) 0) io2 =
     (fst (read_result (unat sz) (read_ans env)), snd (read_result (unat sz) (read_ans env)), me', io3)"
    using mei_recv_result by blast
  obtain rc buf where rb: "read_result (unat sz) (read_ans env) = (rc, buf)"
    by (cases "read_result (unat sz) (read_ans env)")
  have m: "malloc_ans env" using assms by (simp add: mei_ready_def)
  show ?thesis
    using m w r assms(2) unfolding rb
    by (cases "rd_word buf sizeof_msg_header 4";
        cases "amt_verify_response_header AMT_HOST_IF_CODE_VERSIONS_RESPONSE buf (word_of_int rc)";
        cases "amt_verify_code_versions buf";
        cases "rd_bytes buf sizeof_resp_header sizeof_code_versions")
      (simp_all add: amt_get_code_versions_def amt_host_if_call_def judge_reply_def req_length Let_def
        amt_statuses)
qed

lemma main_ready:
  assumes "mei_ready env sz"
  shows "map_option (\<lambda>(ret, rep, _). (ret, rep)) (mei_amt_main env argv1 acmd io) =
     (judge_reply (read_result (unat sz) (read_ans env)) \<bind> report)"
proof -
  obtain n where "open_ans env = Some n" using assms by (auto simp: mei_ready_def)
  moreover obtain pv where "connect_ans env MEI_IAMTHIF = (0, sz, pv)"
    using assms by (auto simp: mei_ready_def) (metis prod.collapse)
  ultimately obtain acmd1 io1 where
    i: "amt_host_if_init env 5000 (argv1 = Some ''-v'') acmd io = (True, acmd1, io1)"
    and a: "buf_size (mei_cl acmd1) = sz" "send_timeout acmd1 = 5000"
    by (simp add: amt_host_if_init_def mei_init_def Let_def)
  note g = get_versions_ready [OF assms a, of io1]
  show ?thesis
  proof (cases "amt_get_code_versions env acmd1 io1")
    case None
    with g i show ?thesis by (simp add: mei_amt_main_def)
  next
    case (Some r)
    obtain st v acmd2 io2 where r: "r = (st, v, acmd2, io2)" by (metis prod_cases4)
    have j: "judge_reply (read_result (unat sz) (read_ans env)) = Some (st, v)"
      using g Some r by simp
    obtain acmd3 io3 where d: "amt_host_if_deinit acmd2 io2 = (acmd3, io3)"
      by (cases "amt_host_if_deinit acmd2 io2")
    show ?thesis
      by (cases "rd_word v count_off 4")
        (auto simp: mei_amt_main_def i Some r j d report_def split: bind_split)
  qed
qed

theorem mei_amt_main_releases_witness:
  "\<exists>io'. mei_amt_main (mei_sample 16 (Inr [])) None acmd_sample \<lparr>stderr_lines = [], evs = []\<rparr>
       = Some (0, Disabled, io') \<and> run_ev {} (evs io') = Some {}"
proof -
  have "mei_ready (mei_sample 16 (Inr [])) 16"
    by (simp add: mei_sample_def mei_ready_def header_bytes_length)
  from main_ready [OF this, of None acmd_sample "\<lparr>stderr_lines = [], evs = []\<rparr>"]
  obtain io' where r: "mei_amt_main (mei_sample 16 (Inr [])) None acmd_sample
      \<lparr>stderr_lines = [], evs = []\<rparr> = Some (0, Disabled, io')"
    by (auto simp: mei_sample_def judge_reply_def read_result_def report_def amt_statuses)
  from mei_amt_main_releases [OF r] r show ?thesis by blast
qed

lemma reply_header_ok:
  assumes b: "44 * length vs + 85 < 2 ^ 32"
  shows "amt_verify_response_header AMT_HOST_IF_CODE_VERSIONS_RESPONSE (amt_reply bios vs @ z)
     (of_nat (85 + 44 * length vs)) = Some 0"
proof -
  define rc where "rc = (of_nat (85 + 44 * length vs) :: u32)"
  have "unat rc = 85 + 44 * length vs"
    unfolding rc_def using b by (intro unat_of_nat_u32) simp
  moreover have "(ucast rc :: u64) = of_nat (85 + 44 * length vs)"
    unfolding rc_def using b by (intro ucast_of_nat_u32) simp
  moreover have "(ucast (of_nat (73 + 44 * length vs) :: u32) :: u64) = of_nat (73 + 44 * length vs)"
    using b by (intro ucast_of_nat_u32) simp
  ultimately show ?thesis
    unfolding rc_def [symmetric] amt_verify_response_header_def reply_fields
    by (simp add: amt_sizes amt_statuses AMT_HOST_IF_CODE_VERSIONS_RESPONSE_def
        AMT_MAJOR_VERSION_def AMT_MINOR_VERSION_def)
qed

lemma judge_good_reply:
  assumes "length bios = 65" and "amt_texts vs" and "85 + 44 * length vs \<le> unat (sz :: u32)"
    and "2285 \<le> unat sz"
  shows "\<exists>z. judge_reply (read_result (unat sz) (Inr (amt_reply bios vs))) =
     Some (0, take 2269 (amt_data bios vs @ z)) \<and> 2269 \<le> length (amt_data bios vs @ z)"
proof -
  let ?n = "length vs" and ?r = "amt_reply bios vs"
  have b: "44 * ?n + 85 < 2 ^ 32" using assms(3) unat_u32_less [of sz] by (simp del: unat_u32_less)
  have len: "length ?r = 85 + 44 * ?n" using assms(1,2) by (simp add: amt_reply_length)
  define z where "z = replicate (unat sz - length ?r) (0 :: u8)"
  have rr: "read_result (unat sz) (Inr ?r) = (int (85 + 44 * ?n), ?r @ z)"
    using assms(3) len by (simp add: read_result_def z_def)
  have zl: "2269 \<le> length (amt_data bios vs @ z)"
    using assms len amt_data_length [OF assms(2,1)] by (simp add: z_def)
  define rc where "rc = (of_nat (85 + 44 * ?n) :: u32)"
  have rcw: "word_of_int (int (85 + 44 * ?n)) = rc" unfolding rc_def by simp
  have urc: "unat rc = 85 + 44 * ?n" unfolding rc_def using b by (intro unat_of_nat_u32) simp
  then have rc0: "rc \<noteq> 0" by auto
  have d: "drop sizeof_resp_header (?r @ z) = amt_data bios vs @ z"
    by (simp add: amt_sizes amt_reply_split)
  note hdr = reply_header_ok [OF b, of bios z, folded rc_def]
  have dd: "amt_data bios vs @ z = (bios @ le_bytes 4 (of_nat ?n :: u32)) @ concat (map amt_entry vs) @ z"
    by (simp add: amt_data_def)
  have ver: "amt_verify_code_versions (?r @ z) = Some 0"
  proof -
    have "verify_versions (amt_data bios vs @ z) [0..<unat (of_nat ?n :: u32)] = Some AMT_STATUS_SUCCESS"
      using assms b
      by (intro verify_versions_ok entry_accepted(1) [OF assms(2) _ _ dd]) (simp_all add: unat_of_nat_u32)
    then show ?thesis
      unfolding amt_verify_code_versions_def reply_fields d
      using data_count [OF assms(1) b] count_matches [OF b] by (simp add: amt_statuses)
  qed
  have "rd_bytes (?r @ z) sizeof_resp_header sizeof_code_versions = Some (take 2269 (amt_data bios vs @ z))"
    using zl d by (simp add: rd_bytes_def amt_sizes amt_reply_split)
  moreover have m: "rd_word (?r @ z) sizeof_msg_header 4 = Some 0"
    by (simp add: reply_fields amt_sizes)
  ultimately have "judge_reply (read_result (unat sz) (Inr ?r)) = Some (0, take 2269 (amt_data bios vs @ z))"
    unfolding judge_reply_def rr rcw prod.case using hdr ver rc0 by (simp add: amt_statuses)
  with zl show ?thesis by blast
qed

lemma report_good_reply:
  assumes "length bios = 65" and "amt_texts vs" and "length vs \<le> 50"
    and "2269 \<le> length (amt_data bios vs @ z)"
  shows "report (0, take 2269 (amt_data bios vs @ z)) = Some (0, Enabled vs)"
proof -
  let ?p = "bios @ le_bytes 4 (of_nat (length vs) :: u32)"
  have "length (amt_data bios vs) \<le> 2269" using assms(3) amt_data_length [OF assms(2,1)] by simp
  then obtain z' where t: "take 2269 (amt_data bios vs @ z) = amt_data bios vs @ z'" by simp
  have dd: "amt_data bios vs @ z' = ?p @ concat (map amt_entry vs) @ z'" by (simp add: amt_data_def)
  have "version_lines (amt_data bios vs @ z') [0..<length vs] =
      Some (map (\<lambda>i. (fst (vs ! i), snd (vs ! i))) [0..<length vs])"
    using assms(1) by (intro version_lines_ok conjI entry_accepted(2,3) [OF assms(2) _ _ dd]) simp_all
  moreover have "rd_word (amt_data bios vs @ z') count_off 4 = Some (of_nat (length vs))"
    using assms(1,3) by (intro data_count) simp_all
  ultimately show ?thesis
    using assms(3) unfolding t by (simp add: report_def amt_statuses unat_of_nat_u32 map_nth)
qed

text \<open>
  C20. A round trip: when the device accepts the request and answers with a well-formed
  response (at most 50 entries whose texts fit their fields, and a message buffer that holds
  the whole table), \<open>main\<close> returns 0 and reports exactly the entries of the response, in
  order.
\<close>
theorem mei_amt_main_reports:
  assumes "mei_ready env sz" and "2285 \<le> unat sz"
    and "read_ans env = Inr (amt_reply bios vs)"
    and "length bios = 65" and "amt_texts vs" and "length vs \<le> 50"
  shows "\<exists>io'. mei_amt_main env argv1 acmd io = Some (0, Enabled vs, io')"
proof -
  have "85 + 44 * length vs \<le> unat sz" using assms(2,6) by simp
  from judge_good_reply [OF assms(4,5) this assms(2)] report_good_reply [OF assms(4,5,6)]
  have "(judge_reply (read_result (unat sz) (read_ans env)) \<bind> report) = Some (0, Enabled vs)"
    using assms(3) by auto
  with main_ready [OF assms(1), of argv1 acmd io] show ?thesis by auto
qed

theorem mei_amt_main_reports_witness:
  "\<exists>io'. mei_amt_main (mei_sample 4096 (Inr (amt_reply (replicate 65 0x20) [([0x41], [0x31, 0x2e])])))
     None acmd_sample \<lparr>stderr_lines = [], evs = []\<rparr> = Some (0, Enabled [([0x41], [0x31, 0x2e])], io')"
  by (rule mei_amt_main_reports [where sz = 4096 and bios = "replicate 65 0x20"])
    (simp_all add: mei_sample_def mei_ready_def header_bytes_length amt_texts_def amt_text_def)

text \<open>
  The number of entries is only compared with the length the device announces, never with
  the 50 entries \<open>struct amt_code_versions\<close> has: on a response with more entries that
  is otherwise well-formed, \<open>main\<close> reads past the end of \<open>ver\<close>.
\<close>
theorem mei_amt_main_overruns:
  assumes "mei_ready env sz" and "85 + 44 * length vs \<le> unat sz"
    and "read_ans env = Inr (amt_reply bios vs)"
    and "length bios = 65" and "amt_texts vs" and "50 < length vs"
  shows "mei_amt_main env argv1 acmd io = None"
proof -
  have sz: "2285 \<le> unat sz" using assms(2,6) by simp
  obtain z where z: "judge_reply (read_result (unat sz) (read_ans env)) =
     Some (0, take 2269 (amt_data bios vs @ z))" "2269 \<le> length (amt_data bios vs @ z)"
    using judge_good_reply [OF assms(4,5,2) sz] assms(3) by auto
  let ?v = "take 2269 (amt_data bios vs @ z)"
  have n: "44 * length vs + 85 < 2 ^ 32" using assms(2) unat_u32_less [of sz] by (simp del: unat_u32_less)
  have "rd_cstr ?v (descr_off 50 + 2) = None"
    using z(2) by (simp add: rd_cstr_def descr_off_def amt_sizes)
  then have "version_lines ?v is = None" if "50 \<in> set is" for "is"
    using that by (induction "is") (auto split: bind_splits)
  moreover have "rd_word ?v count_off 4 = Some (of_nat (length vs))"
  proof -
    have "?v = bios @ le_bytes 4 (of_nat (length vs) :: u32) @ take 2200 (concat (map amt_entry vs) @ z)"
      using assms(4) by (simp add: amt_data_def)
    then show ?thesis
      using data_count [OF assms(4) n] rd_word_mid [of bios 65 "le_bytes 4 (of_nat (length vs) :: u32)" 4]
      by (simp add: count_off_def amt_sizes amt_data_def assms(4))
  qed
  ultimately have "report (0, ?v) = None"
    using assms(6) n by (simp add: report_def amt_statuses unat_of_nat_u32)
  with main_ready [OF assms(1), of argv1 acmd io] z(1) show ?thesis by simp
qed

theorem mei_amt_main_overruns_witness:
  "mei_amt_main (mei_sample 4096 (Inr (amt_reply (replicate 65 0x20) (replicate 51 ([], [])))))
     None acmd_sample \<lparr>stderr_lines = [], evs = []\<rparr> = None"
  by (rule mei_amt_main_overruns [where sz = 4096 and bios = "replicate 65 0x20"
        and vs = "replicate 51 ([], [])"])
    (simp_all add: mei_sample_def mei_ready_def header_bytes_length amt_texts_def amt_text_def)

text \<open>
  A device that accepts the request but sends nothing is reported as disabled. A read that
  fails is not, although the code tests for it: the byte count is stored in an unsigned
  variable, so -1 passes the test \<open>out_buf_sz <= 0\<close> and the run ends with an error.
\<close>
theorem mei_amt_main_no_answer:
  assumes "mei_ready env sz" and "16 \<le> unat sz"
  shows "(read_ans env = Inr [] \<longrightarrow>
       (\<exists>io'. mei_amt_main env argv1 acmd io = Some (0, Disabled, io')))
     \<and> (read_ans env = Inl e \<longrightarrow>
       (\<exists>io'. mei_amt_main env argv1 acmd io = Some (1, ErrorOccurred, io')))"
proof (intro conjI impI)
  assume "read_ans env = Inr []"
  then have "(judge_reply (read_result (unat sz) (read_ans env)) \<bind> report) = Some (0, Disabled)"
    by (simp add: judge_reply_def read_result_def report_def amt_statuses)
  with main_ready [OF assms(1), of argv1 acmd io]
  show "\<exists>io'. mei_amt_main env argv1 acmd io = Some (0, Disabled, io')" by auto
next
  assume r: "read_ans env = Inl e"
  have w: "rd_word (replicate (unat sz) 0) k n = Some 0" if "k + n \<le> 16" for k n
  proof -
    have "of_le (replicate n 0) = (0 :: u32)" for n by (induction n) simp_all
    then show ?thesis using that assms(2) by (simp add: rd_word_def rd_bytes_def)
  qed
  have "judge_reply (read_result (unat sz) (read_ans env)) = Some (AMT_STATUS_INTERNAL_ERROR, [])"
    by (simp add: r judge_reply_def read_result_def amt_verify_response_header_def w amt_sizes amt_statuses
        AMT_HOST_IF_CODE_VERSIONS_RESPONSE_def)
  with main_ready [OF assms(1), of argv1 acmd io]
  show "\<exists>io'. mei_amt_main env argv1 acmd io = Some (1, ErrorOccurred, io')"
    by (auto simp: report_def amt_statuses)
qed

theorem mei_amt_main_no_answer_witness:
  "\<exists>io1 io2. mei_amt_main (mei_sample 16 (Inr [])) None acmd_sample \<lparr>stderr_lines = [], evs = []\<rparr>
       = Some (0, Disabled, io1)
     \<and> mei_amt_main (mei_sample 16 (Inl 5)) None acmd_sample \<lparr>stderr_lines = [], evs = []\<rparr>
       = Some (1, ErrorOccurred, io2)"
proof -
  have m: "mei_ready (mei_sample 16 a) 16" for a
    by (simp add: mei_sample_def mei_ready_def header_bytes_length)
  have s: "16 \<le> unat (16 :: u32)" by simp
  have "read_ans (mei_sample 16 a) = a" for a by (simp add: mei_sample_def)
  then show ?thesis using mei_amt_main_no_answer [OF m s] by blast
qed

lemma ucast_diff_down: "(ucast (a - b :: u64) :: u32) = ucast a - ucast b"
  by (rule word_uint_eqI)
    (simp add: uint_word_ariths unsigned_ucast_eq take_bit_eq_mod mod_mod_cancel mod_diff_eq)

lemma ucast_ucast_u32: "(ucast (ucast (a :: u32) :: u64) :: u32) = a"
  by (rule bit_word_eqI) (auto simp: bit_ucast_iff)

lemma ver_type_cnt_eq: "ver_type_cnt len = len - 73"
  by (simp add: ver_type_cnt_def amt_sizes ucast_diff_down ucast_ucast_u32)

lemma verify_versions_accepts:
  "verify_versions d is = Some AMT_STATUS_SUCCESS \<Longrightarrow> i \<in> set is \<Longrightarrow> verify_version d i = Some True"
  by (induction "is") (auto simp: amt_statuses split: bind_splits if_splits)

lemma verify_version_accepts:
  assumes "verify_version d i = Some True"
  shows "\<exists>dlen len s. rd_word d (descr_off i) 2 = Some dlen \<and> unat dlen \<le> 20
     \<and> rd_word d (vers_off i) 2 = Some len \<and> rd_cstr d (vers_off i + 2) = Some s \<and> unat len = length s"
  using assms by (auto simp: verify_version_def amt_sizes split: bind_splits if_splits)

text \<open>
  What an accepted table guarantees: the count is the one the header's length gives, no
  description is announced with more than 20 bytes, and every version is a terminated string
  of exactly the announced length.
\<close>
theorem amt_verify_accepts:
  assumes "amt_verify_code_versions resp = Some AMT_STATUS_SUCCESS"
  shows "\<exists>hlen cnt. rd_word resp 8 4 = Some hlen
     \<and> rd_word (drop 16 resp) 65 4 = Some cnt
     \<and> unat cnt = unat (hlen - 73) div 44
     \<and> (\<forall>i < unat cnt. \<exists>dlen len s.
          rd_word (drop 16 resp) (69 + 44 * i) 2 = Some dlen \<and> unat dlen \<le> 20
          \<and> rd_word (drop 16 resp) (91 + 44 * i) 2 = Some len
          \<and> rd_cstr (drop 16 resp) (93 + 44 * i) = Some s \<and> unat len = length s)"
proof -
  let ?d = "drop 16 resp"
  from assms obtain hlen cnt where h: "rd_word resp 8 4 = Some hlen" "rd_word ?d 65 4 = Some cnt"
    and q: "(ucast cnt :: u64) = ucast (hlen - 73) div 44"
    and v: "verify_versions ?d [0..<unat cnt] = Some AMT_STATUS_SUCCESS"
    by (auto simp: amt_verify_code_versions_def count_off_def ver_type_cnt_eq amt_sizes amt_statuses Let_def
        split: bind_splits if_splits)
  have "unat (ucast cnt :: u64) = unat (ucast (hlen - 73) div 44 :: u64)" using q by simp
  then have "unat cnt = unat (hlen - 73) div 44"
    by (simp add: unat_div unat_ucast_up)
  moreover have "\<exists>dlen len s. rd_word ?d (69 + 44 * i) 2 = Some dlen \<and> unat dlen \<le> 20
          \<and> rd_word ?d (91 + 44 * i) 2 = Some len
          \<and> rd_cstr ?d (93 + 44 * i) = Some s \<and> unat len = length s" if "i < unat cnt" for i
    using verify_version_accepts [OF verify_versions_accepts [OF v]] that
    by (simp add: descr_off_def vers_off_def amt_sizes mult.commute add.commute)
  ultimately show ?thesis using h by blast
qed

theorem amt_verify_accepts_witness:
  "\<exists>hlen cnt. rd_word (amt_reply (replicate 65 0) [([0x42], [0x41])]) 8 4 = Some hlen
     \<and> rd_word (drop 16 (amt_reply (replicate 65 0) [([0x42], [0x41])])) 65 4 = Some cnt
     \<and> unat cnt = unat (hlen - 73) div 44 \<and> unat cnt = 1"
proof -
  have "amt_verify_code_versions (amt_reply (replicate 65 0) [([0x42], [0x41])]) = Some AMT_STATUS_SUCCESS"
    by code_simp
  note amt_verify_accepts [OF this]
  moreover have "rd_word (drop 16 (amt_reply (replicate 65 0) [([0x42], [0x41])])) 65 4 = Some 1"
    by code_simp
  ultimately show ?thesis by auto
qed

text \<open>
  The length of a version text is not compared with the 20 bytes of its field: a
  response whose version fills the field without a terminator is accepted when the byte
  behind the field is zero.
\<close>
lemma amt_verify_accepts_unterminated:
  "amt_verify_code_versions (amt_reply (replicate 65 0) [([0x42], replicate 20 0x41)] @ [0]) =
     Some AMT_STATUS_SUCCESS"
  by code_simp

text \<open>
  The time limit of \<open>mei_send_msg\<close>: the microseconds are in range, and the limit is
  the requested number of milliseconds, only when the request is a whole number of seconds.
\<close>
lemma send_timeval_whole_seconds:
  "snd (send_timeval t) < 1000000 \<longleftrightarrow> t mod 1000 = 0"
proof -
  have m: "unat (t mod 1000) < 1000" by (simp add: unat_mod)
  then have "unat (snd (send_timeval t)) = unat (t mod 1000) * 1000000"
    by (simp add: send_timeval_def unat_word_ariths)
  then show ?thesis by (auto simp: word_less_nat_alt word_unat_eq_iff)
qed

end
