(* ===== verification/Configfs_Api.thy ===== *)
theory Configfs_Api
  imports Doc_Prelude
begin

text \<open>
  What the two configfs example modules share: the structures of the configfs interface they
  fill in (\<open>configfs_attribute\<close>, \<open>configfs_item_operations\<close>,
  \<open>configfs_group_operations\<close>, \<open>config_item_type\<close>, \<open>configfs_subsystem\<close>, as
  \<open>src/Documentation/filesystems/configfs/configfs.txt\<close> describes them), the objects of
  the examples, and the contract of an integer attribute with its round trip. The kernel's
  \<open>simple_strtoul\<close> is a parameter: it maps a text to the value read in base 10 and the
  rest of the text, the position it stores through its second argument.
\<close>

datatype cfs_errno = EINVAL | ERANGE | ENOMEM

definition INT_MAX :: u64 where "INT_MAX = 0x7fffffff"

definition S_IRUGO :: u16 where "S_IRUGO = 0x124"
definition S_IWUSR :: u16 where "S_IWUSR = 0x80"

type_synonym strtoul = "string \<Rightarrow> u64 \<times> string"

text \<open>The character a pointer into a terminated text points to.\<close>

definition peek :: "string \<Rightarrow> char" where
  "peek p = (case p of [] \<Rightarrow> CHR 0x00 | c # _ \<Rightarrow> c)"

text \<open>
  The documented behaviour of \<open>simple_strtoul(s, &p, 10)\<close>: the digits at the front are
  consumed and, when their value fits an \<open>unsigned long\<close>, that value is returned.
\<close>

definition decimal_strtoul :: "strtoul \<Rightarrow> bool" where
  "decimal_strtoul st \<longleftrightarrow> (\<forall>s. snd (st s) = dropWhile is_digit s
     \<and> (digits_val 0 (takeWhile is_digit s) < 2 ^ 64
        \<longrightarrow> fst (st s) = of_nat (digits_val 0 (takeWhile is_digit s))))"

text \<open>A function with this behaviour, for the concrete examples.\<close>

definition sample_strtoul :: strtoul where
  "sample_strtoul s = (of_nat (digits_val 0 (takeWhile is_digit s)), dropWhile is_digit s)"

lemma sample_strtoul_decimal: "decimal_strtoul sample_strtoul"
  by (simp add: decimal_strtoul_def sample_strtoul_def)

section \<open>The structures of the interface\<close>

record configfs_attribute =
  ca_name :: string
  ca_mode :: u16

text \<open>
  The methods of an item whose private object has type \<open>'s\<close>: showing and storing an
  attribute, and the release of the object.
\<close>

record 's configfs_item_operations =
  release :: "('s \<Rightarrow> 's option) option"
  show_attribute :: "(configfs_attribute \<Rightarrow> 's \<Rightarrow> string \<times> 's) option"
  store_attribute ::
    "(configfs_attribute \<Rightarrow> string \<Rightarrow> nat \<Rightarrow> 's \<Rightarrow> (cfs_errno + nat) \<times> 's) option"

text \<open>Making a child: the child object, given whether the allocation succeeds.\<close>

record ('c, 'g) configfs_group_operations =
  make_item :: "(bool \<Rightarrow> string \<Rightarrow> cfs_errno + 'c) option"
  make_group :: "(bool \<Rightarrow> string \<Rightarrow> cfs_errno + 'g) option"

record ('s, 'c, 'g) config_item_type =
  ct_item_ops :: "'s configfs_item_operations"
  ct_group_ops :: "('c, 'g) configfs_group_operations option"
  ct_attrs :: "configfs_attribute list"

section \<open>The objects of the examples\<close>

record childless =
  showme :: u32
  storeme :: u32

record simple_child =
  sc_name :: string
  sc_storeme :: u32

record simple_children =
  group_name :: string

section \<open>Facts on small integers and digits\<close>

lemma unat_ucast_INT_MAX: "w \<le> INT_MAX \<Longrightarrow> unat (ucast w :: u32) = unat w \<and> unat w < 2 ^ 31"
  by (simp add: INT_MAX_def word_le_nat_alt unsigned_ucast_eq take_bit_nat_eq_self)

lemma digit_prefix:
  "\<forall>c \<in> set ds. is_digit c \<Longrightarrow> rest = [] \<or> \<not> is_digit (hd rest) \<Longrightarrow>
   takeWhile is_digit (ds @ rest) = ds \<and> dropWhile is_digit (ds @ rest) = rest"
  by (cases rest) auto

section \<open>The contract of an integer attribute\<close>

text \<open>
  A store takes a text that is a number and at most a line end behind it; it refuses other
  texts and numbers beyond \<open>INT_MAX\<close> without a change; a show prints the number.
\<close>

locale storeme_attr =
  fixes strtoul :: strtoul
    and store :: "string \<Rightarrow> nat \<Rightarrow> 's \<Rightarrow> (cfs_errno + nat) \<times> 's"
    and show_s :: "'s \<Rightarrow> string"
    and val :: "'s \<Rightarrow> u32"
  assumes store_bad:
      "peek (snd (strtoul page)) \<notin> {CHR 0x00, newline} \<Longrightarrow> store page count s = (Inl EINVAL, s)"
    and store_range:
      "peek (snd (strtoul page)) \<in> {CHR 0x00, newline} \<Longrightarrow> INT_MAX < fst (strtoul page) \<Longrightarrow>
       store page count s = (Inl ERANGE, s)"
    and store_good:
      "peek (snd (strtoul page)) \<in> {CHR 0x00, newline} \<Longrightarrow> fst (strtoul page) \<le> INT_MAX \<Longrightarrow>
       fst (store page count s) = Inr count
       \<and> val (snd (store page count s)) = ucast (fst (strtoul page))"
    and show_val: "show_s s = show_int (sint (val s)) @ [newline]"
begin

lemma store_cases:
  "store page count s = (Inl EINVAL, s) \<or> store page count s = (Inl ERANGE, s)
   \<or> (fst (store page count s) = Inr count \<and> sint (val (snd (store page count s))) \<ge> 0)"
proof (cases "peek (snd (strtoul page)) \<in> {CHR 0x00, newline} \<and> fst (strtoul page) \<le> INT_MAX")
  case True
  have "sint (ucast w :: u32) \<ge> 0" if "w \<le> INT_MAX" for w :: u64
    using unat_ucast_INT_MAX [OF that] by (simp add: sint_small)
  with True show ?thesis using store_good by simp
next
  case False
  then show ?thesis using store_bad store_range by (meson leI)
qed

text \<open>Storing a number and showing it again.\<close>

lemma store_show:
  assumes "decimal_strtoul strtoul" and "n \<le> 0x7fffffff" and "rest = [] \<or> hd rest = newline"
  shows "fst (store (show_nat n @ rest) count s) = Inr count
     \<and> show_s (snd (store (show_nat n @ rest) count s)) = show_nat n @ [newline]"
proof -
  have tw: "takeWhile is_digit (show_nat n @ rest) = show_nat n"
    and dw: "dropWhile is_digit (show_nat n @ rest) = rest"
    using assms(3) show_nat_digits [of n] digit_prefix [of "show_nat n" rest]
    by (auto simp: is_digit_def)
  have st: "snd (strtoul (show_nat n @ rest)) = rest" "fst (strtoul (show_nat n @ rest)) = of_nat n"
    using assms(1,2) unfolding decimal_strtoul_def by (simp_all add: tw dw)
  have p: "peek rest \<in> {CHR 0x00, newline}"
    using assms(3) by (cases rest) (auto simp: peek_def)
  have le: "(of_nat n :: u64) \<le> INT_MAX"
    using assms(2) by (simp add: INT_MAX_def word_le_nat_alt unat_of_nat_u64)
  have "sint (ucast (of_nat n :: u64) :: u32) = int n"
    using assms(2) by (simp add: ucast_of_nat_u64 sint_small unat_of_nat_u32)
  with store_good [of "show_nat n @ rest" count s] st p le show ?thesis
    by (simp add: show_val show_int_def)
qed

end

end
