(* ===== verification/Configfs_Explicit.thy ===== *)
theory Configfs_Explicit
  imports Configfs_Api
begin

unbundle bit_operations_syntax

text \<open>
  Model of \<open>src/Documentation/filesystems/configfs/configfs_example_explicit.c\<close>: the
  attribute methods of its three subsystems, the method tables, module initialisation and
  exit. A show method returns the text it puts in the page (its return value is the length
  of that text); allocation outcomes and the results of registration are arguments.
\<close>

section \<open>01-childless\<close>

definition childless_showme_read :: "childless \<Rightarrow> string \<times> childless" where
  "childless_showme_read c =
     (show_int (sint (showme c)) @ [newline], c\<lparr>showme := showme c + 1\<rparr>)"

definition childless_storeme_read :: "childless \<Rightarrow> string \<times> childless" where
  "childless_storeme_read c = (show_int (sint (storeme c)) @ [newline], c)"

definition childless_storeme_write ::
  "strtoul \<Rightarrow> string \<Rightarrow> nat \<Rightarrow> childless \<Rightarrow> (cfs_errno + nat) \<times> childless" where
  "childless_storeme_write strtoul page count c =
     (let (tmp, p) = strtoul page in
      if peek p \<noteq> CHR 0x00 \<and> peek p \<noteq> newline then (Inl EINVAL, c)
      else if tmp > INT_MAX then (Inl ERANGE, c)
      else (Inr count, c\<lparr>storeme := ucast tmp\<rparr>))"

definition childless_description_read :: "childless \<Rightarrow> string \<times> childless" where
  "childless_description_read c =
     (''[01-childless]'' @ [newline, newline]
      @ ''The childless subsystem is the simplest possible subsystem in'' @ [newline]
      @ ''configfs.  It does not support the creation of child config_items.'' @ [newline]
      @ ''It only has a few attributes.  In fact, it isn'' @ [CHR 0x27]
      @ ''t much different'' @ [newline]
      @ ''than a directory in /proc.'' @ [newline], c)"

record childless_attribute =
  attr :: configfs_attribute
  ca_show :: "(childless \<Rightarrow> string \<times> childless) option"
  ca_store :: "(strtoul \<Rightarrow> string \<Rightarrow> nat \<Rightarrow> childless \<Rightarrow> (cfs_errno + nat) \<times> childless) option"

definition childless_attr_showme :: childless_attribute where
  "childless_attr_showme = \<lparr>attr = \<lparr>ca_name = ''showme'', ca_mode = S_IRUGO\<rparr>,
     ca_show = Some childless_showme_read, ca_store = None\<rparr>"

definition childless_attr_storeme :: childless_attribute where
  "childless_attr_storeme = \<lparr>attr = \<lparr>ca_name = ''storeme'', ca_mode = S_IRUGO OR S_IWUSR\<rparr>,
     ca_show = Some childless_storeme_read, ca_store = Some childless_storeme_write\<rparr>"

definition childless_attr_description :: childless_attribute where
  "childless_attr_description = \<lparr>attr = \<lparr>ca_name = ''description'', ca_mode = S_IRUGO\<rparr>,
     ca_show = Some childless_description_read, ca_store = None\<rparr>"

definition childless_attrs :: "configfs_attribute list" where
  "childless_attrs =
     [attr childless_attr_showme, attr childless_attr_storeme, attr childless_attr_description]"

text \<open>
  \<open>container_of(attr, struct childless_attribute, attr)\<close>: the attribute a member of
  \<open>childless_attrs\<close> is embedded in.
\<close>

definition to_childless_attribute :: "configfs_attribute \<Rightarrow> childless_attribute option" where
  "to_childless_attribute a =
     find (\<lambda>ca. attr ca = a)
       [childless_attr_showme, childless_attr_storeme, childless_attr_description]"

definition childless_attr_show :: "configfs_attribute \<Rightarrow> childless \<Rightarrow> string \<times> childless" where
  "childless_attr_show a c =
     (case Option.bind (to_childless_attribute a) ca_show of
        Some f \<Rightarrow> f c
      | None \<Rightarrow> ([], c))"

definition childless_attr_store ::
  "strtoul \<Rightarrow> configfs_attribute \<Rightarrow> string \<Rightarrow> nat \<Rightarrow> childless \<Rightarrow> (cfs_errno + nat) \<times> childless" where
  "childless_attr_store strtoul a page count c =
     (case Option.bind (to_childless_attribute a) ca_store of
        Some f \<Rightarrow> f strtoul page count c
      | None \<Rightarrow> (Inl EINVAL, c))"

definition childless_item_ops :: "strtoul \<Rightarrow> childless configfs_item_operations" where
  "childless_item_ops strtoul = \<lparr>release = None, show_attribute = Some childless_attr_show,
     store_attribute = Some (childless_attr_store strtoul)\<rparr>"

definition childless_type :: "strtoul \<Rightarrow> (childless, simple_child, simple_children) config_item_type" where
  "childless_type strtoul =
     \<lparr>ct_item_ops = childless_item_ops strtoul, ct_group_ops = None, ct_attrs = childless_attrs\<rparr>"

text \<open>The subsystem's name and its object; static storage starts as zeros.\<close>

definition childless_subsys :: "string \<times> childless" where
  "childless_subsys = (''01-childless'', \<lparr>showme = 0, storeme = 0\<rparr>)"

section \<open>02-simple-children\<close>

definition simple_child_attr_storeme :: configfs_attribute where
  "simple_child_attr_storeme = \<lparr>ca_name = ''storeme'', ca_mode = S_IRUGO OR S_IWUSR\<rparr>"

definition simple_child_attrs :: "configfs_attribute list" where
  "simple_child_attrs = [simple_child_attr_storeme]"

definition simple_child_attr_show :: "configfs_attribute \<Rightarrow> simple_child \<Rightarrow> string \<times> simple_child" where
  "simple_child_attr_show a k = (show_int (sint (sc_storeme k)) @ [newline], k)"

definition simple_child_attr_store ::
  "strtoul \<Rightarrow> configfs_attribute \<Rightarrow> string \<Rightarrow> nat \<Rightarrow> simple_child
    \<Rightarrow> (cfs_errno + nat) \<times> simple_child" where
  "simple_child_attr_store strtoul a page count k =
     (let (tmp, p) = strtoul page in
      if peek p \<noteq> CHR 0x00 \<and> peek p \<noteq> newline then (Inl EINVAL, k)
      else if tmp > INT_MAX then (Inl ERANGE, k)
      else (Inr count, k\<lparr>sc_storeme := ucast tmp\<rparr>))"

definition simple_child_release :: "simple_child \<Rightarrow> simple_child option" where
  "simple_child_release k = None"

definition simple_child_item_ops :: "strtoul \<Rightarrow> simple_child configfs_item_operations" where
  "simple_child_item_ops strtoul = \<lparr>release = Some simple_child_release,
     show_attribute = Some simple_child_attr_show,
     store_attribute = Some (simple_child_attr_store strtoul)\<rparr>"

definition simple_child_type ::
  "strtoul \<Rightarrow> (simple_child, simple_child, simple_children) config_item_type" where
  "simple_child_type strtoul =
     \<lparr>ct_item_ops = simple_child_item_ops strtoul, ct_group_ops = None,
      ct_attrs = simple_child_attrs\<rparr>"

definition simple_children_make_item :: "bool \<Rightarrow> string \<Rightarrow> cfs_errno + simple_child" where
  "simple_children_make_item kzalloc_ok name =
     (if \<not> kzalloc_ok then Inl ENOMEM else Inr \<lparr>sc_name = name, sc_storeme = 0\<rparr>)"

definition simple_children_attr_description :: configfs_attribute where
  "simple_children_attr_description = \<lparr>ca_name = ''description'', ca_mode = S_IRUGO\<rparr>"

definition simple_children_attrs :: "configfs_attribute list" where
  "simple_children_attrs = [simple_children_attr_description]"

definition simple_children_attr_show ::
  "configfs_attribute \<Rightarrow> simple_children \<Rightarrow> string \<times> simple_children" where
  "simple_children_attr_show a g =
     (''[02-simple-children]'' @ [newline, newline]
      @ ''This subsystem allows the creation of child config_items.  These'' @ [newline]
      @ ''items have only one attribute that is readable and writeable.'' @ [newline], g)"

definition simple_children_release :: "simple_children \<Rightarrow> simple_children option" where
  "simple_children_release g = None"

definition simple_children_item_ops :: "simple_children configfs_item_operations" where
  "simple_children_item_ops = \<lparr>release = Some simple_children_release,
     show_attribute = Some simple_children_attr_show, store_attribute = None\<rparr>"

definition simple_children_group_ops ::
  "(simple_child, simple_children) configfs_group_operations" where
  "simple_children_group_ops = \<lparr>make_item = Some simple_children_make_item, make_group = None\<rparr>"

definition simple_children_type ::
  "(simple_children, simple_child, simple_children) config_item_type" where
  "simple_children_type = \<lparr>ct_item_ops = simple_children_item_ops,
     ct_group_ops = Some simple_children_group_ops, ct_attrs = simple_children_attrs\<rparr>"

definition simple_children_subsys :: "string \<times> simple_children" where
  "simple_children_subsys = (''02-simple-children'', \<lparr>group_name = ''02-simple-children''\<rparr>)"

section \<open>03-group-children\<close>

definition group_children_make_group :: "bool \<Rightarrow> string \<Rightarrow> cfs_errno + simple_children" where
  "group_children_make_group kzalloc_ok name =
     (if \<not> kzalloc_ok then Inl ENOMEM else Inr \<lparr>group_name = name\<rparr>)"

definition group_children_attr_description :: configfs_attribute where
  "group_children_attr_description = \<lparr>ca_name = ''description'', ca_mode = S_IRUGO\<rparr>"

definition group_children_attrs :: "configfs_attribute list" where
  "group_children_attrs = [group_children_attr_description]"

definition group_children_attr_show :: "configfs_attribute \<Rightarrow> unit \<Rightarrow> string \<times> unit" where
  "group_children_attr_show a u =
     (''[03-group-children]'' @ [newline, newline]
      @ ''This subsystem allows the creation of child config_groups.  These'' @ [newline]
      @ ''groups are like the subsystem simple-children.'' @ [newline], u)"

definition group_children_item_ops :: "unit configfs_item_operations" where
  "group_children_item_ops = \<lparr>release = None, show_attribute = Some group_children_attr_show,
     store_attribute = None\<rparr>"

definition group_children_group_ops ::
  "(simple_child, simple_children) configfs_group_operations" where
  "group_children_group_ops = \<lparr>make_item = None, make_group = Some group_children_make_group\<rparr>"

definition group_children_type :: "(unit, simple_child, simple_children) config_item_type" where
  "group_children_type = \<lparr>ct_item_ops = group_children_item_ops,
     ct_group_ops = Some group_children_group_ops, ct_attrs = group_children_attrs\<rparr>"

definition group_children_subsys :: "string \<times> unit" where
  "group_children_subsys = (''03-group-children'', ())"

section \<open>The module\<close>

text \<open>
  The subsystems by name. \<open>reg\<close> gives the result of \<open>configfs_register_subsystem\<close>;
  the trace records what is registered and unregistered, the last component what is logged.
\<close>

definition example_subsys :: "string list" where
  "example_subsys =
     [fst childless_subsys, fst simple_children_subsys, fst group_children_subsys]"

definition register_error :: "int \<Rightarrow> string \<Rightarrow> string" where
  "register_error ret name =
     ''Error '' @ show_int ret @ '' while registering subsystem '' @ name"

text \<open>The registration loop from index \<open>i\<close> on, with the roll back of \<open>out_unregister\<close>.\<close>

fun register_loop :: "(string \<Rightarrow> int) \<Rightarrow> string list \<Rightarrow> string list \<Rightarrow> int \<times> string ev list \<times> string list" where
  "register_loop reg done [] = (0, [], [])"
| "register_loop reg done (n # ns) =
     (let ret = reg n in
      if ret \<noteq> 0 then (ret, map Rel (rev done), [register_error ret n])
      else case register_loop reg (done @ [n]) ns of (r, tr, lg) \<Rightarrow> (r, Acq n # tr, lg))"

definition configfs_example_init :: "(string \<Rightarrow> int) \<Rightarrow> int \<times> string ev list \<times> string list" where
  "configfs_example_init reg = register_loop reg [] example_subsys"

definition configfs_example_exit :: "string ev list" where
  "configfs_example_exit = map Rel example_subsys"

section \<open>Calls into the module\<close>

text \<open>
  configfs calls the methods of the tables in any order. The state is the childless object
  and the children and groups that exist, by address; a call on an address without an object
  does not occur and changes nothing here. A call carries the outcome of its allocation.
\<close>

record cfs_state =
  cl :: childless
  kids :: "nat \<rightharpoonup> simple_child"
  grps :: "nat \<rightharpoonup> simple_children"

datatype cfs_call =
    ShowChildless configfs_attribute
  | StoreChildless configfs_attribute string nat
  | MakeItem nat bool string
  | ShowChild nat configfs_attribute
  | StoreChild nat configfs_attribute string nat
  | ReleaseChild nat
  | MakeGroup nat bool string
  | ReleaseGroup nat

definition cfs_step :: "strtoul \<Rightarrow> cfs_state \<Rightarrow> cfs_call \<Rightarrow> cfs_state" where
  "cfs_step strtoul st call = (case call of
     ShowChildless a \<Rightarrow>
       (case show_attribute (childless_item_ops strtoul) of
          None \<Rightarrow> st | Some f \<Rightarrow> st\<lparr>cl := snd (f a (cl st))\<rparr>)
   | StoreChildless a page count \<Rightarrow>
       (case store_attribute (childless_item_ops strtoul) of
          None \<Rightarrow> st | Some f \<Rightarrow> st\<lparr>cl := snd (f a page count (cl st))\<rparr>)
   | MakeItem p ok name \<Rightarrow>
       (case make_item simple_children_group_ops of
          None \<Rightarrow> st
        | Some f \<Rightarrow> (case f ok name of Inl e \<Rightarrow> st | Inr k \<Rightarrow> st\<lparr>kids := (kids st)(p \<mapsto> k)\<rparr>))
   | ShowChild p a \<Rightarrow>
       (case (show_attribute (simple_child_item_ops strtoul), kids st p) of
          (Some f, Some k) \<Rightarrow> st\<lparr>kids := (kids st)(p \<mapsto> snd (f a k))\<rparr> | _ \<Rightarrow> st)
   | StoreChild p a page count \<Rightarrow>
       (case (store_attribute (simple_child_item_ops strtoul), kids st p) of
          (Some f, Some k) \<Rightarrow> st\<lparr>kids := (kids st)(p \<mapsto> snd (f a page count k))\<rparr> | _ \<Rightarrow> st)
   | ReleaseChild p \<Rightarrow>
       (case (release (simple_child_item_ops strtoul), kids st p) of
          (Some f, Some k) \<Rightarrow> st\<lparr>kids := (kids st)(p := f k)\<rparr> | _ \<Rightarrow> st)
   | MakeGroup p ok name \<Rightarrow>
       (case make_group group_children_group_ops of
          None \<Rightarrow> st
        | Some f \<Rightarrow> (case f ok name of Inl e \<Rightarrow> st | Inr g \<Rightarrow> st\<lparr>grps := (grps st)(p \<mapsto> g)\<rparr>))
   | ReleaseGroup p \<Rightarrow>
       (case (release simple_children_item_ops, grps st p) of
          (Some f, Some g) \<Rightarrow> st\<lparr>grps := (grps st)(p := f g)\<rparr> | _ \<Rightarrow> st))"

definition cfs_inv :: "cfs_state \<Rightarrow> bool" where
  "cfs_inv st \<longleftrightarrow> 0 \<le> sint (storeme (cl st))
     \<and> (\<forall>p k. kids st p = Some k \<longrightarrow> 0 \<le> sint (sc_storeme k))"

interpretation ex_childless: storeme_attr strtoul "childless_storeme_write strtoul"
  "\<lambda>c. fst (childless_storeme_read c)" storeme for strtoul
  by unfold_locales
    (auto simp: childless_storeme_write_def childless_storeme_read_def not_less split: prod.splits)

interpretation ex_child: storeme_attr strtoul "simple_child_attr_store strtoul a"
  "\<lambda>k. fst (simple_child_attr_show a k)" sc_storeme for strtoul a
  by unfold_locales
    (auto simp: simple_child_attr_store_def simple_child_attr_show_def not_less split: prod.splits)

lemmas cfs_tables = childless_item_ops_def simple_child_item_ops_def simple_children_item_ops_def
  simple_children_group_ops_def group_children_group_ops_def

lemmas childless_attr_defs = childless_attr_showme_def childless_attr_storeme_def
  childless_attr_description_def

lemma childless_attr_show_storeme [simp]:
  "storeme (snd (childless_attr_show a c)) = storeme c"
  by (simp add: childless_attr_show_def to_childless_attribute_def childless_attr_defs
      childless_showme_read_def childless_storeme_read_def childless_description_read_def)

lemma childless_attr_store_cases:
  "childless_attr_store strtoul a page count c = childless_storeme_write strtoul page count c
   \<or> childless_attr_store strtoul a page count c = (Inl EINVAL, c)"
  by (simp add: childless_attr_store_def to_childless_attribute_def childless_attr_defs)

lemma childless_attr_store_nonneg:
  "0 \<le> sint (storeme c) \<Longrightarrow> 0 \<le> sint (storeme (snd (childless_attr_store strtoul a page count c)))"
  using childless_attr_store_cases [of strtoul a page count c]
    ex_childless.store_cases [of strtoul page count c] by auto

lemma simple_child_store_nonneg:
  "0 \<le> sint (sc_storeme k) \<Longrightarrow> 0 \<le> sint (sc_storeme (snd (simple_child_attr_store strtoul a page count k)))"
  using ex_child.store_cases [of strtoul a page count k] by auto

interpretation cfs: inv_machine "cfs_step strtoul" cfs_inv for strtoul
proof
  fix st call assume i: "cfs_inv st"
  then show "cfs_inv (cfs_step strtoul st call)"
    by (cases call)
      (auto simp: cfs_step_def cfs_inv_def cfs_tables simple_children_make_item_def
        simple_child_release_def simple_child_attr_show_def group_children_make_group_def
        childless_attr_store_nonneg simple_child_store_nonneg split: option.splits)
qed

lemma register_loop_spec:
  "register_loop reg before ns =
     (case dropWhile (\<lambda>n. reg n = 0) ns of
        [] \<Rightarrow> (0, map Acq ns, [])
      | n # _ \<Rightarrow> (reg n, map Acq (takeWhile (\<lambda>n. reg n = 0) ns)
            @ map Rel (rev (before @ takeWhile (\<lambda>n. reg n = 0) ns)), [register_error (reg n) n]))"
  by (induction ns arbitrary: before)
    (auto simp: Let_def simp del: dropWhile_eq_Nil_conv split: list.split)

lemma example_subsys_distinct: "distinct example_subsys"
  by (simp add: example_subsys_def childless_subsys_def simple_children_subsys_def
      group_children_subsys_def)

lemma rollback_trace: "distinct ps \<Longrightarrow> run_ev {} (map Acq ps @ map Rel (rev ps)) = Some {}"
  by (simp add: run_ev_append run_ev_Acq_list run_ev_Rel_list)

lemma init_trace:
  assumes "configfs_example_init reg = (r, tr, lg)"
  shows "if r = 0 then tr = map Acq example_subsys else run_ev {} tr = Some {}"
proof (cases "dropWhile (\<lambda>n. reg n = 0) example_subsys")
  case Nil
  with assms show ?thesis by (simp add: configfs_example_init_def register_loop_spec)
next
  case (Cons n ns)
  have "reg n \<noteq> 0" using hd_dropWhile [of "\<lambda>n. reg n = 0" example_subsys] Cons by simp
  moreover have "distinct (takeWhile (\<lambda>n. reg n = 0) example_subsys)"
    using example_subsys_distinct by simp
  ultimately show ?thesis
    using assms Cons rollback_trace by (auto simp: configfs_example_init_def register_loop_spec)
qed

interpretation example_module: acquire_release
  "\<lambda>reg s. case configfs_example_init reg of (r, tr, lg) \<Rightarrow> (r = 0, s, tr)"
  "\<lambda>s. (s, configfs_example_exit)" "\<lambda>s. set example_subsys"
  using example_subsys_distinct
  by unfold_locales
    (auto dest: init_trace simp: run_ev_Acq_list run_ev_Rel_list configfs_example_exit_def
      split: prod.splits)

section \<open>Properties\<close>

text \<open>
  C13. Whatever methods configfs calls, in whatever order and with whatever texts and
  allocation failures, every \<open>storeme\<close> value of the module stays between 0 and
  \<open>INT_MAX\<close>; nothing is assumed of \<open>simple_strtoul\<close>.
\<close>
theorem cfs_storeme_bounded:
  "cfs_inv (foldl (cfs_step strtoul)
     \<lparr>cl = snd childless_subsys, kids = Map.empty, grps = Map.empty\<rparr> calls)"
  by (rule cfs.run_inv) (simp add: cfs_inv_def childless_subsys_def)

text \<open>
  A number up to \<open>INT_MAX\<close> written in decimal to the \<open>storeme\<close> attribute of the
  childless object or of a child, with or without a line end, is accepted and reads back as
  the same number followed by a line end.
\<close>
theorem storeme_store_show:
  assumes "decimal_strtoul strtoul" and "n \<le> 0x7fffffff" and "rest = [] \<or> hd rest = newline"
  shows "(case childless_attr_store strtoul (attr childless_attr_storeme) (show_nat n @ rest) count c of
       (r, c') \<Rightarrow> r = Inr count
         \<and> fst (childless_attr_show (attr childless_attr_storeme) c') = show_nat n @ [newline])
   \<and> (case simple_child_attr_store strtoul a (show_nat n @ rest) count k of
       (r, k') \<Rightarrow> r = Inr count \<and> fst (simple_child_attr_show a k') = show_nat n @ [newline])"
  using ex_childless.store_show [OF assms, of count c] ex_child.store_show [OF assms, of a count k]
  by (auto simp: childless_attr_store_def childless_attr_show_def to_childless_attribute_def
      childless_attr_defs split: prod.splits)

theorem storeme_store_show_witness:
  "(case childless_attr_store sample_strtoul (attr childless_attr_storeme) (show_nat 42 @ [newline]) 3
       (snd childless_subsys) of
       (r, c') \<Rightarrow> r = Inr 3
         \<and> fst (childless_attr_show (attr childless_attr_storeme) c') = show_nat 42 @ [newline])
   \<and> (case simple_child_attr_store sample_strtoul simple_child_attr_storeme (show_nat 42 @ [newline]) 3
       \<lparr>sc_name = ''k'', sc_storeme = 0\<rparr> of
       (r, k') \<Rightarrow> r = Inr 3
         \<and> fst (simple_child_attr_show simple_child_attr_storeme k') = show_nat 42 @ [newline])"
  by (rule storeme_store_show) (simp_all add: sample_strtoul_decimal)

text \<open>
  What a write to the childless object does, for every attribute: only \<open>storeme\<close> can
  be written; a text that is not a number (with at most a line end behind it) is refused
  with \<open>EINVAL\<close>, a number beyond \<open>INT_MAX\<close> with \<open>ERANGE\<close>, both without a
  change; any other number is stored and the count returned.
\<close>
theorem childless_store_outcomes:
  assumes "decimal_strtoul strtoul" and "digits_val 0 (takeWhile is_digit page) < 2 ^ 64"
  shows "childless_attr_store strtoul a page count c =
    (if a \<noteq> \<lparr>ca_name = ''storeme'', ca_mode = S_IRUGO OR S_IWUSR\<rparr> then (Inl EINVAL, c)
     else if dropWhile is_digit page \<noteq> [] \<and> hd (dropWhile is_digit page) \<notin> {CHR 0x00, newline}
     then (Inl EINVAL, c)
     else if digits_val 0 (takeWhile is_digit page) > 0x7fffffff then (Inl ERANGE, c)
     else (Inr count, c\<lparr>storeme := of_nat (digits_val 0 (takeWhile is_digit page))\<rparr>))"
proof -
  let ?v = "digits_val 0 (takeWhile is_digit page)" and ?r = "dropWhile is_digit page"
  have st: "strtoul page = (of_nat ?v, ?r)"
    using assms unfolding decimal_strtoul_def by (metis prod.collapse)
  have "INT_MAX < of_nat ?v \<longleftrightarrow> 0x7fffffff < ?v"
    using assms(2) by (simp add: INT_MAX_def word_less_nat_alt unat_of_nat_u64)
  moreover have "?v \<le> 0x7fffffff \<Longrightarrow> (ucast (of_nat ?v :: u64) :: u32) = of_nat ?v"
    by (rule ucast_of_nat_u64) simp
  moreover have "peek r \<noteq> CHR 0x00 \<and> peek r \<noteq> newline \<longleftrightarrow> r \<noteq> [] \<and> hd r \<notin> {CHR 0x00, newline}" for r
    by (cases r) (simp_all add: peek_def)
  moreover have "childless_attr_store strtoul a page count c =
      (if a = attr childless_attr_storeme then childless_storeme_write strtoul page count c
       else (Inl EINVAL, c))"
    by (simp add: childless_attr_store_def to_childless_attribute_def childless_attr_defs)
  ultimately show ?thesis
    by (simp add: childless_attr_storeme_def childless_storeme_write_def st not_less)
qed

theorem childless_store_outcomes_witness:
  "childless_attr_store sample_strtoul (attr childless_attr_storeme) ''12x'' 3 (snd childless_subsys) =
     (Inl EINVAL, snd childless_subsys)"
proof -
  have v: "digits_val 0 (takeWhile is_digit ''12x'') < 2 ^ 64"
    by (simp add: is_digit_def digit_val_def)
  have "dropWhile is_digit ''12x'' = ''x''" by (simp add: is_digit_def)
  then show ?thesis
    using childless_store_outcomes [OF sample_strtoul_decimal v]
    by (simp add: childless_attr_storeme_def)
qed

text \<open>
  Reading \<open>showme\<close> counts: the read after \<open>n\<close> others prints the first value plus
  \<open>n\<close>, modulo \<open>2 ^ 32\<close> as a signed number.
\<close>
theorem showme_counts:
  "fst (childless_attr_show (attr childless_attr_showme)
      (((\<lambda>c. snd (childless_attr_show (attr childless_attr_showme) c)) ^^ n) c)) =
   show_int (sint (showme c + of_nat n)) @ [newline]"
proof -
  let ?f = "\<lambda>c. snd (childless_attr_show (attr childless_attr_showme) c)"
  have s: "childless_attr_show (attr childless_attr_showme) c =
      (show_int (sint (showme c)) @ [newline], c\<lparr>showme := showme c + 1\<rparr>)" for c
    by (simp add: childless_attr_show_def to_childless_attribute_def childless_attr_defs
        childless_showme_read_def)
  have "showme ((?f ^^ n) c) = showme c + of_nat n"
    by (induction n) (simp_all add: s)
  then show ?thesis by (simp add: s)
qed

text \<open>
  Loading the module: all three subsystems are registered in order, or, when the first
  failing registration is that of \<open>n\<close>, its error is logged and returned and the ones
  before are unregistered in reverse order. Loading and unloading leave nothing registered.
\<close>
theorem configfs_init_rolls_back:
  "configfs_example_init reg =
     (let ok = takeWhile (\<lambda>n. reg n = 0) example_subsys in
      case dropWhile (\<lambda>n. reg n = 0) example_subsys of
        [] \<Rightarrow> (0, map Acq example_subsys, [])
      | n # _ \<Rightarrow> (reg n, map Acq ok @ map Rel (rev ok), [register_error (reg n) n]))
   \<and> (case configfs_example_init reg of (r, tr, lg) \<Rightarrow>
        run_ev {} (if r = 0 then tr @ configfs_example_exit else tr) = Some {})"
proof
  show "case configfs_example_init reg of (r, tr, lg) \<Rightarrow>
        run_ev {} (if r = 0 then tr @ configfs_example_exit else tr) = Some {}"
    using example_module.session_leaves_nothing [of reg "0 :: nat", unfolded example_module.session_def]
    by (auto split: prod.splits)
qed (simp only: configfs_example_init_def register_loop_spec Let_def append_Nil)

end
