(* ===== verification/Configfs_Macros.thy ===== *)
theory Configfs_Macros
  imports Configfs_Explicit
begin

unbundle bit_operations_syntax

text \<open>
  Model of \<open>src/Documentation/filesystems/configfs/configfs_example_macros.c\<close>, the same
  module written with the attribute macros of \<open>linux/configfs.h\<close>. Its functions, tables,
  initialisation and exit are translated from that file (suffix \<open>_m\<close>). The macros are
  an argument, the record \<open>cfs_macros\<close>; what
  \<open>src/Documentation/filesystems/configfs/configfs.txt\<close> says of them is the predicate
  \<open>macros_documented\<close>. The position
  \<open>simple_strtoul\<close> stores is never NULL, so the test \<open>!p\<close> does not appear.
  The theory shows that the two modules behave alike.
\<close>

section \<open>01-childless\<close>

definition childless_showme_read_m :: "childless \<Rightarrow> string \<times> childless" where
  "childless_showme_read_m c =
     (show_int (sint (showme c)) @ [newline], c\<lparr>showme := showme c + 1\<rparr>)"

definition childless_storeme_read_m :: "childless \<Rightarrow> string \<times> childless" where
  "childless_storeme_read_m c = (show_int (sint (storeme c)) @ [newline], c)"

definition childless_storeme_write_m ::
  "strtoul \<Rightarrow> string \<Rightarrow> nat \<Rightarrow> childless \<Rightarrow> (cfs_errno + nat) \<times> childless" where
  "childless_storeme_write_m strtoul page count c =
     (let (tmp, p) = strtoul page in
      if peek p \<noteq> CHR 0x00 \<and> peek p \<noteq> newline then (Inl EINVAL, c)
      else if tmp > INT_MAX then (Inl ERANGE, c)
      else (Inr count, c\<lparr>storeme := ucast tmp\<rparr>))"

definition childless_description_read_m :: "childless \<Rightarrow> string \<times> childless" where
  "childless_description_read_m c =
     (''[01-childless]'' @ [newline, newline]
      @ ''The childless subsystem is the simplest possible subsystem in'' @ [newline]
      @ ''configfs.  It does not support the creation of child config_items.'' @ [newline]
      @ ''It only has a few attributes.  In fact, it isn'' @ [CHR 0x27]
      @ ''t much different'' @ [newline]
      @ ''than a directory in /proc.'' @ [newline], c)"

text \<open>
  The macros: an attribute with its two methods, a read-only attribute, and the two operations
  generated for the attributes of the item.
\<close>

record cfs_macros =
  CONFIGFS_ATTR :: "string \<Rightarrow> u16 \<Rightarrow> (childless \<Rightarrow> string \<times> childless)
    \<Rightarrow> (strtoul \<Rightarrow> string \<Rightarrow> nat \<Rightarrow> childless \<Rightarrow> (cfs_errno + nat) \<times> childless) \<Rightarrow> childless_attribute"
  CONFIGFS_ATTR_RO :: "string \<Rightarrow> (childless \<Rightarrow> string \<times> childless) \<Rightarrow> childless_attribute"
  CONFIGFS_ATTR_OPS_show :: "childless_attribute list \<Rightarrow> configfs_attribute \<Rightarrow> childless \<Rightarrow> string \<times> childless"
  CONFIGFS_ATTR_OPS_store :: "childless_attribute list \<Rightarrow> strtoul \<Rightarrow> configfs_attribute \<Rightarrow> string \<Rightarrow> nat \<Rightarrow> childless
    \<Rightarrow> (cfs_errno + nat) \<times> childless"

definition childless_attr_showme_m :: "cfs_macros \<Rightarrow> childless_attribute" where
  "childless_attr_showme_m M = CONFIGFS_ATTR_RO M ''showme'' childless_showme_read_m"

definition childless_attr_storeme_m :: "cfs_macros \<Rightarrow> childless_attribute" where
  "childless_attr_storeme_m M =
     CONFIGFS_ATTR M ''storeme'' (S_IRUGO OR S_IWUSR) childless_storeme_read_m childless_storeme_write_m"

definition childless_attr_description_m :: "cfs_macros \<Rightarrow> childless_attribute" where
  "childless_attr_description_m M = CONFIGFS_ATTR_RO M ''description'' childless_description_read_m"

definition childless_attributes_m :: "cfs_macros \<Rightarrow> childless_attribute list" where
  "childless_attributes_m M = [childless_attr_showme_m M, childless_attr_storeme_m M, childless_attr_description_m M]"

definition childless_attrs_m :: "cfs_macros \<Rightarrow> configfs_attribute list" where
  "childless_attrs_m M = map attr (childless_attributes_m M)"

definition childless_item_ops_m :: "cfs_macros \<Rightarrow> strtoul \<Rightarrow> childless configfs_item_operations" where
  "childless_item_ops_m M strtoul = \<lparr>release = None,
     show_attribute = Some (CONFIGFS_ATTR_OPS_show M (childless_attributes_m M)),
     store_attribute = Some (CONFIGFS_ATTR_OPS_store M (childless_attributes_m M) strtoul)\<rparr>"

definition childless_type_m :: "cfs_macros \<Rightarrow> strtoul \<Rightarrow> (childless, simple_child, simple_children) config_item_type" where
  "childless_type_m M strtoul =
     \<lparr>ct_item_ops = childless_item_ops_m M strtoul, ct_group_ops = None, ct_attrs = childless_attrs_m M\<rparr>"

text \<open>The subsystem's name and its object; static storage starts as zeros.\<close>

definition childless_subsys_m :: "string \<times> childless" where
  "childless_subsys_m = (''01-childless'', \<lparr>showme = 0, storeme = 0\<rparr>)"

section \<open>02-simple-children\<close>

definition simple_child_attr_storeme_m :: configfs_attribute where
  "simple_child_attr_storeme_m = \<lparr>ca_name = ''storeme'', ca_mode = S_IRUGO OR S_IWUSR\<rparr>"

definition simple_child_attrs_m :: "configfs_attribute list" where
  "simple_child_attrs_m = [simple_child_attr_storeme_m]"

definition simple_child_attr_show_m :: "configfs_attribute \<Rightarrow> simple_child \<Rightarrow> string \<times> simple_child" where
  "simple_child_attr_show_m a k = (show_int (sint (sc_storeme k)) @ [newline], k)"

definition simple_child_attr_store_m ::
  "strtoul \<Rightarrow> configfs_attribute \<Rightarrow> string \<Rightarrow> nat \<Rightarrow> simple_child
    \<Rightarrow> (cfs_errno + nat) \<times> simple_child" where
  "simple_child_attr_store_m strtoul a page count k =
     (let (tmp, p) = strtoul page in
      if peek p \<noteq> CHR 0x00 \<and> peek p \<noteq> newline then (Inl EINVAL, k)
      else if tmp > INT_MAX then (Inl ERANGE, k)
      else (Inr count, k\<lparr>sc_storeme := ucast tmp\<rparr>))"

definition simple_child_release_m :: "simple_child \<Rightarrow> simple_child option" where
  "simple_child_release_m k = None"

definition simple_child_item_ops_m :: "strtoul \<Rightarrow> simple_child configfs_item_operations" where
  "simple_child_item_ops_m strtoul = \<lparr>release = Some simple_child_release_m,
     show_attribute = Some simple_child_attr_show_m,
     store_attribute = Some (simple_child_attr_store_m strtoul)\<rparr>"

definition simple_child_type_m ::
  "strtoul \<Rightarrow> (simple_child, simple_child, simple_children) config_item_type" where
  "simple_child_type_m strtoul =
     \<lparr>ct_item_ops = simple_child_item_ops_m strtoul, ct_group_ops = None,
      ct_attrs = simple_child_attrs_m\<rparr>"

definition simple_children_make_item_m :: "bool \<Rightarrow> string \<Rightarrow> cfs_errno + simple_child" where
  "simple_children_make_item_m kzalloc_ok name =
     (if \<not> kzalloc_ok then Inl ENOMEM else Inr \<lparr>sc_name = name, sc_storeme = 0\<rparr>)"

definition simple_children_attr_description_m :: configfs_attribute where
  "simple_children_attr_description_m = \<lparr>ca_name = ''description'', ca_mode = S_IRUGO\<rparr>"

definition simple_children_attrs_m :: "configfs_attribute list" where
  "simple_children_attrs_m = [simple_children_attr_description_m]"

definition simple_children_attr_show_m ::
  "configfs_attribute \<Rightarrow> simple_children \<Rightarrow> string \<times> simple_children" where
  "simple_children_attr_show_m a g =
     (''[02-simple-children]'' @ [newline, newline]
      @ ''This subsystem allows the creation of child config_items.  These'' @ [newline]
      @ ''items have only one attribute that is readable and writeable.'' @ [newline], g)"

definition simple_children_release_m :: "simple_children \<Rightarrow> simple_children option" where
  "simple_children_release_m g = None"

definition simple_children_item_ops_m :: "simple_children configfs_item_operations" where
  "simple_children_item_ops_m = \<lparr>release = Some simple_children_release_m,
     show_attribute = Some simple_children_attr_show_m, store_attribute = None\<rparr>"

definition simple_children_group_ops_m ::
  "(simple_child, simple_children) configfs_group_operations" where
  "simple_children_group_ops_m = \<lparr>make_item = Some simple_children_make_item_m, make_group = None\<rparr>"

definition simple_children_type_m ::
  "(simple_children, simple_child, simple_children) config_item_type" where
  "simple_children_type_m = \<lparr>ct_item_ops = simple_children_item_ops_m,
     ct_group_ops = Some simple_children_group_ops_m, ct_attrs = simple_children_attrs_m\<rparr>"

definition simple_children_subsys_m :: "string \<times> simple_children" where
  "simple_children_subsys_m = (''02-simple-children'', \<lparr>group_name = ''02-simple-children''\<rparr>)"

section \<open>03-group-children\<close>

definition group_children_make_group_m :: "bool \<Rightarrow> string \<Rightarrow> cfs_errno + simple_children" where
  "group_children_make_group_m kzalloc_ok name =
     (if \<not> kzalloc_ok then Inl ENOMEM else Inr \<lparr>group_name = name\<rparr>)"

definition group_children_attr_description_m :: configfs_attribute where
  "group_children_attr_description_m = \<lparr>ca_name = ''description'', ca_mode = S_IRUGO\<rparr>"

definition group_children_attrs_m :: "configfs_attribute list" where
  "group_children_attrs_m = [group_children_attr_description_m]"

definition group_children_attr_show_m :: "configfs_attribute \<Rightarrow> unit \<Rightarrow> string \<times> unit" where
  "group_children_attr_show_m a u =
     (''[03-group-children]'' @ [newline, newline]
      @ ''This subsystem allows the creation of child config_groups.  These'' @ [newline]
      @ ''groups are like the subsystem simple-children.'' @ [newline], u)"

definition group_children_item_ops_m :: "unit configfs_item_operations" where
  "group_children_item_ops_m = \<lparr>release = None, show_attribute = Some group_children_attr_show_m,
     store_attribute = None\<rparr>"

definition group_children_group_ops_m ::
  "(simple_child, simple_children) configfs_group_operations" where
  "group_children_group_ops_m = \<lparr>make_item = None, make_group = Some group_children_make_group_m\<rparr>"

definition group_children_type_m :: "(unit, simple_child, simple_children) config_item_type" where
  "group_children_type_m = \<lparr>ct_item_ops = group_children_item_ops_m,
     ct_group_ops = Some group_children_group_ops_m, ct_attrs = group_children_attrs_m\<rparr>"

definition group_children_subsys_m :: "string \<times> unit" where
  "group_children_subsys_m = (''03-group-children'', ())"

section \<open>The module\<close>

text \<open>
  The subsystems by name. \<open>reg\<close> gives the result of \<open>configfs_register_subsystem\<close>;
  the trace records what is registered and unregistered, the last component what is logged.
\<close>

definition example_subsys_m :: "string list" where
  "example_subsys_m =
     [fst childless_subsys_m, fst simple_children_subsys_m, fst group_children_subsys_m]"

definition register_error_m :: "int \<Rightarrow> string \<Rightarrow> string" where
  "register_error_m ret name =
     ''Error '' @ show_int ret @ '' while registering subsystem '' @ name"

text \<open>The registration loop from index \<open>i\<close> on, with the roll back of \<open>out_unregister\<close>.\<close>

fun register_loop_m :: "(string \<Rightarrow> int) \<Rightarrow> string list \<Rightarrow> string list \<Rightarrow> int \<times> string ev list \<times> string list" where
  "register_loop_m reg done [] = (0, [], [])"
| "register_loop_m reg done (n # ns) =
     (let ret = reg n in
      if ret \<noteq> 0 then (ret, map Rel (rev done), [register_error_m ret n])
      else case register_loop_m reg (done @ [n]) ns of (r, tr, lg) \<Rightarrow> (r, Acq n # tr, lg))"

definition configfs_example_init_m :: "(string \<Rightarrow> int) \<Rightarrow> int \<times> string ev list \<times> string list" where
  "configfs_example_init_m reg = register_loop_m reg [] example_subsys_m"

definition configfs_example_exit_m :: "string ev list" where
  "configfs_example_exit_m = map Rel example_subsys_m"

section \<open>The two modules agree\<close>

interpretation ma_childless: storeme_attr strtoul "childless_storeme_write_m strtoul"
  "\<lambda>c. fst (childless_storeme_read_m c)" storeme for strtoul
  by unfold_locales
    (auto simp: childless_storeme_write_m_def childless_storeme_read_m_def not_less split: prod.splits)

interpretation ma_child: storeme_attr strtoul "simple_child_attr_store_m strtoul a"
  "\<lambda>k. fst (simple_child_attr_show_m a k)" sc_storeme for strtoul a
  by unfold_locales
    (auto simp: simple_child_attr_store_m_def simple_child_attr_show_m_def not_less split: prod.splits)

lemma childless_methods_agree:
  "childless_showme_read_m = childless_showme_read"
  "childless_storeme_read_m = childless_storeme_read"
  "childless_storeme_write_m = childless_storeme_write"
  "childless_description_read_m = childless_description_read"
  by (intro ext; simp add: childless_showme_read_m_def childless_showme_read_def
      childless_storeme_read_m_def childless_storeme_read_def childless_storeme_write_m_def
      childless_storeme_write_def childless_description_read_m_def childless_description_read_def)+

lemma simple_child_methods_agree:
  "simple_child_attr_show_m = simple_child_attr_show"
  "simple_child_attr_store_m = simple_child_attr_store"
  "simple_child_release_m = simple_child_release"
  by (intro ext; simp add: simple_child_attr_show_m_def simple_child_attr_show_def
      simple_child_attr_store_m_def simple_child_attr_store_def
      simple_child_release_m_def simple_child_release_def)+

lemma simple_child_type_agree: "simple_child_type_m = simple_child_type"
  by (intro ext) (simp add: simple_child_type_m_def simple_child_type_def simple_child_item_ops_m_def
      simple_child_item_ops_def simple_child_attrs_m_def simple_child_attrs_def
      simple_child_attr_storeme_m_def simple_child_attr_storeme_def simple_child_methods_agree)

lemma group_methods_agree:
  "simple_children_make_item_m = simple_children_make_item"
  "simple_children_attr_show_m = simple_children_attr_show"
  "simple_children_release_m = simple_children_release"
  "group_children_make_group_m = group_children_make_group"
  "group_children_attr_show_m = group_children_attr_show"
  by (intro ext; simp add: simple_children_make_item_m_def simple_children_make_item_def
      simple_children_attr_show_m_def simple_children_attr_show_def
      simple_children_release_m_def simple_children_release_def
      group_children_make_group_m_def group_children_make_group_def
      group_children_attr_show_m_def group_children_attr_show_def)+

lemma simple_children_type_agree: "simple_children_type_m = simple_children_type"
  by (simp add: simple_children_type_m_def simple_children_type_def simple_children_item_ops_m_def
      simple_children_item_ops_def simple_children_group_ops_m_def simple_children_group_ops_def
      simple_children_attrs_m_def simple_children_attrs_def simple_children_attr_description_m_def
      simple_children_attr_description_def group_methods_agree)

lemma group_children_type_agree: "group_children_type_m = group_children_type"
  by (simp add: group_children_type_m_def group_children_type_def group_children_item_ops_m_def
      group_children_item_ops_def group_children_group_ops_m_def group_children_group_ops_def
      group_children_attrs_m_def group_children_attrs_def group_children_attr_description_m_def
      group_children_attr_description_def group_methods_agree)

lemma register_loop_agree: "register_loop_m reg before ns = register_loop reg before ns"
  by (induction ns arbitrary: before) (simp_all add: register_error_m_def register_error_def Let_def)

lemma example_subsys_agree: "example_subsys_m = example_subsys"
  by (simp add: example_subsys_m_def example_subsys_def childless_subsys_m_def childless_subsys_def
      simple_children_subsys_m_def simple_children_subsys_def group_children_subsys_m_def
      group_children_subsys_def)

text \<open>
  The macros as documented: an attribute has the name, mode and methods it is given, a read-only
  one the mode \<open>S_IRUGO\<close> and no store method; the generated operations find the attribute
  they are called for among those of the item and call its method, and without one a read gives no
  text and a write \<open>EINVAL\<close>.
\<close>

definition macros_documented :: "cfs_macros \<Rightarrow> bool" where
  "macros_documented M \<longleftrightarrow>
     (\<forall>n md sh st. CONFIGFS_ATTR M n md sh st = \<lparr>attr = \<lparr>ca_name = n, ca_mode = md\<rparr>, ca_show = Some sh, ca_store = Some st\<rparr>)
     \<and> (\<forall>n sh. CONFIGFS_ATTR_RO M n sh = \<lparr>attr = \<lparr>ca_name = n, ca_mode = S_IRUGO\<rparr>, ca_show = Some sh, ca_store = None\<rparr>)
     \<and> (\<forall>cas ca c. distinct (map attr cas) \<and> ca \<in> set cas \<longrightarrow>
          CONFIGFS_ATTR_OPS_show M cas (attr ca) c = (case ca_show ca of None \<Rightarrow> ([], c) | Some f \<Rightarrow> f c))
     \<and> (\<forall>cas ca strtoul page n c. distinct (map attr cas) \<and> ca \<in> set cas \<longrightarrow>
          CONFIGFS_ATTR_OPS_store M cas strtoul (attr ca) page n c =
            (case ca_store ca of None \<Rightarrow> (Inl EINVAL, c) | Some f \<Rightarrow> f strtoul page n c))"

text \<open>Two item types that answer alike for each of their attributes.\<close>

definition same_attributes :: "('a, 'b, 'c) config_item_type \<Rightarrow> ('a, 'b, 'c) config_item_type \<Rightarrow> bool" where
  "same_attributes t u \<longleftrightarrow> ct_attrs t = ct_attrs u \<and> ct_group_ops t = ct_group_ops u
     \<and> release (ct_item_ops t) = release (ct_item_ops u)
     \<and> (\<forall>a \<in> set (ct_attrs u). \<forall>x page n.
          map_option (\<lambda>f. f a x) (show_attribute (ct_item_ops t)) = map_option (\<lambda>f. f a x) (show_attribute (ct_item_ops u))
        \<and> map_option (\<lambda>f. f a page n x) (store_attribute (ct_item_ops t)) =
            map_option (\<lambda>f. f a page n x) (store_attribute (ct_item_ops u)))"

lemma childless_attributes_agree:
  "macros_documented M \<Longrightarrow>
     childless_attributes_m M = [childless_attr_showme, childless_attr_storeme, childless_attr_description]"
  by (simp add: macros_documented_def childless_attributes_m_def childless_attr_showme_m_def
      childless_attr_storeme_m_def childless_attr_description_m_def childless_attr_defs childless_methods_agree)

lemma childless_attributes_distinct:
  "distinct (map attr [childless_attr_showme, childless_attr_storeme, childless_attr_description])"
  by (simp add: childless_attr_defs)

lemma to_childless_attribute_member:
  "ca \<in> set [childless_attr_showme, childless_attr_storeme, childless_attr_description] \<Longrightarrow>
     to_childless_attribute (attr ca) = Some ca"
  using childless_attributes_distinct by (auto simp: to_childless_attribute_def)

lemma childless_type_agree:
  assumes "macros_documented M"
  shows "same_attributes (childless_type_m M strtoul) (childless_type strtoul)"
proof -
  let ?cas = "[childless_attr_showme, childless_attr_storeme, childless_attr_description]"
  have "CONFIGFS_ATTR_OPS_show M ?cas (attr ca) c = childless_attr_show (attr ca) c
      \<and> CONFIGFS_ATTR_OPS_store M ?cas strtoul (attr ca) page n c = childless_attr_store strtoul (attr ca) page n c"
    if "ca \<in> set ?cas" for ca c page n
  proof -
    have "CONFIGFS_ATTR_OPS_show M ?cas (attr ca) c = (case ca_show ca of None \<Rightarrow> ([], c) | Some f \<Rightarrow> f c)"
      "CONFIGFS_ATTR_OPS_store M ?cas strtoul (attr ca) page n c =
        (case ca_store ca of None \<Rightarrow> (Inl EINVAL, c) | Some f \<Rightarrow> f strtoul page n c)"
      using assms that childless_attributes_distinct unfolding macros_documented_def by blast+
    then show ?thesis
      using to_childless_attribute_member [OF that]
      by (simp add: childless_attr_show_def childless_attr_store_def split: option.splits)
  qed
  then show ?thesis
    by (simp add: same_attributes_def childless_type_m_def childless_type_def childless_attrs_m_def childless_attrs_def
        childless_attributes_agree [OF assms] childless_item_ops_m_def childless_item_ops_def)
qed


text \<open>The macros of the header.\<close>

definition sample_macros :: cfs_macros where
  "sample_macros =
     \<lparr>CONFIGFS_ATTR = (\<lambda>n md sh st. \<lparr>attr = \<lparr>ca_name = n, ca_mode = md\<rparr>, ca_show = Some sh, ca_store = Some st\<rparr>),
      CONFIGFS_ATTR_RO = (\<lambda>n sh. \<lparr>attr = \<lparr>ca_name = n, ca_mode = S_IRUGO\<rparr>, ca_show = Some sh, ca_store = None\<rparr>),
      CONFIGFS_ATTR_OPS_show = (\<lambda>cas a c.
        case Option.bind (find (\<lambda>ca. attr ca = a) cas) ca_show of None \<Rightarrow> ([], c) | Some f \<Rightarrow> f c),
      CONFIGFS_ATTR_OPS_store = (\<lambda>cas strtoul a page n c.
        case Option.bind (find (\<lambda>ca. attr ca = a) cas) ca_store of
          None \<Rightarrow> (Inl EINVAL, c) | Some f \<Rightarrow> f strtoul page n c)\<rparr>"

lemma find_attr: "distinct (map attr cas) \<Longrightarrow> ca \<in> set cas \<Longrightarrow> find (\<lambda>x. attr x = attr ca) cas = Some ca"
  by (induction cas) auto

lemma sample_macros_documented: "macros_documented sample_macros"
  by (simp add: macros_documented_def sample_macros_def find_attr)


end
