(* ===== verification/Mpss_Sysfs.thy ===== *)
theory Mpss_Sysfs
  imports Doc_Prelude
begin

text \<open>
  Model of \<open>src/Documentation/mic/mpssd/sysfs.c\<close>: reading and setting an entry of the MIC
  class directory, for the MPSS daemon. A call carries the answers of the system calls it
  makes; its result is the value, the lines it logs (\<open>mpsslog\<close>) and the trace of
  descriptors and buffers. Texts in a buffer are followed by their terminator.
\<close>

datatype sys_res = SysFd int | SysMem

definition MICSYSFSDIR :: string where "MICSYSFSDIR = ''/sys/class/mic''"
definition MIC_PAGE_SIZE :: nat where "MIC_PAGE_SIZE = 4096"
definition PATH_MAX :: nat where "PATH_MAX = 4096"

text \<open>\<open>snprintf\<close> into a buffer of \<open>n\<close> bytes, \<open>strlen\<close> and \<open>strcpy\<close> of a buffer.\<close>

definition snprintf :: "nat \<Rightarrow> string \<Rightarrow> string" where
  "snprintf n s = take (n - 1) s"

definition c_str :: "string \<Rightarrow> string" where
  "c_str buf = takeWhile (\<lambda>c. c \<noteq> CHR 0x00) buf"

definition sysfs_path :: "string option \<Rightarrow> string \<Rightarrow> string" where
  "sysfs_path dir entry = snprintf PATH_MAX (case dir of
     None \<Rightarrow> MICSYSFSDIR @ ''/'' @ entry
   | Some d \<Rightarrow> MICSYSFSDIR @ ''/'' @ d @ ''/'' @ entry)"

definition quoted :: "string \<Rightarrow> string" where "quoted s = [CHR 0x27] @ s @ [CHR 0x27]"

text \<open>The answers to the calls of \<open>readsysfs\<close>: an error number, or a descriptor or bytes.\<close>

record sysfs_read_ans =
  r_open :: "nat + nat"
  r_read :: "nat + string"
  r_malloc :: bool

definition readsysfs ::
  "(nat \<Rightarrow> string) \<Rightarrow> sysfs_read_ans \<Rightarrow> string option \<Rightarrow> string
    \<Rightarrow> string option \<times> string list \<times> sys_res ev list" where
  "readsysfs strerror ans dir entry =
     (let filename = sysfs_path dir entry in
      case r_open ans of
        Inl e \<Rightarrow>
          (None, [''Failed to open sysfs entry '' @ quoted filename @ '': '' @ strerror e], [])
      | Inr fd \<Rightarrow>
          (case r_read ans of
             Inl e \<Rightarrow>
               (None, [''Failed to read sysfs entry '' @ quoted filename @ '': '' @ strerror e],
                [Acq (SysFd (int fd)), Rel (SysFd (int fd))])
           | Inr bytes \<Rightarrow>
               let value = take MIC_PAGE_SIZE bytes in
               if value = [] then (None, [], [Acq (SysFd (int fd)), Rel (SysFd (int fd))])
               else if r_malloc ans then
                 (Some (c_str (value[length value - 1 := CHR 0x00])), [],
                  [Acq (SysFd (int fd)), Acq SysMem, Rel (SysFd (int fd))])
               else (None, [], [Acq (SysFd (int fd)), Rel (SysFd (int fd))])))"

record sysfs_set_ans =
  s_old :: sysfs_read_ans
  s_open :: "nat + nat"
  s_write :: "nat + nat"

text \<open>
  \<open>setsysfs\<close>: the error number or 0, the text it hands to \<open>write\<close> (if it does), the
  log and the trace.
\<close>

definition setsysfs ::
  "(nat \<Rightarrow> string) \<Rightarrow> sysfs_set_ans \<Rightarrow> string option \<Rightarrow> string \<Rightarrow> string
    \<Rightarrow> nat \<times> string option \<times> string list \<times> sys_res ev list" where
  "setsysfs strerror ans dir entry value =
     (let filename = sysfs_path dir entry;
          (oldvalue, log1, ev1) = readsysfs strerror (s_old ans) dir entry;
          free_old = (if oldvalue \<noteq> None then [Rel SysMem] else [])
      in case s_open ans of
        Inl e \<Rightarrow>
          (e, None, log1 @ [''Failed to open sysfs entry '' @ quoted filename @ '': '' @ strerror e],
           ev1 @ free_old)
      | Inr fd \<Rightarrow>
          let fdev = (\<lambda>es. ev1 @ [Acq (SysFd (int fd))] @ es @ [Rel (SysFd (int fd))] @ free_old)
          in if oldvalue = None \<or> oldvalue \<noteq> Some value then
               (case s_write ans of
                  Inl e \<Rightarrow> (e, Some value, log1 @ [''Failed to write new sysfs entry '' @ quoted filename
                              @ '': '' @ strerror e], fdev [])
                | Inr n \<Rightarrow> (0, Some value, log1, fdev []))
             else (0, None, log1, fdev []))"

section \<open>Properties\<close>

lemma readsysfs_trace:
  "readsysfs strerror ans dir entry = (r, lg, tr) \<Longrightarrow>
   run_ev {} tr = Some (if r = None then {} else {SysMem})"
  by (auto simp: readsysfs_def Let_def insert_Diff_if split: sum.splits if_splits)

lemma setsysfs_trace:
  assumes "setsysfs strerror ans dir entry value = (ret, w, lg, tr)"
  shows "run_ev {} tr = Some {}"
proof -
  obtain old log1 ev1 where r: "readsysfs strerror (s_old ans) dir entry = (old, log1, ev1)"
    by (metis prod_cases3)
  have d: "insert (SysFd x) {SysMem} - {SysFd x} = {SysMem}" for x by auto
  show ?thesis
    using assms readsysfs_trace [OF r] r
    by (auto simp: setsysfs_def Let_def trace_simps d split: sum.splits if_splits)
qed

text \<open>The value of an entry that ends in a line end (or any other last byte) is read without it.\<close>

lemma readsysfs_line:
  assumes "r_open ans = Inr fd" and "r_read ans = Inr (v @ [c])" and "length v < 4096"
    and "CHR 0x00 \<notin> set v" and "r_malloc ans"
  shows "fst (readsysfs strerror ans dir entry) = Some v"
proof -
  have "c_str ((v @ [c])[length v := CHR 0x00]) = v"
    using assms(4) by (simp add: c_str_def list_update_append takeWhile_append)
  with assms show ?thesis by (simp add: readsysfs_def Let_def MIC_PAGE_SIZE_def)
qed

text \<open>
  Setting an entry: whatever the system answers, descriptors are closed and the old
  value is freed exactly once; when the entry can be opened, the new value is written exactly
  if the old one could not be read or differs, and the call returns 0 unless that write
  fails; when it cannot be opened nothing is written and the error is returned.
\<close>
theorem setsysfs_contract:
  "case setsysfs strerror ans dir entry value of (ret, written, lg, tr) \<Rightarrow>
     run_ev {} tr = Some {}
     \<and> (case s_open ans of
          Inl e \<Rightarrow> ret = e \<and> written = None
        | Inr fd \<Rightarrow>
            (if fst (readsysfs strerror (s_old ans) dir entry) = Some value
             then written = None \<and> ret = 0
             else written = Some value
               \<and> ret = (case s_write ans of Inl e \<Rightarrow> e | Inr n \<Rightarrow> 0)))"
proof -
  obtain ret written lg tr where s: "setsysfs strerror ans dir entry value = (ret, written, lg, tr)"
    by (metis prod_cases4)
  then have "run_ev {} tr = Some {}" by (rule setsysfs_trace)
  with s show ?thesis
    by (auto simp: setsysfs_def Let_def split: sum.splits if_splits prod.splits)
qed

end
