(* ===== verification/Mpss_Virtio.thy ===== *)
theory Mpss_Virtio
  imports Mpss_Sysfs
begin

unbundle bit_operations_syntax

text \<open>
  Model of the virtio part of \<open>src/Documentation/mic/mpssd/mpssd.c\<close> (with the structures of
  \<open>mpssd.h\<close>): device pages, the descriptor list in the shared page, the helpers on I/O
  vectors, and the network and console threads. The constants, structure sizes and ring
  layout of the kernel headers (\<open>virtio_ids.h\<close>, \<open>virtio_ring.h\<close>,
  \<open>mic_common.h\<close> and others) are the record \<open>virtio_abi\<close>, an argument of every
  definition that needs it. The threads are given as one turn of their endless loop, as a
  function of the answers the kernel gives in that turn; \<open>None\<close> is a failed assertion.
\<close>

section \<open>Constants\<close>

record virtio_abi =
  VIRTIO_ID_NET :: int
  VIRTIO_ID_BLOCK :: int
  VIRTIO_ID_CONSOLE :: int
  VRING_DESC_F_NEXT :: u16
  VRING_DESC_F_WRITE :: u16
  VIRTIO_BLK_T_OUT :: u32
  VIRTIO_BLK_T_GET_ID :: u32
  VIRTIO_BLK_F_SEG_MAX :: nat
  VIRTIO_NET_F_CSUM :: nat
  VIRTIO_NET_F_GSO :: nat
  VIRTIO_NET_F_GUEST_TSO4 :: nat
  VIRTIO_NET_F_GUEST_TSO6 :: nat
  VIRTIO_NET_F_GUEST_ECN :: nat
  VIRTIO_NET_F_GUEST_UFO :: nat
  VIRTIO_CONFIG_S_DRIVER_OK :: u8
  MIC_VRING_ENTRIES :: nat
  MIC_MAGIC :: u32
  sizeof_net_hdr :: u64
  sizeof_blk_outhdr :: u32
  sizeof_bootparam :: u64
  sizeof_vring_info :: u64
  vring_bytes :: u64
  sizeof_cons_config :: nat
  sizeof_net_config :: nat
  sizeof_blk_config :: nat

definition ALIGN_DOWN :: "u64 \<Rightarrow> u64 \<Rightarrow> u64" where
  "ALIGN_DOWN addr sz = addr AND NOT (sz - 1)"

definition ALIGN_UP :: "u64 \<Rightarrow> u64 \<Rightarrow> u64" where
  "ALIGN_UP addr sz = ALIGN_DOWN (addr + sz - 1) sz"

definition PAGE_ALIGN :: "u64 \<Rightarrow> u64" where
  "PAGE_ALIGN addr = ALIGN_UP addr (of_nat MIC_PAGE_SIZE)"

definition MAX_GSO_SIZE :: u64 where "MAX_GSO_SIZE = 64 * 1024"
definition ETH_H_LEN :: u64 where "ETH_H_LEN = 14"
definition MAX_NET_PKT_SIZE :: u64 where "MAX_NET_PKT_SIZE = ALIGN_UP (MAX_GSO_SIZE + ETH_H_LEN) 64"
definition MIC_DEVICE_PAGE_END :: u64 where "MIC_DEVICE_PAGE_END = 0x1000"
definition VIRTIO_NET_HDR_F_DATA_VALID :: u8 where "VIRTIO_NET_HDR_F_DATA_VALID = 2"

section \<open>Device pages\<close>

record mic_device_desc =
  dtype :: int
  num_vq :: nat
  feature_len :: nat
  config_len :: nat
  status :: u8

record dev_page =
  dd :: mic_device_desc
  vqconfig :: "nat list"
  host_features :: u32
  guest_acknowledgements :: u32

definition virtcons_dev_page :: "virtio_abi \<Rightarrow> dev_page" where
  "virtcons_dev_page abi =
     \<lparr>dd = \<lparr>dtype = VIRTIO_ID_CONSOLE abi, num_vq = 2, feature_len = 4,
        config_len = sizeof_cons_config abi, status = 0\<rparr>,
      vqconfig = [MIC_VRING_ENTRIES abi, MIC_VRING_ENTRIES abi],
      host_features = 0, guest_acknowledgements = 0\<rparr>"

definition virtnet_dev_page :: "virtio_abi \<Rightarrow> dev_page" where
  "virtnet_dev_page abi =
     \<lparr>dd = \<lparr>dtype = VIRTIO_ID_NET abi, num_vq = 2, feature_len = 4,
        config_len = sizeof_net_config abi, status = 0\<rparr>,
      vqconfig = [MIC_VRING_ENTRIES abi, MIC_VRING_ENTRIES abi],
      host_features = push_bit (VIRTIO_NET_F_CSUM abi) 1 OR push_bit (VIRTIO_NET_F_GSO abi) 1
        OR push_bit (VIRTIO_NET_F_GUEST_TSO4 abi) 1 OR push_bit (VIRTIO_NET_F_GUEST_TSO6 abi) 1
        OR push_bit (VIRTIO_NET_F_GUEST_ECN abi) 1 OR push_bit (VIRTIO_NET_F_GUEST_UFO abi) 1,
      guest_acknowledgements = 0\<rparr>"

text \<open>The block page also has the configuration fields the daemon fills in.\<close>

record virtblk_page = dev_page +
  seg_max :: u32
  capacity :: u64

definition virtblk_dev_page :: "virtio_abi \<Rightarrow> virtblk_page" where
  "virtblk_dev_page abi =
     \<lparr>dd = \<lparr>dtype = VIRTIO_ID_BLOCK abi, num_vq = 1, feature_len = 4,
        config_len = sizeof_blk_config abi, status = 0\<rparr>,
      vqconfig = [MIC_VRING_ENTRIES abi],
      host_features = push_bit (VIRTIO_BLK_F_SEG_MAX abi) 1, guest_acknowledgements = 0,
      seg_max = of_nat (MIC_VRING_ENTRIES abi) - 2, capacity = 0\<rparr>"

section \<open>A card\<close>

record mic_console_info =
  virtio_console_fd :: int
  console_dp :: u64

record mic_net_info =
  virtio_net_fd :: int
  tap_fd :: int
  net_dp :: u64

record mic_virtblk_info =
  virtio_block_fd :: int
  block_dp :: u64
  signaled :: bool
  backend_file :: string
  backend :: int
  backend_addr :: u64
  backend_size :: int

record mic_info =
  mic_id :: int
  mic_name :: "string option"
  mic_pid :: int
  mic_console :: mic_console_info
  mic_net :: mic_net_info
  mic_virtblk :: mic_virtblk_info
  restart :: bool
  boot_on_resume :: bool

text \<open>\<open>set_dp\<close> and \<open>get_dp\<close>; an unknown type fails an assertion.\<close>

definition set_dp :: "virtio_abi \<Rightarrow> int \<Rightarrow> u64 \<Rightarrow> mic_info \<Rightarrow> mic_info option" where
  "set_dp abi type dp mic =
     (if type = VIRTIO_ID_CONSOLE abi then
        Some (mic\<lparr>mic_console := (mic_console mic)\<lparr>console_dp := dp\<rparr>\<rparr>)
      else if type = VIRTIO_ID_NET abi then
        Some (mic\<lparr>mic_net := (mic_net mic)\<lparr>net_dp := dp\<rparr>\<rparr>)
      else if type = VIRTIO_ID_BLOCK abi then
        Some (mic\<lparr>mic_virtblk := (mic_virtblk mic)\<lparr>block_dp := dp\<rparr>\<rparr>)
      else None)"

definition get_dp :: "virtio_abi \<Rightarrow> int \<Rightarrow> mic_info \<Rightarrow> u64 option" where
  "get_dp abi type mic =
     (if type = VIRTIO_ID_CONSOLE abi then Some (console_dp (mic_console mic))
      else if type = VIRTIO_ID_NET abi then Some (net_dp (mic_net mic))
      else if type = VIRTIO_ID_BLOCK abi then Some (block_dp (mic_virtblk mic))
      else None)"

text \<open>
  The search for a descriptor in the shared page: \<open>at\<close> reads a descriptor at an address,
  \<open>total_size\<close> is \<open>mic_total_desc_size\<close>. The result \<open>Some None\<close> is the failed
  assertion behind the loop, \<open>None\<close> a loop that does not end.
\<close>

partial_function (option) desc_loop ::
  "(u64 \<Rightarrow> mic_device_desc) \<Rightarrow> (mic_device_desc \<Rightarrow> nat) \<Rightarrow> u64 \<Rightarrow> int \<Rightarrow> nat \<Rightarrow> u64 option option" where
  "desc_loop at total_size dp type i =
     (if i < MIC_PAGE_SIZE then
        let d = at (dp + of_nat i) in
        if dtype d = 0 then Some None
        else if dtype d = -1 then desc_loop at total_size dp type (i + total_size d)
        else if dtype d = type mod 256 then Some (Some (dp + of_nat i))
        else desc_loop at total_size dp type (i + total_size d)
      else Some None)"

definition get_device_desc ::
  "virtio_abi \<Rightarrow> (u64 \<Rightarrow> mic_device_desc) \<Rightarrow> (mic_device_desc \<Rightarrow> nat) \<Rightarrow> mic_info \<Rightarrow> int
    \<Rightarrow> u64 option option" where
  "get_device_desc abi at total_size mic type =
     (case get_dp abi type mic of
        None \<Rightarrow> Some None
      | Some dp \<Rightarrow> desc_loop at total_size dp type (unat (sizeof_bootparam abi)))"

section \<open>I/O vectors and copies\<close>

record vring_desc =
  vd_len :: u32
  vd_flags :: u16
  vd_next :: u16

definition next_desc :: "virtio_abi \<Rightarrow> vring_desc \<Rightarrow> u32" where
  "next_desc abi desc =
     (if vd_flags desc AND VRING_DESC_F_NEXT abi = 0 then - 1 else ucast (vd_next desc))"

record iovec =
  iov_base :: u64
  iov_len :: u64

record mic_copy_desc =
  iovcnt :: nat
  vr_idx :: u8
  update_used :: bool
  out_len :: u32

text \<open>
  The array \<open>copy->iov\<close> points to is passed beside the copy descriptor, since the
  threads also write to it under its own name. The sum is kept in a signed 64-bit integer.
\<close>

definition sum_iovec_len :: "mic_copy_desc \<Rightarrow> iovec list \<Rightarrow> int" where
  "sum_iovec_len copy iov =
     sint (foldl (\<lambda>s i. s + iov_len (iov ! i)) (0 :: u64) [0..<iovcnt copy])"

definition verify_out_len :: "mic_copy_desc \<Rightarrow> iovec list \<Rightarrow> bool" where
  "verify_out_len copy iov \<longleftrightarrow> uint (out_len copy) = sum_iovec_len copy iov"

definition txrx_prepare ::
  "virtio_abi \<Rightarrow> int \<Rightarrow> bool \<Rightarrow> mic_copy_desc \<Rightarrow> iovec list \<Rightarrow> int \<Rightarrow> mic_copy_desc \<times> iovec list" where
  "txrx_prepare abi type tx copy iov len =
     (copy\<lparr>vr_idx := (if tx then 0 else 1), update_used := True\<rparr>,
      if type = VIRTIO_ID_NET abi
      then iov[1 := (iov ! 1)\<lparr>iov_len := word_of_int len - sizeof_net_hdr abi\<rparr>]
      else iov[0 := (iov ! 0)\<lparr>iov_len := word_of_int len\<rparr>])"

text \<open>
  \<open>mic_virtio_copy\<close>: the kernel answers with a return value and the length it copied,
  which it stores in the copy descriptor.
\<close>

definition mic_virtio_copy :: "int \<times> u32 \<Rightarrow> mic_copy_desc \<Rightarrow> int \<times> mic_copy_desc" where
  "mic_virtio_copy ans copy = (fst ans, copy\<lparr>out_len := snd ans\<rparr>)"

section \<open>Mapping the rings\<close>

definition vr_size :: "virtio_abi \<Rightarrow> u64" where
  "vr_size abi = PAGE_ALIGN (vring_bytes abi + sizeof_vring_info abi)"

record mic_vring =
  va :: u64
  info :: u64

text \<open>
  \<open>init_vr\<close>: \<open>map_ans\<close> is the address \<open>mmap\<close> returns (\<open>None\<close> for
  \<open>MAP_FAILED\<close>), \<open>magic\<close> reads the magic number of a ring's info block. The result
  is \<open>None\<close> for a failed assertion; inside, the mapped address, the rings and the card.
\<close>

definition init_vr ::
  "virtio_abi \<Rightarrow> (u64 \<Rightarrow> u64 option) \<Rightarrow> (u64 \<Rightarrow> u32) \<Rightarrow> int \<Rightarrow> bool \<Rightarrow> nat \<Rightarrow> mic_info
    \<Rightarrow> (u64 option \<times> mic_vring list \<times> mic_info) option" where
  "init_vr abi map_ans magic type second nvq mic =
     (case map_ans (MIC_DEVICE_PAGE_END + vr_size abi * of_nat nvq) of
        None \<Rightarrow> Some (None, [], mic)
      | Some a \<Rightarrow>
          (case set_dp abi type a mic of
             None \<Rightarrow> None
           | Some mic1 \<Rightarrow>
               let vr0 = \<lparr>va = a + MIC_DEVICE_PAGE_END,
                          info = a + MIC_DEVICE_PAGE_END + vring_bytes abi\<rparr>;
                   vr1 = \<lparr>va = a + MIC_DEVICE_PAGE_END + vr_size abi,
                          info = a + MIC_DEVICE_PAGE_END + vr_size abi + vring_bytes abi\<rparr>
               in if magic (info vr0) \<noteq> MIC_MAGIC abi + word_of_int type then None
                  else if \<not> second then Some (Some a, [vr0], mic1)
                  else if magic (info vr1) \<noteq> MIC_MAGIC abi + word_of_int type + 1 then None
                  else Some (Some a, [vr0, vr1], mic1)))"

section \<open>Setting up the tap device\<close>

definition IFNAMSIZ :: nat where "IFNAMSIZ = 16"

definition tap_ipaddr :: "int \<Rightarrow> string" where
  "tap_ipaddr i = snprintf IFNAMSIZ (''172.31.'' @ show_int i @ ''.254/24'')"

text \<open>
  \<open>tap_configure\<close> with the results of its two forks, executions and waits. A child
  whose \<open>execvp\<close> succeeds is replaced by the command; any other path returns a value.
\<close>

datatype tap_outcome = TapRet int | TapExec "string list"

definition tap_configure ::
  "mic_info \<Rightarrow> string \<Rightarrow> int \<times> int \<times> int \<Rightarrow> int \<times> int \<times> int \<Rightarrow> tap_outcome" where
  "tap_configure mic dev a1 a2 =
     (case (a1, a2) of ((pid1, exec1, wait1), (pid2, exec2, wait2)) \<Rightarrow>
        if pid1 = 0 \<and> exec1 < 0 then TapRet exec1
        else if pid1 = 0 then TapExec [''ip'', ''link'', ''set'', dev, ''up'']
        else if pid1 < 0 then TapRet 0
        else if wait1 < 0 then TapRet wait1
        else if pid2 = 0 \<and> exec2 < 0 then TapRet exec2
        else if pid2 = 0 then TapExec [''ip'', ''addr'', ''add'', tap_ipaddr (mic_id mic), ''dev'', dev]
        else if pid2 < 0 then TapRet wait1
        else if wait2 < 0 then TapRet wait2
        else TapRet 0)"

text \<open>
  \<open>tun_alloc\<close>: the descriptor or a negative error, the device name the kernel chose, and
  the trace. \<open>setiff\<close> gives the result of \<open>TUNSETIFF\<close> and the name.
\<close>

definition tun_alloc ::
  "int \<Rightarrow> (string \<Rightarrow> int \<times> string) \<Rightarrow> int \<Rightarrow> string \<Rightarrow> int \<times> string \<times> sys_res ev list" where
  "tun_alloc open_rc setiff offload_rc dev =
     (if open_rc < 0 then (open_rc, dev, [])
      else
        let (err, ifr_name) = setiff (take IFNAMSIZ dev) in
        if err < 0 then (err, dev, [Acq (SysFd open_rc), Rel (SysFd open_rc)])
        else if offload_rc < 0 then (offload_rc, dev, [Acq (SysFd open_rc), Rel (SysFd open_rc)])
        else (open_rc, ifr_name, [Acq (SysFd open_rc)]))"

text \<open>
  \<open>add_virtio_device\<close>: the device file is kept open in the field of the card that belongs
  to the type of the device.
\<close>

definition add_virtio_device ::
  "virtio_abi \<Rightarrow> (string \<Rightarrow> int) \<Rightarrow> (mic_device_desc \<Rightarrow> int) \<Rightarrow> mic_device_desc \<Rightarrow> mic_info
    \<Rightarrow> mic_info \<times> sys_res ev list" where
  "add_virtio_device abi open_rc ioctl_rc d mic =
     (let fd = open_rc (snprintf PATH_MAX (''/dev/mic'' @ show_int (mic_id mic))) in
      if fd < 0 then (mic, [])
      else if ioctl_rc d < 0 then (mic, [Acq (SysFd fd), Rel (SysFd fd)])
      else
        (if dtype d = VIRTIO_ID_NET abi then mic\<lparr>mic_net := (mic_net mic)\<lparr>virtio_net_fd := fd\<rparr>\<rparr>
         else if dtype d = VIRTIO_ID_CONSOLE abi then
           mic\<lparr>mic_console := (mic_console mic)\<lparr>virtio_console_fd := fd\<rparr>\<rparr>
         else if dtype d = VIRTIO_ID_BLOCK abi then
           mic\<lparr>mic_virtblk := (mic_virtblk mic)\<lparr>virtio_block_fd := fd\<rparr>\<rparr>
         else mic,
         [Acq (SysFd fd)]))"

section \<open>The network thread\<close>

record net_state =
  iov0 :: "iovec list"
  iov1 :: "iovec list"
  ncopy :: mic_copy_desc
  hdr_flags :: u8

text \<open>The answers of one turn; \<open>rx_ans\<close> has one entry per descriptor that is available.\<close>

record net_turn_ans =
  poll_ans :: int
  dev_status :: u8
  tun_in :: bool
  readv_ans :: int
  read_flags :: u8
  tx_ans :: "int \<times> u32"
  net_in :: bool
  rx_ans :: "((int \<times> u32) \<times> int) list"

datatype net_act =
    WaitForCardDriver
  | ReadTap "u64 list"
  | SpinForDescriptors
  | CopyTx "u64 list"
  | CopyRx "u64 list"
  | WriteTap "u64 list"

definition lens :: "iovec list \<Rightarrow> u64 list" where "lens iov = map iov_len iov"

text \<open>The branch that moves a packet from the tap device to the card.\<close>

definition net_tx ::
  "virtio_abi \<Rightarrow> net_turn_ans \<Rightarrow> net_state \<Rightarrow> (net_act list \<times> net_state) option" where
  "net_tx abi t s =
     (let r = ReadTap (lens (iov0 s)) in
      if 0 < readv_ans t then
        let s1 = s\<lparr>hdr_flags := read_flags t OR VIRTIO_NET_HDR_F_DATA_VALID\<rparr>;
            (copy1, iov) = txrx_prepare abi (VIRTIO_ID_NET abi) True (ncopy s1) (iov0 s1) (readv_ans t);
            (err, copy2) = mic_virtio_copy (tx_ans t) copy1
        in if err = 0 \<and> \<not> verify_out_len copy2 iov then None
           else Some ([r, SpinForDescriptors, CopyTx (lens iov)],
             s1\<lparr>ncopy := copy2, iov0 := iov[1 := (iov ! 1)\<lparr>iov_len := MAX_NET_PKT_SIZE\<rparr>]\<rparr>)
      else Some ([r], s))"

text \<open>The loop that moves packets from the card to the tap device; a failed copy ends it.\<close>

fun net_rx ::
  "virtio_abi \<Rightarrow> ((int \<times> u32) \<times> int) list \<Rightarrow> net_state \<Rightarrow> (net_act list \<times> net_state) option" where
  "net_rx abi [] s = Some ([], s)"
| "net_rx abi ((cans, wlen) # rest) s =
     (let (copy1, iov) = txrx_prepare abi (VIRTIO_ID_NET abi) False (ncopy s) (iov1 s)
                           (uint (MAX_NET_PKT_SIZE + sizeof_net_hdr abi));
          (err, copy2) = mic_virtio_copy cans copy1
      in if err \<noteq> 0 then Some ([CopyRx (lens iov)], s\<lparr>ncopy := copy2, iov1 := iov\<rparr>)
         else
           let iov' = iov[1 := (iov ! 1)\<lparr>iov_len := ucast (out_len copy2) - sizeof_net_hdr abi\<rparr>]
           in if \<not> verify_out_len copy2 iov' then None
              else case net_rx abi rest (s\<lparr>ncopy := copy2, iov1 := iov'\<rparr>) of
                     None \<Rightarrow> None
                   | Some (acts, s') \<Rightarrow> Some ([CopyRx (lens iov), WriteTap (lens iov')] @ acts, s'))"

definition virtio_net_turn ::
  "virtio_abi \<Rightarrow> net_turn_ans \<Rightarrow> net_state \<Rightarrow> (net_act list \<times> net_state) option" where
  "virtio_net_turn abi t s =
     (if poll_ans t < 0 then Some ([], s)
      else
        let w = (if dev_status t AND VIRTIO_CONFIG_S_DRIVER_OK abi = 0 then [WaitForCardDriver] else [])
        in case (if tun_in t then net_tx abi t s else Some ([], s)) of
             None \<Rightarrow> None
           | Some (a1, s1) \<Rightarrow>
               (case (if net_in t then net_rx abi (rx_ans t) s1 else Some ([], s1)) of
                  None \<Rightarrow> None
                | Some (a2, s2) \<Rightarrow> Some (w @ a1 @ a2, s2)))"

text \<open>The state the thread starts its loop with: two vectors of a header and a packet buffer.\<close>

definition net_init :: "virtio_abi \<Rightarrow> u64 \<Rightarrow> u64 \<Rightarrow> u64 \<Rightarrow> u64 \<Rightarrow> mic_copy_desc \<Rightarrow> net_state" where
  "net_init abi hdr0 buf0 hdr1 buf1 copy =
     \<lparr>iov0 = [\<lparr>iov_base = hdr0, iov_len = sizeof_net_hdr abi\<rparr>,
              \<lparr>iov_base = buf0, iov_len = MAX_NET_PKT_SIZE\<rparr>],
      iov1 = [\<lparr>iov_base = hdr1, iov_len = sizeof_net_hdr abi\<rparr>,
              \<lparr>iov_base = buf1, iov_len = MAX_NET_PKT_SIZE\<rparr>],
      ncopy = copy\<lparr>iovcnt := 2\<rparr>, hdr_flags = 0\<rparr>"

section \<open>The console thread\<close>

record cons_state =
  c_iov0 :: "iovec list"
  c_iov1 :: "iovec list"
  ccopy :: mic_copy_desc

record cons_turn_ans =
  c_poll_ans :: int
  c_dev_status :: u8
  monitor_in :: bool
  c_readv_ans :: int
  c_tx_ans :: "int \<times> u32"
  cons_in :: bool
  c_rx_ans :: "((int \<times> u32) \<times> int) list"

datatype cons_act =
    CWaitForCardDriver
  | ReadPty "u64 list"
  | CSpinForDescriptors
  | CCopyTx "u64 list"
  | CCopyRx "u64 list"
  | WritePty "u64 list"

definition cons_tx ::
  "virtio_abi \<Rightarrow> cons_turn_ans \<Rightarrow> cons_state \<Rightarrow> (cons_act list \<times> cons_state) option" where
  "cons_tx abi t s =
     (let r = ReadPty (lens (c_iov0 s)) in
      if 0 < c_readv_ans t then
        let (copy1, iov) = txrx_prepare abi (VIRTIO_ID_CONSOLE abi) True (ccopy s) (c_iov0 s) (c_readv_ans t);
            (err, copy2) = mic_virtio_copy (c_tx_ans t) copy1
        in if err = 0 \<and> \<not> verify_out_len copy2 iov then None
           else Some ([r, CSpinForDescriptors, CCopyTx (lens iov)],
             s\<lparr>ccopy := copy2, c_iov0 := iov[0 := (iov ! 0)\<lparr>iov_len := of_nat MIC_PAGE_SIZE\<rparr>]\<rparr>)
      else Some ([r], s))"

fun cons_rx ::
  "virtio_abi \<Rightarrow> ((int \<times> u32) \<times> int) list \<Rightarrow> cons_state \<Rightarrow> (cons_act list \<times> cons_state) option" where
  "cons_rx abi [] s = Some ([], s)"
| "cons_rx abi ((cans, wlen) # rest) s =
     (let (copy1, iov) = txrx_prepare abi (VIRTIO_ID_CONSOLE abi) False (ccopy s) (c_iov1 s)
                           (int MIC_PAGE_SIZE);
          (err, copy2) = mic_virtio_copy cans copy1
      in if err \<noteq> 0 then Some ([CCopyRx (lens iov)], s\<lparr>ccopy := copy2, c_iov1 := iov\<rparr>)
         else
           let iov' = iov[0 := (iov ! 0)\<lparr>iov_len := ucast (out_len copy2)\<rparr>]
           in if \<not> verify_out_len copy2 iov' then None
              else case cons_rx abi rest (s\<lparr>ccopy := copy2, c_iov1 := iov'\<rparr>) of
                     None \<Rightarrow> None
                   | Some (acts, s') \<Rightarrow> Some ([CCopyRx (lens iov), WritePty (lens iov')] @ acts, s'))"

definition virtio_console_turn ::
  "virtio_abi \<Rightarrow> cons_turn_ans \<Rightarrow> cons_state \<Rightarrow> (cons_act list \<times> cons_state) option" where
  "virtio_console_turn abi t s =
     (if c_poll_ans t < 0 then Some ([], s)
      else
        let w = (if c_dev_status t AND VIRTIO_CONFIG_S_DRIVER_OK abi = 0 then [CWaitForCardDriver] else [])
        in case (if monitor_in t then cons_tx abi t s else Some ([], s)) of
             None \<Rightarrow> None
           | Some (a1, s1) \<Rightarrow>
               (case (if cons_in t then cons_rx abi (c_rx_ans t) s1 else Some ([], s1)) of
                  None \<Rightarrow> None
                | Some (a2, s2) \<Rightarrow> Some (w @ a1 @ a2, s2)))"

definition cons_init :: "u64 \<Rightarrow> u64 \<Rightarrow> mic_copy_desc \<Rightarrow> cons_state" where
  "cons_init buf0 buf1 copy =
     \<lparr>c_iov0 = [\<lparr>iov_base = buf0, iov_len = of_nat MIC_PAGE_SIZE\<rparr>],
      c_iov1 = [\<lparr>iov_base = buf1, iov_len = of_nat MIC_PAGE_SIZE\<rparr>],
      ccopy = copy\<lparr>iovcnt := 1\<rparr>\<rparr>"

text \<open>
  The preparation of the console thread: opening the pseudoterminal and mapping the rings.
  The result is the state for the loop, if the thread gets there, and the trace.
\<close>

record cons_start_ans =
  openpt_ans :: int
  ptsname_ans :: "string option"
  grantpt_ans :: int
  unlockpt_ans :: int

definition virtio_console_start ::
  "virtio_abi \<Rightarrow> cons_start_ans \<Rightarrow> (u64 \<Rightarrow> u64 option) \<Rightarrow> (u64 \<Rightarrow> u32) \<Rightarrow> mic_info
    \<Rightarrow> ((mic_vring list \<times> mic_info) option \<times> sys_res ev list) option" where
  "virtio_console_start abi ans map_ans magic mic =
     (let pty_fd = openpt_ans ans;
          op = [Acq (SysFd pty_fd)]; oc = [Acq (SysFd pty_fd), Rel (SysFd pty_fd)]
      in if pty_fd < 0 then Some (None, [])
         else if ptsname_ans ans = None then Some (None, oc)
         else if grantpt_ans ans < 0 then Some (None, oc)
         else if unlockpt_ans ans < 0 then Some (None, oc)
         else case init_vr abi map_ans magic (VIRTIO_ID_CONSOLE abi) True
                     (num_vq (dd (virtcons_dev_page abi))) mic of
                None \<Rightarrow> None
              | Some (None, vrs, mic1) \<Rightarrow> Some (None, oc)
              | Some (Some a, vrs, mic1) \<Rightarrow> Some (Some (vrs, mic1), op))"

text \<open>
  The preparation of the network thread: the tap device, its configuration and the rings.
  On every failure the thread ends and the tap descriptor stays in the card.
\<close>

definition virtio_net_start ::
  "virtio_abi \<Rightarrow> (string \<Rightarrow> int \<times> string \<times> sys_res ev list) \<Rightarrow> (string \<Rightarrow> tap_outcome)
    \<Rightarrow> (u64 \<Rightarrow> u64 option) \<Rightarrow> (u64 \<Rightarrow> u32) \<Rightarrow> mic_info
    \<Rightarrow> ((mic_vring list) option \<times> mic_info \<times> sys_res ev list) option" where
  "virtio_net_start abi tun tap map_ans magic mic =
     (let (tfd, if_name, tr) = tun (snprintf IFNAMSIZ (''mic'' @ show_int (mic_id mic)));
          mic1 = mic\<lparr>mic_net := (mic_net mic)\<lparr>tap_fd := tfd\<rparr>\<rparr>
      in if tfd < 0 then Some (None, mic1, tr)
         else if tap if_name \<noteq> TapRet 0 then Some (None, mic1, tr)
         else case init_vr abi map_ans magic (VIRTIO_ID_NET abi) True
                     (num_vq (dd (virtnet_dev_page abi))) mic1 of
                None \<Rightarrow> None
              | Some (None, vrs, mic2) \<Rightarrow> Some (None, mic2, tr)
              | Some (Some a, vrs, mic2) \<Rightarrow> Some (Some vrs, mic2, tr))"

section \<open>Lengths of the I/O vectors\<close>

text \<open>
  Before each turn of the network thread the read vector has the full packet buffer behind
  the header, both vectors are in place, and copies use two elements.
\<close>

definition net_inv :: "virtio_abi \<Rightarrow> net_state \<Rightarrow> bool" where
  "net_inv abi s \<longleftrightarrow> lens (iov0 s) = [sizeof_net_hdr abi, MAX_NET_PKT_SIZE]
     \<and> (\<exists>n. lens (iov1 s) = [sizeof_net_hdr abi, n]) \<and> iovcnt (ncopy s) = 2"

lemma lens_pair: "lens iov = [a, b] \<Longrightarrow> \<exists>x y. iov = [x, y] \<and> iov_len x = a \<and> iov_len y = b"
  by (auto simp: lens_def)

lemma sum_two: "lens iov = [a, b] \<Longrightarrow> iovcnt copy = 2 \<Longrightarrow> sum_iovec_len copy iov = sint (a + b)"
  by (drule lens_pair) (auto simp: sum_iovec_len_def upt_conv_Cons)

lemma sum_one: "lens iov = [a] \<Longrightarrow> iovcnt copy = 1 \<Longrightarrow> sum_iovec_len copy iov = sint a"
  by (auto simp: sum_iovec_len_def lens_def)

lemma sint_ucast_u32: "sint (ucast (x :: u32) :: u64) = uint x"
  using unat_u32_less [of x] by (simp add: sint_small unat_ucast_up del: unat_u32_less)

lemma sint_ssize: "0 \<le> n \<Longrightarrow> n < 2 ^ 63 \<Longrightarrow> sint (word_of_int n :: u64) = n"
  by (simp add: signed_of_int signed_take_bit_int_eq_self)

text \<open>A packet of the right total length passes the check of \<open>verify_out_len\<close>.\<close>

lemma verify_rx_net:
  "lens iov = [h, ucast (out_len copy) - h] \<Longrightarrow> iovcnt copy = 2 \<Longrightarrow> verify_out_len copy iov"
  by (simp add: verify_out_len_def sum_two sint_ucast_u32)

lemma verify_tx_net:
  "lens iov = [h, word_of_int n - h] \<Longrightarrow> iovcnt copy = 2 \<Longrightarrow> 0 \<le> n \<Longrightarrow> n < 2 ^ 63 \<Longrightarrow>
   verify_out_len copy iov \<longleftrightarrow> uint (out_len copy) = n"
  by (simp add: verify_out_len_def sum_two sint_ssize)

text \<open>What a turn may do: the lengths it hands to the kernel.\<close>

fun net_act_ok :: "virtio_abi \<Rightarrow> net_turn_ans \<Rightarrow> net_act \<Rightarrow> bool" where
  "net_act_ok abi t (ReadTap ls) = (ls = [sizeof_net_hdr abi, MAX_NET_PKT_SIZE])"
| "net_act_ok abi t (CopyRx ls) = (ls = [sizeof_net_hdr abi, MAX_NET_PKT_SIZE])"
| "net_act_ok abi t (CopyTx ls) =
     (ls = [sizeof_net_hdr abi, word_of_int (readv_ans t) - sizeof_net_hdr abi])"
| "net_act_ok abi t (WriteTap ls) =
     (\<exists>r \<in> set (rx_ans t). ls = [sizeof_net_hdr abi, ucast (snd (fst r)) - sizeof_net_hdr abi])"
| "net_act_ok abi t _ = True"

lemma txrx_prepare_net:
  "lens iov = [a, b] \<Longrightarrow> txrx_prepare abi (VIRTIO_ID_NET abi) tx copy iov len = (copy', iov') \<Longrightarrow>
   lens iov' = [a, word_of_int len - sizeof_net_hdr abi] \<and> iovcnt copy' = iovcnt copy"
  by (drule lens_pair) (auto simp: txrx_prepare_def lens_def)

lemma lens_update: "lens iov = [a, b] \<Longrightarrow> lens (iov[1 := (iov ! 1)\<lparr>iov_len := n\<rparr>]) = [a, n]"
  by (drule lens_pair) (auto simp: lens_def)

lemma net_tx_ok:
  assumes "net_inv abi s" and "net_tx abi t s = Some (acts, s')"
  shows "net_inv abi s' \<and> list_all (net_act_ok abi t) acts"
proof -
  obtain copy1 iov where p: "txrx_prepare abi (VIRTIO_ID_NET abi) True
      (ncopy (s\<lparr>hdr_flags := read_flags t OR VIRTIO_NET_HDR_F_DATA_VALID\<rparr>)) (iov0 s) (readv_ans t) = (copy1, iov)"
    by (metis surj_pair)
  have l: "lens iov = [sizeof_net_hdr abi, word_of_int (readv_ans t) - sizeof_net_hdr abi]" "iovcnt copy1 = 2"
    using txrx_prepare_net [OF _ p] assms(1) by (auto simp: net_inv_def)
  with assms p lens_update [OF l(1), of MAX_NET_PKT_SIZE] show ?thesis
    by (auto simp: net_tx_def net_inv_def mic_virtio_copy_def Let_def split: if_splits)
qed

lemma net_rx_ok:
  assumes "net_inv abi s" and "set ans \<subseteq> set (rx_ans t)"
  shows "\<exists>acts s'. net_rx abi ans s = Some (acts, s') \<and> net_inv abi s' \<and> list_all (net_act_ok abi t) acts"
  using assms
proof (induction ans arbitrary: s)
  case (Cons a ans)
  obtain cans wlen where a: "a = (cans, wlen)" by (cases a)
  obtain copy1 iov where p: "txrx_prepare abi (VIRTIO_ID_NET abi) False (ncopy s) (iov1 s)
      (uint (MAX_NET_PKT_SIZE + sizeof_net_hdr abi)) = (copy1, iov)" by (metis surj_pair)
  obtain n where n: "lens (iov1 s) = [sizeof_net_hdr abi, n]" using Cons.prems by (auto simp: net_inv_def)
  have l: "lens iov = [sizeof_net_hdr abi, MAX_NET_PKT_SIZE]" "iovcnt copy1 = 2"
    using txrx_prepare_net [OF n p] Cons.prems by (auto simp: net_inv_def)
  let ?c = "copy1\<lparr>out_len := snd cans\<rparr>"
  let ?iov = "iov[1 := (iov ! 1)\<lparr>iov_len := ucast (snd cans) - sizeof_net_hdr abi\<rparr>]"
  have l': "lens ?iov = [sizeof_net_hdr abi, ucast (snd cans) - sizeof_net_hdr abi]"
    using lens_update [OF l(1)] by simp
  have v: "verify_out_len ?c ?iov" using verify_rx_net [of ?iov _ ?c] l' l(2) by simp
  have i: "net_inv abi (s\<lparr>ncopy := ?c, iov1 := iov\<rparr>)" "net_inv abi (s\<lparr>ncopy := ?c, iov1 := ?iov\<rparr>)"
    using Cons.prems l l' by (auto simp: net_inv_def)
  have m: "net_act_ok abi t (WriteTap (lens ?iov))" using Cons.prems a l' by force
  obtain acts s' where r: "net_rx abi ans (s\<lparr>ncopy := ?c, iov1 := ?iov\<rparr>) = Some (acts, s')"
    "net_inv abi s'" "list_all (net_act_ok abi t) acts"
    using Cons.IH [OF i(2)] Cons.prems by auto
  show ?case
    using a p v r i m l by (simp add: mic_virtio_copy_def Let_def del: net_act_ok.simps(4))
qed simp

text \<open>The thread as a machine: a failed assertion ends it.\<close>

definition net_step :: "virtio_abi \<Rightarrow> net_state option \<Rightarrow> net_turn_ans \<Rightarrow> net_state option" where
  "net_step abi so t = Option.bind so (\<lambda>s. map_option snd (virtio_net_turn abi t s))"

lemma virtio_net_turn_ok:
  assumes "net_inv abi s" and "virtio_net_turn abi t s = Some (acts, s')"
  shows "net_inv abi s' \<and> list_all (net_act_ok abi t) acts"
proof -
  have rx: "net_rx abi (rx_ans t) s1 = Some (a2, s2) \<Longrightarrow> net_inv abi s1 \<Longrightarrow>
      net_inv abi s2 \<and> list_all (net_act_ok abi t) a2" for s1 a2 s2
    using net_rx_ok [of abi s1 "rx_ans t" t] by auto
  show ?thesis
    using assms net_tx_ok [OF assms(1), of t]
    by (auto simp: virtio_net_turn_def Let_def dest!: rx split: if_splits option.splits)
qed

interpretation net: inv_machine "net_step abi" "\<lambda>so. \<forall>s. so = Some s \<longrightarrow> net_inv abi s" for abi
  by unfold_locales (auto simp: net_step_def dest: virtio_net_turn_ok split: bind_splits)

lemma net_init_inv: "net_inv abi (net_init abi h0 b0 h1 b1 copy)"
  by (simp add: net_inv_def net_init_def lens_def)

lemma net_tx_aborts_iff:
  assumes "net_inv abi s" and "readv_ans t < 2 ^ 63"
  shows "net_tx abi t s = None \<longleftrightarrow>
     0 < readv_ans t \<and> fst (tx_ans t) = 0 \<and> uint (snd (tx_ans t)) \<noteq> readv_ans t"
proof -
  obtain copy1 iov where p: "txrx_prepare abi (VIRTIO_ID_NET abi) True (ncopy s) (iov0 s) (readv_ans t)
      = (copy1, iov)" by (metis surj_pair)
  have l: "lens iov = [sizeof_net_hdr abi, word_of_int (readv_ans t) - sizeof_net_hdr abi]" "iovcnt copy1 = 2"
    using txrx_prepare_net [OF _ p] assms(1) by (auto simp: net_inv_def)
  then have "0 < readv_ans t \<Longrightarrow> verify_out_len (copy1\<lparr>out_len := n\<rparr>) iov \<longleftrightarrow> uint n = readv_ans t" for n
    using verify_tx_net [OF l(1), of "copy1\<lparr>out_len := n\<rparr>"] assms(2) by simp
  then show ?thesis using p by (simp add: net_tx_def mic_virtio_copy_def Let_def)
qed

lemma virtio_net_turn_aborts_iff:
  assumes "net_inv abi s" and "readv_ans t < 2 ^ 63"
  shows "virtio_net_turn abi t s = None \<longleftrightarrow>
     0 \<le> poll_ans t \<and> tun_in t \<and> 0 < readv_ans t \<and> fst (tx_ans t) = 0
     \<and> uint (snd (tx_ans t)) \<noteq> readv_ans t"
proof -
  have rx: "\<exists>a2 s2. net_rx abi (rx_ans t) s1 = Some (a2, s2)" if "net_inv abi s1" for s1
    using net_rx_ok [OF that, of "rx_ans t" t] by auto
  show ?thesis
  proof (cases "tun_in t")
    case True
    show ?thesis
    proof (cases "net_tx abi t s")
      case None
      with True net_tx_aborts_iff [OF assms] show ?thesis by (auto simp: virtio_net_turn_def Let_def)
    next
      case (Some r)
      obtain a1 s1 where r: "r = (a1, s1)" by (cases r)
      have "net_inv abi s1" using net_tx_ok [OF assms(1)] Some r by simp
      from rx [OF this] Some r True net_tx_aborts_iff [OF assms] show ?thesis
        by (auto simp: virtio_net_turn_def Let_def)
    qed
  next
    case False
    with rx [OF assms(1)] show ?thesis by (auto simp: virtio_net_turn_def Let_def)
  qed
qed

text \<open>The same for the console thread, whose vectors have one element.\<close>

definition cons_inv :: "cons_state \<Rightarrow> bool" where
  "cons_inv s \<longleftrightarrow> lens (c_iov0 s) = [4096] \<and> (\<exists>n. lens (c_iov1 s) = [n]) \<and> iovcnt (ccopy s) = 1"

fun cons_act_ok :: "cons_turn_ans \<Rightarrow> cons_act \<Rightarrow> bool" where
  "cons_act_ok t (ReadPty ls) = (ls = [4096])"
| "cons_act_ok t (CCopyRx ls) = (ls = [4096])"
| "cons_act_ok t (CCopyTx ls) = (ls = [word_of_int (c_readv_ans t)])"
| "cons_act_ok t (WritePty ls) = (\<exists>r \<in> set (c_rx_ans t). ls = [ucast (snd (fst r))])"
| "cons_act_ok t _ = True"

lemma lens_single: "lens iov = [a] \<Longrightarrow> \<exists>x. iov = [x] \<and> iov_len x = a"
  by (auto simp: lens_def)

lemma txrx_prepare_cons:
  "lens iov = [a] \<Longrightarrow> VIRTIO_ID_CONSOLE abi \<noteq> VIRTIO_ID_NET abi \<Longrightarrow>
   txrx_prepare abi (VIRTIO_ID_CONSOLE abi) tx copy iov len = (copy', iov') \<Longrightarrow>
   lens iov' = [word_of_int len] \<and> iovcnt copy' = iovcnt copy"
  by (drule lens_single) (auto simp: txrx_prepare_def lens_def)

lemma lens_update0: "lens iov = [a] \<Longrightarrow> lens (iov[0 := (iov ! 0)\<lparr>iov_len := n\<rparr>]) = [n]"
  by (drule lens_single) (auto simp: lens_def)

lemma cons_tx_ok:
  assumes "cons_inv s" and "VIRTIO_ID_CONSOLE abi \<noteq> VIRTIO_ID_NET abi"
    and "cons_tx abi t s = Some (acts, s')"
  shows "cons_inv s' \<and> list_all (cons_act_ok t) acts"
proof -
  obtain copy1 iov where p: "txrx_prepare abi (VIRTIO_ID_CONSOLE abi) True (ccopy s) (c_iov0 s) (c_readv_ans t)
      = (copy1, iov)" by (metis surj_pair)
  have l: "lens iov = [word_of_int (c_readv_ans t)]" "iovcnt copy1 = 1"
    using txrx_prepare_cons [OF _ assms(2) p] assms(1) by (auto simp: cons_inv_def)
  with assms p lens_update0 [OF l(1), of 4096] show ?thesis
    by (auto simp: cons_tx_def cons_inv_def mic_virtio_copy_def MIC_PAGE_SIZE_def Let_def split: if_splits)
qed

lemma cons_rx_ok:
  assumes "cons_inv s" and "VIRTIO_ID_CONSOLE abi \<noteq> VIRTIO_ID_NET abi" and "set ans \<subseteq> set (c_rx_ans t)"
  shows "\<exists>acts s'. cons_rx abi ans s = Some (acts, s') \<and> cons_inv s' \<and> list_all (cons_act_ok t) acts"
  using assms
proof (induction ans arbitrary: s)
  case (Cons a ans)
  obtain cans wlen where a: "a = (cans, wlen)" by (cases a)
  obtain copy1 iov where p: "txrx_prepare abi (VIRTIO_ID_CONSOLE abi) False (ccopy s) (c_iov1 s)
      (int MIC_PAGE_SIZE) = (copy1, iov)" by (metis surj_pair)
  obtain n where n: "lens (c_iov1 s) = [n]" using Cons.prems by (auto simp: cons_inv_def)
  have l: "lens iov = [4096]" "iovcnt copy1 = 1"
    using txrx_prepare_cons [OF n Cons.prems(2) p] Cons.prems by (auto simp: cons_inv_def MIC_PAGE_SIZE_def)
  let ?c = "copy1\<lparr>out_len := snd cans\<rparr>"
  let ?iov = "iov[0 := (iov ! 0)\<lparr>iov_len := ucast (snd cans)\<rparr>]"
  have l': "lens ?iov = [ucast (snd cans)]" by (rule lens_update0 [OF l(1)])
  have v: "verify_out_len ?c ?iov"
    using sum_one [OF l', of ?c] l(2) by (simp add: verify_out_len_def sint_ucast_u32)
  have i: "cons_inv (s\<lparr>ccopy := ?c, c_iov1 := iov\<rparr>)" "cons_inv (s\<lparr>ccopy := ?c, c_iov1 := ?iov\<rparr>)"
    using Cons.prems l l' by (auto simp: cons_inv_def)
  have m: "cons_act_ok t (WritePty (lens ?iov))" using Cons.prems a l' by force
  obtain acts s' where r: "cons_rx abi ans (s\<lparr>ccopy := ?c, c_iov1 := ?iov\<rparr>) = Some (acts, s')"
    "cons_inv s'" "list_all (cons_act_ok t) acts"
    using Cons.IH [OF i(2)] Cons.prems by auto
  show ?case
    using a p v r i m l by (simp add: mic_virtio_copy_def Let_def del: cons_act_ok.simps(4))
qed simp

lemma virtio_console_turn_ok:
  assumes "cons_inv s" and "VIRTIO_ID_CONSOLE abi \<noteq> VIRTIO_ID_NET abi"
    and "virtio_console_turn abi t s = Some (acts, s')"
  shows "cons_inv s' \<and> list_all (cons_act_ok t) acts"
proof -
  have rx: "cons_rx abi (c_rx_ans t) s1 = Some (a2, s2) \<Longrightarrow> cons_inv s1 \<Longrightarrow>
      cons_inv s2 \<and> list_all (cons_act_ok t) a2" for s1 a2 s2
    using cons_rx_ok [of s1 abi "c_rx_ans t" t] assms(2) by auto
  show ?thesis
    using assms cons_tx_ok [OF assms(1,2), of t]
    by (auto simp: virtio_console_turn_def Let_def dest!: rx split: if_splits option.splits)
qed

section \<open>Alignment and the layout of the rings\<close>

lemma ALIGN_DOWN_shift: "k < 64 \<Longrightarrow> ALIGN_DOWN a (2 ^ k) = push_bit k (drop_bit k a)"
  unfolding ALIGN_DOWN_def mask_eq_exp_minus_1 [symmetric]
  by (rule bit_word_eqI) (auto simp: bit_simps not_le)

lemma ALIGN_DOWN_unat: "k < 64 \<Longrightarrow> unat (ALIGN_DOWN a (2 ^ k)) = unat a div 2 ^ k * 2 ^ k"
proof -
  assume k: "k < 64"
  have "unat a div 2 ^ k * 2 ^ k \<le> unat a" by (simp add: div_times_less_eq_dividend)
  also have "\<dots> < 2 ^ 64" using unsigned_less [of a] by simp
  finally have "take_bit 64 (unat a div 2 ^ k * 2 ^ k) = unat a div 2 ^ k * 2 ^ k"
    by (simp add: take_bit_nat_eq_self)
  with k show ?thesis
    unfolding ALIGN_DOWN_shift [OF k] unsigned_push_bit_eq unat_drop_bit_eq
    by (simp add: push_bit_eq_mult drop_bit_eq_div)
qed

lemma ALIGN_UP_unat:
  assumes "k < 64" and "unat a + 2 ^ k \<le> 2 ^ 64"
  shows "unat (ALIGN_UP a (2 ^ k)) = (unat a + 2 ^ k - 1) div 2 ^ k * 2 ^ k"
proof -
  have one: "1 \<le> unat a + 2 ^ k" by (rule trans_le_add2) simp
  have "a + 2 ^ k - 1 = of_nat (unat a + 2 ^ k - 1)"
    unfolding of_nat_diff [OF one] by simp
  then have "unat (a + 2 ^ k - 1) = unat a + 2 ^ k - 1"
    using assms unat_of_nat_u64 [of "unat a + 2 ^ k - 1"] by (simp add: le_less_trans)
  with assms(1) show ?thesis by (simp add: ALIGN_UP_def ALIGN_DOWN_unat)
qed

lemma MAX_NET_PKT_SIZE_eq: "MAX_NET_PKT_SIZE = 65600"
  by code_simp

lemma vr_size_unat:
  assumes "unat (vring_bytes abi) + unat (sizeof_vring_info abi) + 4096 \<le> 2 ^ 64"
  shows "unat (vr_size abi) =
     (unat (vring_bytes abi) + unat (sizeof_vring_info abi) + 4095) div 4096 * 4096"
proof -
  have "unat (vring_bytes abi + sizeof_vring_info abi) = unat (vring_bytes abi) + unat (sizeof_vring_info abi)"
    using assms by (simp add: unat_word_ariths)
  moreover have "(of_nat MIC_PAGE_SIZE :: u64) = 2 ^ 12" by (simp add: MIC_PAGE_SIZE_def)
  ultimately show ?thesis
    using ALIGN_UP_unat [of 12 "vring_bytes abi + sizeof_vring_info abi"] assms
    by (simp add: vr_size_def PAGE_ALIGN_def)
qed

lemma set_dp_type: "set_dp abi type a mic \<noteq> None \<longleftrightarrow>
   type \<in> {VIRTIO_ID_CONSOLE abi, VIRTIO_ID_NET abi, VIRTIO_ID_BLOCK abi}"
  by (simp add: set_dp_def)

lemma get_set_dp: "set_dp abi type a mic = Some mic' \<Longrightarrow> get_dp abi type mic' = Some a"
  by (auto simp: set_dp_def get_dp_def split: if_splits)


text \<open>Concrete values for the examples.\<close>

definition sample_abi :: virtio_abi where
  "sample_abi = \<lparr>VIRTIO_ID_NET = 1, VIRTIO_ID_BLOCK = 2, VIRTIO_ID_CONSOLE = 3,
     VRING_DESC_F_NEXT = 1, VRING_DESC_F_WRITE = 2, VIRTIO_BLK_T_OUT = 1, VIRTIO_BLK_T_GET_ID = 8,
     VIRTIO_BLK_F_SEG_MAX = 2, VIRTIO_NET_F_CSUM = 0, VIRTIO_NET_F_GSO = 6,
     VIRTIO_NET_F_GUEST_TSO4 = 7, VIRTIO_NET_F_GUEST_TSO6 = 8, VIRTIO_NET_F_GUEST_ECN = 9,
     VIRTIO_NET_F_GUEST_UFO = 10, VIRTIO_CONFIG_S_DRIVER_OK = 4, MIC_VRING_ENTRIES = 128,
     MIC_MAGIC = 0xc0ffee00, sizeof_net_hdr = 10, sizeof_blk_outhdr = 16, sizeof_bootparam = 64,
     sizeof_vring_info = 8, vring_bytes = 0x2406, sizeof_cons_config = 12, sizeof_net_config = 10,
     sizeof_blk_config = 60\<rparr>"

lemma sample_abi_fields:
  "VIRTIO_ID_NET sample_abi = 1" "VIRTIO_ID_BLOCK sample_abi = 2" "VIRTIO_ID_CONSOLE sample_abi = 3"
  "MIC_MAGIC sample_abi = 0xc0ffee00" "vring_bytes sample_abi = 0x2406" "sizeof_vring_info sample_abi = 8"
  by (simp_all add: sample_abi_def)

definition sample_mic :: mic_info where
  "sample_mic = \<lparr>mic_id = 0, mic_name = Some ''mic0'', mic_pid = 7,
     mic_console = \<lparr>virtio_console_fd = -1, console_dp = 0\<rparr>,
     mic_net = \<lparr>virtio_net_fd = -1, tap_fd = -1, net_dp = 0\<rparr>,
     mic_virtblk = \<lparr>virtio_block_fd = -1, block_dp = 0, signaled = False, backend_file = [],
       backend = -1, backend_addr = 0, backend_size = 0\<rparr>,
     restart = False, boot_on_resume = False\<rparr>"


section \<open>The search for a device descriptor\<close>

text \<open>The descriptors that lie one behind the other from an offset of the page on.\<close>

fun desc_path :: "(u64 \<Rightarrow> mic_device_desc) \<Rightarrow> (mic_device_desc \<Rightarrow> nat) \<Rightarrow> u64 \<Rightarrow> nat
    \<Rightarrow> (nat \<times> mic_device_desc) list \<Rightarrow> bool" where
  "desc_path at total_size dp i [] = (i \<ge> 4096 \<or> dtype (at (dp + of_nat i)) = 0)"
| "desc_path at total_size dp i ((j, d) # ds) =
     (j = i \<and> i < 4096 \<and> at (dp + of_nat i) = d \<and> dtype d \<noteq> 0
      \<and> desc_path at total_size dp (i + total_size d) ds)"

lemma desc_loop_find:
  "desc_path at total_size dp i ds \<Longrightarrow>
   desc_loop at total_size dp type i =
     Some (map_option (\<lambda>(j, d). dp + of_nat j)
       (find (\<lambda>(j, d). dtype d \<noteq> -1 \<and> dtype d = type mod 256) ds))"
proof (induction ds arbitrary: i)
  case Nil
  then show ?case by (auto simp: desc_loop.simps [of at total_size dp type i] MIC_PAGE_SIZE_def)
next
  case (Cons e ds)
  obtain j d where e: "e = (j, d)" by (cases e)
  show ?case
    using Cons e by (auto simp: desc_loop.simps [of at total_size dp type i] MIC_PAGE_SIZE_def Let_def)
qed

lemma desc_loop_returns:
  assumes "\<And>d. 0 < total_size d"
  shows "\<exists>ds. desc_path at total_size dp i ds"
proof (induction "4096 - i" arbitrary: i rule: less_induct)
  case less
  let ?d = "at (dp + of_nat i)"
  show ?case
  proof (cases "i \<ge> 4096 \<or> dtype ?d = 0")
    case True
    then show ?thesis by (intro exI [of _ "[]"]) simp
  next
    case False
    then have "4096 - (i + total_size ?d) < 4096 - i" using assms [of ?d] by linarith
    then obtain ds where "desc_path at total_size dp (i + total_size ?d) ds" using less by blast
    with False show ?thesis by (intro exI [of _ "(i, ?d) # ds"]) simp
  qed
qed

text \<open>
  C22. Termination and result of the descriptor search: when no descriptor has size 0 the
  search ends, whatever the shared page holds, and there is a list of the descriptors that lie
  in the page up to the first one of type 0 such that the result is the first live one (type
  not -1) of the wanted type, or the failed assertion when there is none.
\<close>
theorem get_device_desc_returns:
  assumes "\<And>d. 0 < total_size d" and "get_dp abi type mic = Some dp"
  shows "\<exists>ds. desc_path at total_size dp (unat (sizeof_bootparam abi)) ds
     \<and> get_device_desc abi at total_size mic type =
         Some (map_option (\<lambda>(j, d). dp + of_nat j)
           (find (\<lambda>(j, d). dtype d \<noteq> -1 \<and> dtype d = type mod 256) ds))"
proof -
  obtain ds where "desc_path at total_size dp (unat (sizeof_bootparam abi)) ds"
    using desc_loop_returns [of total_size, OF assms(1)] by blast
  with desc_loop_find [OF this] assms(2) show ?thesis by (auto simp: get_device_desc_def)
qed

theorem get_device_desc_returns_witness:
  "\<exists>ds. desc_path (\<lambda>a. if a = 64 then dd (virtnet_dev_page sample_abi) else
         (dd (virtnet_dev_page sample_abi))\<lparr>dtype := 0\<rparr>) (\<lambda>d. 40) 0
         (unat (sizeof_bootparam sample_abi)) ds
     \<and> get_device_desc sample_abi (\<lambda>a. if a = 64 then dd (virtnet_dev_page sample_abi) else
         (dd (virtnet_dev_page sample_abi))\<lparr>dtype := 0\<rparr>) (\<lambda>d. 40) sample_mic 1 =
         Some (map_option (\<lambda>(j, d). 0 + of_nat j)
           (find (\<lambda>(j, d). dtype d \<noteq> -1 \<and> dtype d = 1 mod 256) ds))"
  by (rule get_device_desc_returns) (simp_all add: get_dp_def sample_abi_def sample_mic_def)

section \<open>Properties of the threads\<close>

text \<open>
  C5. The lengths the network thread hands to the kernel, in every turn of every run: a
  packet is read from the tap device into the header and the whole packet buffer, a packet
  from the card is received with the same room, what was read is sent to the card with its
  exact length, and what was received is written to the tap device with its exact length.
  The thread fails an assertion in a turn exactly when a copy to the card reports success
  with a length other than the one read.
\<close>
theorem net_thread_lengths:
  assumes "foldl (net_step abi) (Some (net_init abi h0 b0 h1 b1 copy)) ts = Some s"
    and "readv_ans t < 2 ^ 63"
  shows "(case virtio_net_turn abi t s of
       None \<Rightarrow> 0 \<le> poll_ans t \<and> tun_in t \<and> 0 < readv_ans t \<and> fst (tx_ans t) = 0
         \<and> uint (snd (tx_ans t)) \<noteq> readv_ans t
     | Some (acts, s') \<Rightarrow> list_all (net_act_ok abi t) acts
         \<and> \<not> (0 \<le> poll_ans t \<and> tun_in t \<and> 0 < readv_ans t \<and> fst (tx_ans t) = 0
              \<and> uint (snd (tx_ans t)) \<noteq> readv_ans t))"
proof -
  have i: "net_inv abi s"
    using net.run_inv [of "Some (net_init abi h0 b0 h1 b1 copy)" abi ts] assms(1) net_init_inv by auto
  show ?thesis
  proof (cases "virtio_net_turn abi t s")
    case None
    with virtio_net_turn_aborts_iff [OF i assms(2)] show ?thesis by simp
  next
    case (Some r)
    with virtio_net_turn_aborts_iff [OF i assms(2)] virtio_net_turn_ok [OF i, of t "fst r" "snd r"]
    show ?thesis by (cases r) simp
  qed
qed

definition sample_turn :: net_turn_ans where
  "sample_turn = \<lparr>poll_ans = 1, dev_status = 4, tun_in = True, readv_ans = 110, read_flags = 0,
     tx_ans = (0, 110), net_in = True, rx_ans = [((0, 70), 70)]\<rparr>"

definition sample_copy :: mic_copy_desc where
  "sample_copy = \<lparr>iovcnt = 0, vr_idx = 0, update_used = False, out_len = 0\<rparr>"

theorem net_thread_lengths_witness:
  "\<exists>acts s'. virtio_net_turn sample_abi sample_turn (net_init sample_abi 0 16 32 48 sample_copy)
       = Some (acts, s')
     \<and> list_all (net_act_ok sample_abi sample_turn) acts
     \<and> acts = [ReadTap [10, 65600], SpinForDescriptors, CopyTx [10, 100], CopyRx [10, 65600],
         WriteTap [10, 60]]"
proof -
  let ?s = "net_init sample_abi 0 16 32 48 sample_copy"
  have f: "foldl (net_step sample_abi) (Some ?s) [] = Some ?s" by simp
  have r: "readv_ans sample_turn < 2 ^ 63" by (simp add: sample_turn_def)
  have "map_option fst (virtio_net_turn sample_abi sample_turn ?s) =
      Some [ReadTap [10, 65600], SpinForDescriptors, CopyTx [10, 100], CopyRx [10, 65600],
         WriteTap [10, 60]]"
    by code_simp
  then obtain s' where t: "virtio_net_turn sample_abi sample_turn ?s =
      Some ([ReadTap [10, 65600], SpinForDescriptors, CopyTx [10, 100], CopyRx [10, 65600],
         WriteTap [10, 60]], s')" by (auto simp del: net_act_ok.simps)
  show ?thesis
    using net_thread_lengths [OF f r] unfolding t option.case prod.case by blast
qed

text \<open>
  The address of the tap device is printed into a buffer of \<open>IFNAMSIZ\<close> bytes, which
  holds it for the cards 0 to 9 only: from card 10 on the prefix length is cut off.
\<close>

lemma show_one_digit: "n < 10 \<Longrightarrow> length (show_nat n) = 1"
  by (simp add: show_base.simps [of 10 n])

lemma show_two_digits: "10 \<le> n \<Longrightarrow> n < 100 \<Longrightarrow> length (show_nat n) = 2"
  by (simp add: show_base.simps [of 10 n] show_one_digit)

text \<open>
  The address configured for the tap device of card \<open>n\<close> is
  \<open>172.31.n.254/24\<close> for the cards 0 to 9; for the cards 10 to 99 the last digit of the
  prefix length is lost and the address is \<open>172.31.n.254/2\<close>.
\<close>
theorem tap_ipaddr_truncated:
  assumes "n < 100"
  shows "tap_ipaddr (int n) =
     (if n < 10 then ''172.31.'' @ show_nat n @ ''.254/24'' else ''172.31.'' @ show_nat n @ ''.254/2'')"
proof (cases "n < 10")
  case True
  with show_one_digit [OF True] show ?thesis
    by (simp add: tap_ipaddr_def snprintf_def IFNAMSIZ_def show_int_def)
next
  case False
  with assms have "length (show_nat n) = 2" by (intro show_two_digits) simp_all
  with False show ?thesis by (simp add: tap_ipaddr_def snprintf_def IFNAMSIZ_def show_int_def)
qed

theorem tap_ipaddr_truncated_witness: "tap_ipaddr (int 12) = ''172.31.12.254/2''"
proof -
  have "show_nat 12 = ''12''" by code_simp
  then show ?thesis using tap_ipaddr_truncated [of 12] by simp
qed

end
