(* ===== verification/Mpss_Wait.thy ===== *)
theory Mpss_Wait
  imports Mpss_Virtio
begin

unbundle bit_operations_syntax

text \<open>
  The two waiting loops of \<open>src/Documentation/mic/mpssd/mpssd.c\<close>, and the network and
  console threads as a whole: their preparation, the search for their descriptor, and the endless
  loop around the turns of \<open>Mpss_Virtio\<close>, in which they may wait. What the card writes to the
  shared page is a function of the number of the poll or of the look at the ring. Not returning is
  \<open>None\<close>; a failed assertion is \<open>Some None\<close>.
\<close>

section \<open>Waiting\<close>

text \<open>One poll of the wait: its value, the events, and the status byte read after it.\<close>

record wait_ans =
  w_err :: int
  w_revents :: u16
  w_status :: u8

partial_function (option) wait_loop :: "virtio_abi \<Rightarrow> (nat \<Rightarrow> wait_ans) \<Rightarrow> nat \<Rightarrow> nat option" where
  "wait_loop abi ans i =
     (if w_err (ans i) < 0 then wait_loop abi ans (Suc i)
      else if w_revents (ans i) \<noteq> 0 \<and> w_status (ans i) AND VIRTIO_CONFIG_S_DRIVER_OK abi \<noteq> 0 then Some i
      else wait_loop abi ans (Suc i))"

definition wait_for_card_driver ::
  "virtio_abi \<Rightarrow> (u64 \<Rightarrow> mic_device_desc) \<Rightarrow> (mic_device_desc \<Rightarrow> nat) \<Rightarrow> mic_info \<Rightarrow> int \<Rightarrow> (nat \<Rightarrow> wait_ans)
    \<Rightarrow> nat option option" where
  "wait_for_card_driver abi at total_size mic type ans =
     (case get_device_desc abi at total_size mic type of
        None \<Rightarrow> None
      | Some None \<Rightarrow> Some None
      | Some (Some d) \<Rightarrow> map_option Some (wait_loop abi ans 0))"

text \<open>
  A ring as the host sees it: its own index, and the index the card has published at each look.
\<close>

record vring_view =
  info_avail_idx :: u16
  ring_avail_idx :: "nat \<Rightarrow> u16"

definition read_avail_idx :: "vring_view \<Rightarrow> u16" where
  "read_avail_idx vr = info_avail_idx vr"

partial_function (option) spin_loop :: "u16 \<Rightarrow> (nat \<Rightarrow> u16) \<Rightarrow> nat \<Rightarrow> nat option" where
  "spin_loop avail_idx look i = (if avail_idx = look i then spin_loop avail_idx look (Suc i) else Some i)"

definition spin_for_descriptors :: "vring_view \<Rightarrow> nat option" where
  "spin_for_descriptors vr = spin_loop (read_avail_idx vr) (ring_avail_idx vr) 0"

text \<open>The lines \<open>disp_iovec\<close> logs: index, address and length.\<close>

definition disp_iovec :: "mic_copy_desc \<Rightarrow> iovec list \<Rightarrow> (nat \<times> u64 \<times> u64) list" where
  "disp_iovec copy iov = map (\<lambda>i. (i, iov_base (iov ! i), iov_len (iov ! i))) [0..<iovcnt copy]"

section \<open>The threads\<close>

text \<open>What the card does during a turn, and the ring the host sends on.\<close>

record card_view =
  cv_wait :: "nat \<Rightarrow> wait_ans"
  cv_tx :: vring_view

text \<open>
  The waits of a turn with the descriptor search of the thread: \<open>None\<close> when one does not end,
  \<open>Some False\<close> for a failed assertion. \<open>sends\<close> says that data for the card was read.
\<close>

definition turn_waits ::
  "virtio_abi \<Rightarrow> nat option option \<Rightarrow> int \<Rightarrow> u8 \<Rightarrow> bool \<Rightarrow> vring_view \<Rightarrow> bool option" where
  "turn_waits abi wait poll_rc stat sends vr =
     (if poll_rc < 0 then Some True
      else case (if stat AND VIRTIO_CONFIG_S_DRIVER_OK abi = 0 then wait else Some (Some 0)) of
        None \<Rightarrow> None
      | Some None \<Rightarrow> Some False
      | Some (Some n) \<Rightarrow> if sends \<and> spin_for_descriptors vr = None then None else Some True)"

definition after_waits :: "bool option \<Rightarrow> 'a option \<Rightarrow> 'a option option" where
  "after_waits w r = (case w of None \<Rightarrow> None | Some False \<Rightarrow> Some None | Some True \<Rightarrow> Some r)"

datatype 's thread_end = Running 's | Asserted | Stuck | Ended

text \<open>The endless loop, given the turns: the actions of each, and how it stands after them.\<close>

fun thread_loop :: "('t \<Rightarrow> 's \<Rightarrow> ('a list \<times> 's) option option) \<Rightarrow> 't list \<Rightarrow> 's \<Rightarrow> 'a list list \<times> 's thread_end" where
  "thread_loop turn [] s = ([], Running s)"
| "thread_loop turn (t # ts) s =
     (case turn t s of
        None \<Rightarrow> ([], Stuck)
      | Some None \<Rightarrow> ([], Asserted)
      | Some (Some (acts, s')) \<Rightarrow> (case thread_loop turn ts s' of (as, r) \<Rightarrow> (acts # as, r)))"

text \<open>The shared page: how a descriptor is read and how long it is.\<close>

type_synonym dev_mem = "(u64 \<Rightarrow> mic_device_desc) \<times> (mic_device_desc \<Rightarrow> nat)"

definition net_turn ::
  "virtio_abi \<Rightarrow> dev_mem \<Rightarrow> mic_info \<Rightarrow> card_view \<times> net_turn_ans \<Rightarrow> net_state \<Rightarrow> (net_act list \<times> net_state) option option" where
  "net_turn abi dm mic vt s =
     (let (v, t) = vt in
      after_waits
        (turn_waits abi (wait_for_card_driver abi (fst dm) (snd dm) mic (VIRTIO_ID_NET abi) (cv_wait v))
           (poll_ans t) (dev_status t) (tun_in t \<and> 0 < readv_ans t) (cv_tx v))
        (virtio_net_turn abi t s))"

definition cons_turn ::
  "virtio_abi \<Rightarrow> dev_mem \<Rightarrow> mic_info \<Rightarrow> card_view \<times> cons_turn_ans \<Rightarrow> cons_state \<Rightarrow> (cons_act list \<times> cons_state) option option" where
  "cons_turn abi dm mic vt s =
     (let (v, t) = vt in
      after_waits
        (turn_waits abi (wait_for_card_driver abi (fst dm) (snd dm) mic (VIRTIO_ID_CONSOLE abi) (cv_wait v))
           (c_poll_ans t) (c_dev_status t) (monitor_in t \<and> 0 < c_readv_ans t) (cv_tx v))
        (virtio_console_turn abi t s))"

text \<open>The loop behind the preparation: first the descriptor of the device is searched.\<close>

definition with_desc :: "u64 option option \<Rightarrow> 'a list list \<times> 's thread_end \<Rightarrow> 'a list list \<times> 's thread_end" where
  "with_desc d r = (case d of None \<Rightarrow> ([], Stuck) | Some None \<Rightarrow> ([], Asserted) | Some (Some a) \<Rightarrow> r)"

definition virtio_net ::
  "virtio_abi \<Rightarrow> (string \<Rightarrow> int \<times> string \<times> sys_res ev list) \<Rightarrow> (string \<Rightarrow> tap_outcome)
    \<Rightarrow> (u64 \<Rightarrow> u64 option) \<Rightarrow> (u64 \<Rightarrow> u32) \<Rightarrow> dev_mem \<Rightarrow> net_state \<Rightarrow> (card_view \<times> net_turn_ans) list \<Rightarrow> mic_info
    \<Rightarrow> net_act list list \<times> net_state thread_end" where
  "virtio_net abi tun tap map_ans magic dm s0 turns mic =
     (case virtio_net_start abi tun tap map_ans magic mic of
        None \<Rightarrow> ([], Asserted)
      | Some (None, mic1, tr) \<Rightarrow> ([], Ended)
      | Some (Some vrs, mic1, tr) \<Rightarrow>
          with_desc (get_device_desc abi (fst dm) (snd dm) mic1 (VIRTIO_ID_NET abi))
            (thread_loop (net_turn abi dm mic1) turns s0))"

definition virtio_console ::
  "virtio_abi \<Rightarrow> cons_start_ans \<Rightarrow> (u64 \<Rightarrow> u64 option) \<Rightarrow> (u64 \<Rightarrow> u32) \<Rightarrow> dev_mem \<Rightarrow> cons_state
    \<Rightarrow> (card_view \<times> cons_turn_ans) list \<Rightarrow> mic_info \<Rightarrow> cons_act list list \<times> cons_state thread_end" where
  "virtio_console abi ans map_ans magic dm s0 turns mic =
     (case virtio_console_start abi ans map_ans magic mic of
        None \<Rightarrow> ([], Asserted)
      | Some (None, tr) \<Rightarrow> ([], Ended)
      | Some (Some (vrs, mic1), tr) \<Rightarrow>
          with_desc (get_device_desc abi (fst dm) (snd dm) mic1 (VIRTIO_ID_CONSOLE abi))
            (thread_loop (cons_turn abi dm mic1) turns s0))"

section \<open>When the waits end\<close>

definition announced :: "virtio_abi \<Rightarrow> wait_ans \<Rightarrow> bool" where
  "announced abi a \<longleftrightarrow> 0 \<le> w_err a \<and> w_revents a \<noteq> 0 \<and> w_status a AND VIRTIO_CONFIG_S_DRIVER_OK abi \<noteq> 0"

text \<open>Searches that go on until something holds return its first occurrence, and only then.\<close>

lemma search_first:
  assumes step: "\<And>i. loop i = (if P i then Some i else loop (Suc i))" and "P k" and "i \<le> k"
  shows "\<exists>j. loop i = Some j \<and> i \<le> j \<and> j \<le> k \<and> P j"
  using assms(3)
proof (induction "k - i" arbitrary: i)
  case 0
  then have "i = k" by simp
  with assms(2) step [of i] show ?case by auto
next
  case (Suc n)
  show ?case
  proof (cases "P i")
    case True
    with step [of i] Suc.prems show ?thesis by auto
  next
    case False
    from Suc.hyps(2) have "n = k - Suc i" "Suc i \<le> k" by auto
    from Suc.hyps(1) [OF this] obtain j where "loop (Suc i) = Some j" "Suc i \<le> j" "j \<le> k" "P j" by blast
    with False step [of i] show ?thesis by auto
  qed
qed

lemma wait_loop_first: "announced abi (ans k) \<Longrightarrow> i \<le> k \<Longrightarrow> \<exists>j. wait_loop abi ans i = Some j \<and> i \<le> j \<and> j \<le> k \<and> announced abi (ans j)"
  by (rule search_first [where P = "\<lambda>i. announced abi (ans i)"])
    (auto simp: wait_loop.simps [of abi ans] announced_def not_less)

lemma spin_loop_first: "look k \<noteq> a \<Longrightarrow> i \<le> k \<Longrightarrow> \<exists>j. spin_loop a look i = Some j \<and> i \<le> j \<and> j \<le> k \<and> look j \<noteq> a"
  by (rule search_first [where P = "\<lambda>i. look i \<noteq> a"]) (auto simp: spin_loop.simps [of a look])

lemma wait_loop_announced: "wait_loop abi ans i = Some j \<Longrightarrow> announced abi (ans j)"
  by (rule wait_loop.raw_induct [where P = "\<lambda>abi ans i j. announced abi (ans j)", rotated])
    (auto simp: announced_def not_less split: if_splits)

lemma spin_loop_descriptor: "spin_loop a look i = Some j \<Longrightarrow> look j \<noteq> a"
  by (rule spin_loop.raw_induct [where P = "\<lambda>a look i j. look j \<noteq> a", rotated]) (auto split: if_splits)

definition driver_seen :: "virtio_abi \<Rightarrow> card_view \<Rightarrow> u8 \<Rightarrow> bool" where
  "driver_seen abi v stat \<longleftrightarrow> stat AND VIRTIO_CONFIG_S_DRIVER_OK abi \<noteq> 0 \<or> (\<exists>i. announced abi (cv_wait v i))"

definition descriptor_seen :: "card_view \<Rightarrow> bool" where
  "descriptor_seen v \<longleftrightarrow> (\<exists>i. ring_avail_idx (cv_tx v) i \<noteq> info_avail_idx (cv_tx v))"

abbreviation desc_found :: "virtio_abi \<Rightarrow> dev_mem \<Rightarrow> mic_info \<Rightarrow> int \<Rightarrow> bool" where
  "desc_found abi dm mic type \<equiv> \<exists>d. get_device_desc abi (fst dm) (snd dm) mic type = Some (Some d)"

lemma spin_returns_iff: "spin_for_descriptors (cv_tx v) \<noteq> None \<longleftrightarrow> descriptor_seen v"
proof -
  have "\<exists>j. spin_loop (info_avail_idx (cv_tx v)) (ring_avail_idx (cv_tx v)) 0 = Some j"
    if "ring_avail_idx (cv_tx v) i \<noteq> info_avail_idx (cv_tx v)" for i
    using spin_loop_first [where look = "ring_avail_idx (cv_tx v)" and k = i and i = 0, OF that] by auto
  then show ?thesis
    by (auto simp: spin_for_descriptors_def read_avail_idx_def descriptor_seen_def dest: spin_loop_descriptor)
qed

lemma wait_returns_iff:
  assumes "desc_found abi dm mic type"
  shows "(\<exists>n. wait_for_card_driver abi (fst dm) (snd dm) mic type ans = Some (Some n)) \<longleftrightarrow> (\<exists>i. announced abi (ans i))"
    and "wait_for_card_driver abi (fst dm) (snd dm) mic type ans \<noteq> Some None"
proof -
  have "\<exists>j. wait_loop abi ans 0 = Some j" if "announced abi (ans i)" for i
    using wait_loop_first [where ans = ans and k = i and i = 0, OF that] by auto
  moreover have "\<exists>i. announced abi (ans i)" if "wait_loop abi ans 0 = Some n" for n
    using wait_loop_announced [OF that] by blast
  ultimately show "(\<exists>n. wait_for_card_driver abi (fst dm) (snd dm) mic type ans = Some (Some n)) \<longleftrightarrow> (\<exists>i. announced abi (ans i))"
    using assms by (auto simp: wait_for_card_driver_def)
  from assms show "wait_for_card_driver abi (fst dm) (snd dm) mic type ans \<noteq> Some None"
    by (auto simp: wait_for_card_driver_def)
qed

text \<open>A turn goes on after its waits only when what it waited for has happened, and always then.\<close>

lemma waits_seen:
  assumes "turn_waits abi (wait_for_card_driver abi (fst dm) (snd dm) mic type (cv_wait v)) rc stat sends (cv_tx v) = Some True"
    and "0 \<le> rc"
  shows "driver_seen abi v stat \<and> (sends \<longrightarrow> descriptor_seen v)"
proof -
  have w: "wait_for_card_driver abi (fst dm) (snd dm) mic type (cv_wait v) = Some (Some n) \<Longrightarrow> announced abi (cv_wait v n)" for n
    by (auto simp: wait_for_card_driver_def dest: wait_loop_announced split: option.splits)
  show ?thesis
    using assms spin_returns_iff [of v]
    by (auto simp: turn_waits_def driver_seen_def dest: w split: option.splits if_splits)
qed

lemma waits_end:
  assumes "desc_found abi dm mic type" and "driver_seen abi v stat" and "descriptor_seen v"
  shows "turn_waits abi (wait_for_card_driver abi (fst dm) (snd dm) mic type (cv_wait v)) rc stat sends (cv_tx v) = Some True"
proof -
  have "spin_for_descriptors (cv_tx v) \<noteq> None" using assms(3) spin_returns_iff by simp
  moreover have "\<exists>n. wait_for_card_driver abi (fst dm) (snd dm) mic type (cv_wait v) = Some (Some n)"
    if "stat AND VIRTIO_CONFIG_S_DRIVER_OK abi = 0"
    using that assms(2) wait_returns_iff(1) [OF assms(1)] by (simp add: driver_seen_def)
  ultimately show ?thesis by (auto simp: turn_waits_def)
qed

lemma after_waits_Some: "after_waits w r = Some (Some x) \<longleftrightarrow> w = Some True \<and> r = Some x"
  by (auto simp: after_waits_def split: option.splits bool.splits)

section \<open>Loops of turns\<close>

text \<open>
  A thread whose turns keep an invariant and are good, and which finishes every turn in which its
  partner is fair to it.
\<close>

locale turn_machine =
  fixes turn :: "'t \<Rightarrow> 's \<Rightarrow> ('a list \<times> 's) option option"
    and inv :: "'s \<Rightarrow> bool"
    and good :: "'t \<Rightarrow> 'a list \<Rightarrow> bool"
    and fair :: "'t \<Rightarrow> bool"
  assumes turn_good: "inv s \<Longrightarrow> turn t s = Some (Some (acts, s')) \<Longrightarrow> inv s' \<and> good t acts"
    and turn_goes: "inv s \<Longrightarrow> fair t \<Longrightarrow> \<exists>acts s'. turn t s = Some (Some (acts, s'))"
begin

lemma loop_good:
  "thread_loop turn ts s = (as, r) \<Longrightarrow> inv s \<Longrightarrow> length as \<le> length ts \<and> list_all2 good (take (length as) ts) as"
proof (induction ts arbitrary: s as)
  case (Cons t ts)
  then show ?case
    using turn_good by (fastforce split: option.splits prod.splits)
qed auto

lemma loop_goes:
  "list_all fair ts \<Longrightarrow> inv s \<Longrightarrow> \<exists>as s'. thread_loop turn ts s = (as, Running s') \<and> inv s' \<and> list_all2 good ts as"
proof (induction ts arbitrary: s)
  case (Cons t ts)
  then obtain acts s1 where t: "turn t s = Some (Some (acts, s1))" using turn_goes [of s t] by auto
  with Cons.prems turn_good have "inv s1" "good t acts" by auto
  with Cons.IH [of s1] Cons.prems t show ?case by auto
qed simp

end

definition net_good :: "virtio_abi \<Rightarrow> card_view \<times> net_turn_ans \<Rightarrow> net_act list \<Rightarrow> bool" where
  "net_good abi vt acts \<longleftrightarrow> (case vt of (v, t) \<Rightarrow>
     list_all (net_act_ok abi t) acts \<and> (acts \<noteq> [] \<longrightarrow> driver_seen abi v (dev_status t))
     \<and> ((\<exists>ls. CopyTx ls \<in> set acts) \<longrightarrow> descriptor_seen v))"

definition net_fair :: "virtio_abi \<Rightarrow> dev_mem \<Rightarrow> mic_info \<Rightarrow> card_view \<times> net_turn_ans \<Rightarrow> bool" where
  "net_fair abi dm mic vt \<longleftrightarrow> (case vt of (v, t) \<Rightarrow>
     desc_found abi dm mic (VIRTIO_ID_NET abi) \<and> driver_seen abi v (dev_status t) \<and> descriptor_seen v
     \<and> readv_ans t < 2 ^ 63 \<and> (fst (tx_ans t) = 0 \<longrightarrow> uint (snd (tx_ans t)) = readv_ans t))"

lemma net_rx_no_tx: "net_rx abi ans s = Some (acts, s') \<Longrightarrow> CopyTx ls \<notin> set acts"
proof (induction ans arbitrary: s acts)
  case (Cons a ans)
  then show ?case by (cases a) (fastforce simp: Let_def split: prod.splits if_splits option.splits)
qed simp

lemma net_turn_copies:
  assumes "virtio_net_turn abi t s = Some (acts, s')"
  shows "(acts \<noteq> [] \<longrightarrow> 0 \<le> poll_ans t) \<and> (CopyTx ls \<in> set acts \<longrightarrow> tun_in t \<and> 0 < readv_ans t)"
  using assms
  by (auto simp: virtio_net_turn_def net_tx_def Let_def dest: net_rx_no_tx [of _ _ _ _ _ ls]
      split: if_splits option.splits prod.splits)

interpretation nett: turn_machine "net_turn abi dm mic" "net_inv abi" "net_good abi" "net_fair abi dm mic" for abi dm mic
proof
  fix s s' acts and vt :: "card_view \<times> net_turn_ans"
  obtain v t where vt: "vt = (v, t)" by (cases vt)
  assume i: "net_inv abi s"
  show "net_inv abi s' \<and> net_good abi vt acts" if "net_turn abi dm mic vt s = Some (Some (acts, s'))"
  proof -
    from that vt have w: "virtio_net_turn abi t s = Some (acts, s')"
      "turn_waits abi (wait_for_card_driver abi (fst dm) (snd dm) mic (VIRTIO_ID_NET abi) (cv_wait v))
        (poll_ans t) (dev_status t) (tun_in t \<and> 0 < readv_ans t) (cv_tx v) = Some True"
      by (simp_all add: net_turn_def after_waits_Some)
    have n: "descriptor_seen v" if "CopyTx ls \<in> set acts" for ls
      using net_turn_copies [OF w(1), of ls] waits_seen [OF w(2)] that by auto
    from virtio_net_turn_ok [OF i w(1)] net_turn_copies [OF w(1)] waits_seen [OF w(2)]
    show ?thesis by (auto simp: net_good_def vt dest: n)
  qed
  show "\<exists>acts s'. net_turn abi dm mic vt s = Some (Some (acts, s'))" if "net_fair abi dm mic vt"
  proof -
    from that have f: "turn_waits abi (wait_for_card_driver abi (fst dm) (snd dm) mic (VIRTIO_ID_NET abi) (cv_wait v))
        (poll_ans t) (dev_status t) (tun_in t \<and> 0 < readv_ans t) (cv_tx v) = Some True"
      "readv_ans t < 2 ^ 63" "fst (tx_ans t) = 0 \<longrightarrow> uint (snd (tx_ans t)) = readv_ans t"
      by (auto simp: net_fair_def vt intro: waits_end)
    from virtio_net_turn_aborts_iff [OF i f(2)] f(3) obtain r where "virtio_net_turn abi t s = Some r"
      by (cases "virtio_net_turn abi t s") auto
    with f(1) show ?thesis by (cases r) (simp add: net_turn_def vt after_waits_Some)
  qed
qed

text \<open>The console thread.\<close>

definition cons_good :: "virtio_abi \<Rightarrow> card_view \<times> cons_turn_ans \<Rightarrow> cons_act list \<Rightarrow> bool" where
  "cons_good abi vt acts \<longleftrightarrow> (case vt of (v, t) \<Rightarrow>
     list_all (cons_act_ok t) acts \<and> (acts \<noteq> [] \<longrightarrow> driver_seen abi v (c_dev_status t))
     \<and> ((\<exists>ls. CCopyTx ls \<in> set acts) \<longrightarrow> descriptor_seen v))"

definition cons_fair :: "virtio_abi \<Rightarrow> dev_mem \<Rightarrow> mic_info \<Rightarrow> card_view \<times> cons_turn_ans \<Rightarrow> bool" where
  "cons_fair abi dm mic vt \<longleftrightarrow> (case vt of (v, t) \<Rightarrow>
     desc_found abi dm mic (VIRTIO_ID_CONSOLE abi) \<and> driver_seen abi v (c_dev_status t) \<and> descriptor_seen v
     \<and> c_readv_ans t < 2 ^ 63 \<and> (fst (c_tx_ans t) = 0 \<longrightarrow> uint (snd (c_tx_ans t)) = c_readv_ans t))"

lemma cons_rx_no_tx: "cons_rx abi ans s = Some (acts, s') \<Longrightarrow> CCopyTx ls \<notin> set acts"
proof (induction ans arbitrary: s acts)
  case (Cons a ans)
  then show ?case by (cases a) (fastforce simp: Let_def split: prod.splits if_splits option.splits)
qed simp

lemma cons_turn_copies:
  assumes "virtio_console_turn abi t s = Some (acts, s')"
  shows "(acts \<noteq> [] \<longrightarrow> 0 \<le> c_poll_ans t) \<and> (CCopyTx ls \<in> set acts \<longrightarrow> monitor_in t \<and> 0 < c_readv_ans t)"
  using assms
  by (auto simp: virtio_console_turn_def cons_tx_def Let_def dest: cons_rx_no_tx [of _ _ _ _ _ ls]
      split: if_splits option.splits prod.splits)

lemma cons_turn_returns:
  assumes "cons_inv s" and "VIRTIO_ID_CONSOLE abi \<noteq> VIRTIO_ID_NET abi" and "c_readv_ans t < 2 ^ 63"
    and "fst (c_tx_ans t) = 0 \<longrightarrow> uint (snd (c_tx_ans t)) = c_readv_ans t"
  shows "\<exists>r. virtio_console_turn abi t s = Some r"
proof -
  obtain copy1 iov where p: "txrx_prepare abi (VIRTIO_ID_CONSOLE abi) True (ccopy s) (c_iov0 s) (c_readv_ans t)
      = (copy1, iov)" by (metis surj_pair)
  have l: "lens iov = [word_of_int (c_readv_ans t)]" "iovcnt copy1 = 1"
    using txrx_prepare_cons [OF _ assms(2) p] assms(1) by (auto simp: cons_inv_def)
  have "verify_out_len (copy1\<lparr>out_len := snd (c_tx_ans t)\<rparr>) iov"
    if "0 < c_readv_ans t" "fst (c_tx_ans t) = 0"
    using that assms(3,4) sum_one [OF l(1), of "copy1\<lparr>out_len := snd (c_tx_ans t)\<rparr>"] l(2)
    by (simp add: verify_out_len_def sint_ssize)
  then have "cons_tx abi t s \<noteq> None"
    using p by (auto simp: cons_tx_def mic_virtio_copy_def Let_def)
  then obtain a1 s1 where tx: "cons_tx abi t s = Some (a1, s1)" by auto
  have rx: "\<exists>a2 s2. cons_rx abi (c_rx_ans t) u = Some (a2, s2)" if "cons_inv u" for u
    using cons_rx_ok [OF that assms(2), of "c_rx_ans t" t] by auto
  have "cons_inv s1" using cons_tx_ok [OF assms(1,2) tx] by simp
  with tx rx [of s1] rx [OF assms(1)] show ?thesis by (auto simp: virtio_console_turn_def Let_def)
qed

interpretation const: turn_machine "cons_turn abi dm mic"
  "\<lambda>s. cons_inv s \<and> VIRTIO_ID_CONSOLE abi \<noteq> VIRTIO_ID_NET abi" "cons_good abi" "cons_fair abi dm mic" for abi dm mic
proof
  fix s s' acts and vt :: "card_view \<times> cons_turn_ans"
  obtain v t where vt: "vt = (v, t)" by (cases vt)
  assume i: "cons_inv s \<and> VIRTIO_ID_CONSOLE abi \<noteq> VIRTIO_ID_NET abi"
  show "(cons_inv s' \<and> VIRTIO_ID_CONSOLE abi \<noteq> VIRTIO_ID_NET abi) \<and> cons_good abi vt acts"
    if "cons_turn abi dm mic vt s = Some (Some (acts, s'))"
  proof -
    from that vt have w: "virtio_console_turn abi t s = Some (acts, s')"
      "turn_waits abi (wait_for_card_driver abi (fst dm) (snd dm) mic (VIRTIO_ID_CONSOLE abi) (cv_wait v))
        (c_poll_ans t) (c_dev_status t) (monitor_in t \<and> 0 < c_readv_ans t) (cv_tx v) = Some True"
      by (simp_all add: cons_turn_def after_waits_Some)
    have n: "descriptor_seen v" if "CCopyTx ls \<in> set acts" for ls
      using cons_turn_copies [OF w(1), of ls] waits_seen [OF w(2)] that by auto
    from virtio_console_turn_ok [OF _ _ w(1)] i cons_turn_copies [OF w(1)] waits_seen [OF w(2)]
    show ?thesis by (auto simp: cons_good_def vt dest: n)
  qed
  show "\<exists>acts s'. cons_turn abi dm mic vt s = Some (Some (acts, s'))" if "cons_fair abi dm mic vt"
  proof -
    from that have f: "turn_waits abi (wait_for_card_driver abi (fst dm) (snd dm) mic (VIRTIO_ID_CONSOLE abi) (cv_wait v))
        (c_poll_ans t) (c_dev_status t) (monitor_in t \<and> 0 < c_readv_ans t) (cv_tx v) = Some True"
      "c_readv_ans t < 2 ^ 63" "fst (c_tx_ans t) = 0 \<longrightarrow> uint (snd (c_tx_ans t)) = c_readv_ans t"
      by (auto simp: cons_fair_def vt intro: waits_end)
    from cons_turn_returns [OF _ _ f(2,3)] i obtain r where "virtio_console_turn abi t s = Some r" by blast
    with f(1) show ?thesis by (cases r) (simp add: cons_turn_def vt after_waits_Some)
  qed
qed

section \<open>The threads from start to loop\<close>

lemma thread_loop_not_ended: "thread_loop turn ts s \<noteq> (as, Ended)"
  by (induction ts arbitrary: s as) (auto split: option.splits prod.splits)

text \<open>
  The network thread never copies before the card's driver has announced itself, whatever the
  card and the kernel do, and it ends only when its preparation fails.
\<close>

lemma virtio_net_safe:
  assumes "virtio_net abi tun tap map_ans magic dm (net_init abi h0 b0 h1 b1 copy) turns mic = (as, r)"
  shows "list_all2 (net_good abi) (take (length as) turns) as"
    and "r = Ended \<Longrightarrow> \<exists>mic1 tr. virtio_net_start abi tun tap map_ans magic mic = Some (None, mic1, tr)"
proof -
  have l: "thread_loop (net_turn abi dm m) turns (net_init abi h0 b0 h1 b1 copy) = (as', r') \<Longrightarrow>
      list_all2 (net_good abi) (take (length as') turns) as'" for m as' r'
    using nett.loop_good [of abi dm m turns "net_init abi h0 b0 h1 b1 copy"] net_init_inv by blast
  show "list_all2 (net_good abi) (take (length as) turns) as"
    using assms by (auto simp: virtio_net_def with_desc_def dest: l split: option.splits)
  show "\<exists>mic1 tr. virtio_net_start abi tun tap map_ans magic mic = Some (None, mic1, tr)" if "r = Ended"
    using assms that by (auto simp: virtio_net_def with_desc_def thread_loop_not_ended split: option.splits)
qed


text \<open>A card whose driver is announced at the third poll and that offers a descriptor at the fourth look.\<close>

definition sample_view :: card_view where
  "sample_view = \<lparr>cv_wait = (\<lambda>i. \<lparr>w_err = (if i = 0 then -1 else 1), w_revents = 1, w_status = (if i < 2 then 3 else 7)\<rparr>),
     cv_tx = \<lparr>info_avail_idx = 7, ring_avail_idx = (\<lambda>i. if i < 3 then 7 else 8)\<rparr>\<rparr>"

definition sample_mem :: dev_mem where
  "sample_mem = ((\<lambda>a. if a = 0x10040 then dd (virtnet_dev_page sample_abi)
       else (dd (virtnet_dev_page sample_abi))\<lparr>dtype := 0\<rparr>), (\<lambda>d. 40))"

abbreviation sample_magic :: "u64 \<Rightarrow> u32" where
  "sample_magic \<equiv> \<lambda>p. if p = 0x13406 then 0xc0ffee01 else 0xc0ffee02"

definition waiting_turn :: net_turn_ans where
  "waiting_turn = sample_turn\<lparr>dev_status := 3\<rparr>"


text \<open>The same for the console thread.\<close>

lemma cons_init_inv: "cons_inv (cons_init b0 b1 copy)"
  by (simp add: cons_inv_def cons_init_def lens_def MIC_PAGE_SIZE_def)

lemma virtio_console_runs:
  assumes "VIRTIO_ID_CONSOLE abi \<noteq> VIRTIO_ID_NET abi"
    and "virtio_console_start abi ans map_ans magic mic = Some (Some (vrs, mic1), tr)"
    and "\<exists>d. get_device_desc abi (fst dm) (snd dm) mic1 (VIRTIO_ID_CONSOLE abi) = Some (Some d)"
    and "list_all (cons_fair abi dm mic1) turns"
  shows "\<exists>as s. virtio_console abi ans map_ans magic dm (cons_init b0 b1 copy) turns mic = (as, Running s)
    \<and> list_all2 (cons_good abi) turns as"
proof -
  from const.loop_goes [OF assms(4), of "cons_init b0 b1 copy"] cons_init_inv assms(1) obtain as s where
    "thread_loop (cons_turn abi dm mic1) turns (cons_init b0 b1 copy) = (as, Running s)"
    "list_all2 (cons_good abi) turns as" by blast
  with assms(2,3) show ?thesis by (auto simp: virtio_console_def with_desc_def)
qed

end
