(* ===== verification/Mpss_Block.thy ===== *)
theory Mpss_Block
  imports Mpss_Virtio
begin

unbundle bit_operations_syntax

text \<open>
  Model of the block thread of \<open>src/Documentation/mic/mpssd/mpssd.c\<close>: the backend file and
  its configuration, the virtio block device, the processing of one request from the ring, and
  a whole session from opening to closing the backend. The ring is a function from indices to
  descriptors, \<open>None\<close> outside it; the walk along a chain is a partial function, and its
  result \<open>None\<close> is a chain that does not end, leaves the ring or overruns the array of
  I/O vectors. Resources of a session are traced.
\<close>

section \<open>The backend\<close>

datatype blk_res = BConf | BFile | BFd int | BMap | BDev int | BDp | BIovec

definition mic_config_dir :: string where "mic_config_dir = ''/etc/sysconfig/mic''"
definition virtblk_backend :: string where "virtblk_backend = ''VIRTBLK_BACKEND''"
definition SECTOR_SIZE :: nat where "SECTOR_SIZE = 512"

text \<open>\<open>%03d\<close> for a card number.\<close>

definition show_03d :: "int \<Rightarrow> string" where
  "show_03d i = (let s = show_int i in replicate (3 - length s) (CHR ''0'') @ s)"

definition backend_conf_path :: "int \<Rightarrow> string" where
  "backend_conf_path i = snprintf PATH_MAX (mic_config_dir @ ''/mpssd'' @ show_03d i @ ''.conf'')"

text \<open>
  The loop over the lines \<open>fgets\<close> returns: comment lines are skipped, the line end is cut
  off, and the first line that begins with the key ends the loop.
\<close>

definition cut_newline :: "string \<Rightarrow> string" where
  "cut_newline l = takeWhile (\<lambda>c. c \<noteq> newline) l"

fun backend_line :: "string list \<Rightarrow> string option" where
  "backend_line [] = None"
| "backend_line (l # ls) =
     (let l' = (if l \<noteq> [] \<and> hd l = CHR ''#'' then l else cut_newline l) in
      if take (length virtblk_backend) l' = virtblk_backend then Some l' else backend_line ls)"

text \<open>\<open>set_backend_file\<close>, given the lines of the file (if it can be opened) and \<open>malloc\<close>.\<close>

definition set_backend_file ::
  "(string \<Rightarrow> string list option) \<Rightarrow> bool \<Rightarrow> mic_info \<Rightarrow> bool \<times> mic_info \<times> blk_res ev list" where
  "set_backend_file conf malloc_ok mic =
     (case conf (backend_conf_path (mic_id mic)) of
        None \<Rightarrow> (False, mic, [])
      | Some ls \<Rightarrow>
          (case backend_line ls of
             None \<Rightarrow> (False, mic, [Acq BConf, Rel BConf])
           | Some line \<Rightarrow>
               (case dropWhile (\<lambda>c. c \<noteq> CHR ''='') line of
                  [] \<Rightarrow> (False, mic, [Acq BConf, Rel BConf])
                | evv # val \<Rightarrow>
                    if \<not> malloc_ok then
                      (False, mic\<lparr>mic_virtblk := (mic_virtblk mic)\<lparr>backend_file := []\<rparr>\<rparr>, [Acq BConf, Rel BConf])
                    else (True, mic\<lparr>mic_virtblk := (mic_virtblk mic)\<lparr>backend_file := val\<rparr>\<rparr>,
                          [Acq BConf, Rel BConf, Acq BFile]))))"

definition set_backend_size :: "int \<Rightarrow> mic_info \<Rightarrow> virtblk_page \<Rightarrow> bool \<times> mic_info \<times> virtblk_page" where
  "set_backend_size lseek_rc mic page =
     (let mic1 = mic\<lparr>mic_virtblk := (mic_virtblk mic)\<lparr>backend_size := lseek_rc\<rparr>\<rparr> in
      if lseek_rc < 0 then (False, mic1, page)
      else
        let c = (word_of_int (lseek_rc div int SECTOR_SIZE) :: u64) in
        (True, mic1,
         page\<lparr>capacity := (if lseek_rc mod int SECTOR_SIZE \<noteq> 0 then c + 1 else c)\<rparr>))"

record backend_ans =
  b_conf :: "string \<Rightarrow> string list option"
  b_malloc :: bool
  b_open :: "string \<Rightarrow> int"
  b_lseek :: int
  b_mmap :: "u64 option"

definition open_backend ::
  "backend_ans \<Rightarrow> mic_info \<times> virtblk_page \<Rightarrow> bool \<times> (mic_info \<times> virtblk_page) \<times> blk_res ev list" where
  "open_backend ans st =
     (case st of (mic, page) \<Rightarrow>
        let (ok1, mic1, tr1) = set_backend_file (b_conf ans) (b_malloc ans) mic in
        if \<not> ok1 then (False, (mic1, page), tr1)
        else
          let fd = b_open ans (backend_file (mic_virtblk mic1));
              mic2 = mic1\<lparr>mic_virtblk := (mic_virtblk mic1)\<lparr>backend := fd\<rparr>\<rparr>
          in if fd < 0 then (False, (mic2, page), tr1 @ [Rel BFile])
             else
               let (ok3, mic3, page3) = set_backend_size (b_lseek ans) mic2 page in
               if \<not> ok3 then (False, (mic3, page3), tr1 @ [Acq (BFd fd), Rel (BFd fd), Rel BFile])
               else (case b_mmap ans of
                  None \<Rightarrow> (False, (mic3, page3), tr1 @ [Acq (BFd fd), Rel (BFd fd), Rel BFile])
                | Some a \<Rightarrow>
                    (True, (mic3\<lparr>mic_virtblk := (mic_virtblk mic3)\<lparr>backend_addr := a\<rparr>\<rparr>, page3),
                     tr1 @ [Acq (BFd fd), Acq BMap])))"

definition close_backend :: "mic_info \<times> virtblk_page \<Rightarrow> (mic_info \<times> virtblk_page) \<times> blk_res ev list" where
  "close_backend st =
     (st, [Rel BMap, Rel (BFd (backend (mic_virtblk (fst st)))), Rel BFile])"

section \<open>The device\<close>

record virtblk_ans =
  v_aligned :: bool
  v_open :: "string \<Rightarrow> int"
  v_ioctl :: "mic_device_desc \<Rightarrow> int"
  v_map :: "u64 \<Rightarrow> u64 option"
  v_magic :: "u64 \<Rightarrow> u32"
  v_iovec :: bool

text \<open>The resources of \<open>add_virtio_device\<close> in a session of the block thread.\<close>

fun dev_ev :: "sys_res ev \<Rightarrow> blk_res ev" where
  "dev_ev (Acq (SysFd n)) = Acq (BDev n)"
| "dev_ev (Rel (SysFd n)) = Rel (BDev n)"
| "dev_ev (Acq SysMem) = Acq BConf"
| "dev_ev (Rel SysMem) = Rel BConf"

text \<open>\<open>start_virtblk\<close>: success, the ring, the card and the trace; \<open>None\<close> is a failed assertion.\<close>

definition start_virtblk ::
  "virtio_abi \<Rightarrow> virtblk_ans \<Rightarrow> virtblk_page \<Rightarrow> mic_info
    \<Rightarrow> (bool \<times> mic_vring list \<times> mic_info \<times> blk_res ev list) option" where
  "start_virtblk abi ans page mic =
     (if \<not> v_aligned ans then Some (False, [], mic, [])
      else
        let (mic1, tr) = add_virtio_device abi (v_open ans) (v_ioctl ans) (dd page) mic in
        case init_vr abi (v_map ans) (v_magic ans) (VIRTIO_ID_BLOCK abi) False
               (num_vq (dd page)) mic1 of
          None \<Rightarrow> None
        | Some (None, vrs, mic2) \<Rightarrow> Some (False, [], mic2, map dev_ev tr)
        | Some (Some a, vrs, mic2) \<Rightarrow> Some (True, vrs, mic2, map dev_ev tr @ [Acq BDp]))"

definition stop_virtblk :: "mic_info \<Rightarrow> blk_res ev list" where
  "stop_virtblk mic = [Rel BDp, Rel (BDev (virtio_block_fd (mic_virtblk mic)))]"

section \<open>One request\<close>

definition EIO :: u8 where "EIO = 5"
definition ENOTSUP :: u8 where "ENOTSUP = 95"

definition header_error_check :: "virtio_abi \<Rightarrow> vring_desc \<Rightarrow> u8" where
  "header_error_check abi desc =
     (if vd_len desc \<noteq> sizeof_blk_outhdr abi then - EIO
      else if vd_flags desc AND VRING_DESC_F_NEXT abi = 0 then - EIO
      else if vd_flags desc AND VRING_DESC_F_WRITE abi \<noteq> 0 then - EIO
      else 0)"

definition status_error_check :: "vring_desc \<Rightarrow> u8" where
  "status_error_check desc = (if vd_len desc \<noteq> 1 then - EIO else 0)"

text \<open>The copy descriptors handed to the kernel: one ring, the used index only with the status.\<close>

definition read_header_copy :: mic_copy_desc where
  "read_header_copy = \<lparr>iovcnt = 1, vr_idx = 0, update_used = False, out_len = 0\<rparr>"

definition transfer_blocks_copy :: "nat \<Rightarrow> mic_copy_desc" where
  "transfer_blocks_copy n = \<lparr>iovcnt = n, vr_idx = 0, update_used = False, out_len = 0\<rparr>"

definition write_status_copy :: mic_copy_desc where
  "write_status_copy = \<lparr>iovcnt = 1, vr_idx = 0, update_used = True, out_len = 0\<rparr>"

record blk_outhdr =
  htype :: u32
  sector :: u64

text \<open>
  The walk over the buffer elements of a request: the I/O vectors for the backend and the
  descriptor it stops at, the status element.
\<close>

partial_function (option) blk_walk ::
  "virtio_abi \<Rightarrow> (u32 \<Rightarrow> vring_desc option) \<Rightarrow> nat \<Rightarrow> u32 \<Rightarrow> u64 \<Rightarrow> iovec list
    \<Rightarrow> (iovec list \<times> vring_desc) option" where
  "blk_walk abi ring room i fos acc =
     (case ring i of
        None \<Rightarrow> None
      | Some d \<Rightarrow>
          if vd_flags d AND VRING_DESC_F_NEXT abi \<noteq> 0 then
            (if length acc < room then
               blk_walk abi ring room (next_desc abi d) (fos + ucast (vd_len d))
                 (acc @ [\<lparr>iov_base = fos, iov_len = ucast (vd_len d)\<rparr>])
             else None)
          else Some (acc, d))"

datatype blk_outcome =
    BlkBreak
  | BlkDone "iovec list option" u8

record blk_ans =
  q_header :: "int \<times> blk_outhdr"
  q_transfer :: int

definition blk_request ::
  "virtio_abi \<Rightarrow> (u32 \<Rightarrow> vring_desc option) \<Rightarrow> virtblk_page \<Rightarrow> mic_info \<Rightarrow> blk_ans \<Rightarrow> u16
    \<Rightarrow> blk_outcome option" where
  "blk_request abi ring page mic ans head =
     (case ring (ucast head) of
        None \<Rightarrow> None
      | Some desc \<Rightarrow>
          let (ret, hdr) = q_header ans;
              header_status = header_error_check abi desc
          in if ret < 0 then Some BlkBreak
          else
            (case blk_walk abi ring (unat (seg_max page)) (next_desc abi desc)
                    (backend_addr (mic_virtblk mic) + sector hdr * of_nat SECTOR_SIZE) [] of
               None \<Rightarrow> None
             | Some (iov, d) \<Rightarrow>
                 let unsupported = (htype hdr AND NOT (VIRTIO_BLK_T_OUT abi OR VIRTIO_BLK_T_GET_ID abi) \<noteq> 0);
                     status0 = (0 :: u8);
                     status1 = (if unsupported then - ENOTSUP
                                else if q_transfer ans < 0 \<and> status0 \<noteq> 0 then word_of_int (q_transfer ans)
                                else status0);
                     status2 = (if status1 \<noteq> 0 then status_error_check d else status1)
                 in Some (BlkDone (if unsupported then None else Some iov) status2)))"

text \<open>
  The header's status is computed before the header is read and then set to 0, as in the code.
\<close>

text \<open>The requests pending in one wake-up, by their head indices; a failed header read ends it.\<close>

fun blk_requests ::
  "virtio_abi \<Rightarrow> (u32 \<Rightarrow> vring_desc option) \<Rightarrow> virtblk_page \<Rightarrow> mic_info \<Rightarrow> (u16 \<times> blk_ans) list
    \<Rightarrow> blk_outcome list option" where
  "blk_requests abi ring page mic [] = Some []"
| "blk_requests abi ring page mic ((head, ans) # rs) =
     (case blk_request abi ring page mic ans head of
        None \<Rightarrow> None
      | Some BlkBreak \<Rightarrow> Some [BlkBreak]
      | Some r \<Rightarrow> map_option ((#) r) (blk_requests abi ring page mic rs))"

text \<open>
  One round of the thread's endless loop: \<open>reqs\<close> are the requests of its wake-ups until it
  is signalled. The result is the outcomes, the card and the trace.
\<close>

definition virtio_block_round ::
  "virtio_abi \<Rightarrow> backend_ans \<Rightarrow> virtblk_ans \<Rightarrow> (u32 \<Rightarrow> vring_desc option) \<Rightarrow> (u16 \<times> blk_ans) list
    \<Rightarrow> mic_info \<Rightarrow> virtblk_page \<Rightarrow> (blk_outcome list \<times> mic_info \<times> blk_res ev list) option" where
  "virtio_block_round abi ba vans ring reqs mic page =
     (let (ok, (mic1, page1), tr1) = open_backend ba (mic, page) in
      if \<not> ok then Some ([], mic1, tr1)
      else (case start_virtblk abi vans page1 mic1 of
          None \<Rightarrow> None
        | Some (started, vrs, mic2, tr2) \<Rightarrow>
            let trc = snd (close_backend (mic2, page1)) in
            if \<not> started then Some ([], mic2, tr1 @ tr2 @ trc)
            else if \<not> v_iovec vans then Some ([], mic2, tr1 @ tr2 @ stop_virtblk mic2 @ trc)
            else (case blk_requests abi ring page1 mic2 reqs of
                None \<Rightarrow> None
              | Some outs \<Rightarrow>
                  Some (outs, mic2,
                    tr1 @ tr2 @ [Acq BIovec, Rel BIovec] @ stop_virtblk mic2 @ trc))))"

section \<open>The configuration file\<close>

lemma backend_line_first:
  assumes "\<And>l. l \<in> set pre \<Longrightarrow> take 15 l \<noteq> ''VIRTBLK_BACKEND''"
    and "newline \<notin> set val"
  shows "backend_line (pre @ (''VIRTBLK_BACKEND='' @ val @ [newline]) # post) =
     Some (''VIRTBLK_BACKEND='' @ val)"
  using assms(1)
proof (induction pre)
  case Nil
  have "cut_newline (''VIRTBLK_BACKEND='' @ val @ [newline]) = ''VIRTBLK_BACKEND='' @ val"
    using assms(2) by (auto simp: cut_newline_def takeWhile_append)
  then show ?case by (simp add: virtblk_backend_def Let_def)
next
  case (Cons l pre)
  have t: "take 15 (cut_newline l) = ''VIRTBLK_BACKEND'' \<Longrightarrow> take 15 l = ''VIRTBLK_BACKEND''"
  proof -
    assume a: "take 15 (cut_newline l) = ''VIRTBLK_BACKEND''"
    obtain r where r: "l = cut_newline l @ r"
      unfolding cut_newline_def using takeWhile_dropWhile_id by metis
    have "15 \<le> length (cut_newline l)" using arg_cong [OF a, of length] by simp
    with a show "take 15 l = ''VIRTBLK_BACKEND''" by (subst r) simp
  qed
  have len: "length virtblk_backend = 15" by (simp add: virtblk_backend_def)
  have "take (length virtblk_backend) x = virtblk_backend \<longleftrightarrow> take 15 x = ''VIRTBLK_BACKEND''" for x
    unfolding len by (simp add: virtblk_backend_def)
  with t Cons show ?case by (auto simp: Let_def)
qed

text \<open>The capacity in sectors, rounded up.\<close>

lemma ceil_div:
  fixes n k :: int
  assumes k: "0 < k"
  shows "(n + (k - 1)) div k = (if n mod k \<noteq> 0 then n div k + 1 else n div k)"
proof -
  have "n + (k - 1) = (n mod k + (k - 1)) + (n div k) * k"
    using div_mult_mod_eq [of n k] by linarith
  then have e: "(n + (k - 1)) div k = n div k + (n mod k + (k - 1)) div k"
    using k by (metis div_mult_self1 less_irrefl)
  show ?thesis
  proof (cases "n mod k = 0")
    case True
    with k e show ?thesis by simp
  next
    case False
    then have "0 < n mod k" "n mod k < k" using k pos_mod_sign [of k n] pos_mod_bound [of k n] by linarith+
    then have "(n mod k + (k - 1)) div k = 1" by (intro int_div_pos_eq [where r = "n mod k - 1"]) simp_all
    with e False show ?thesis by simp
  qed
qed

lemma set_backend_size_capacity:
  assumes "0 \<le> n" and "n < 2 ^ 63"
  shows "\<exists>mic' page'. set_backend_size n mic page = (True, mic', page')
     \<and> int (unat (capacity page')) = (n + 511) div 512 \<and> backend_size (mic_virtblk mic') = n"
proof -
  define c where "c = (if n mod 512 \<noteq> 0 then n div 512 + 1 else n div 512)"
  have c: "c = (n + 511) div 512" unfolding c_def using ceil_div [of 512 n] by simp
  have "0 \<le> c" "c < 2 ^ 64" using assms unfolding c by simp_all
  then have "int (unat (word_of_int c :: u64)) = c" by (simp add: take_bit_int_eq_self unsigned_of_int)
  moreover have "(if n mod 512 \<noteq> 0 then word_of_int (n div 512) + 1 else word_of_int (n div 512)) =
      (word_of_int c :: u64)"
    unfolding c_def by simp
  ultimately show ?thesis
    using assms c by (simp add: set_backend_size_def SECTOR_SIZE_def Let_def)
qed

interpretation backend: acquire_release open_backend close_backend
  "\<lambda>st. {BFile, BFd (backend (mic_virtblk (fst st))), BMap}"
proof
  have f: "(tr = [] \<or> tr = [Acq BConf, Rel BConf]) \<and> \<not> ok \<or> ok \<and> tr = [Acq BConf, Rel BConf, Acq BFile]"
    if "set_backend_file conf m mic = (ok, mic', tr)" for conf m mic ok mic' tr
    using that by (auto simp: set_backend_file_def split: option.splits list.splits if_splits)
  fix e st st' tr
  show "open_backend e st = (True, st', tr) \<Longrightarrow>
      run_ev {} tr = Some {BFile, BFd (backend (mic_virtblk (fst st'))), BMap}"
    by (auto simp: open_backend_def set_backend_size_def Let_def trace_simps dest!: f
        split: prod.splits if_splits option.splits)
  show "open_backend e st = (False, st', tr) \<Longrightarrow> run_ev {} tr = Some {}"
    by (auto simp: open_backend_def Let_def trace_simps dest!: f
        split: prod.splits if_splits option.splits)
next
  fix st st' tr
  show "close_backend st = (st', tr) \<Longrightarrow>
      run_ev {BFile, BFd (backend (mic_virtblk (fst st))), BMap} tr = Some {}"
    by (auto simp: close_backend_def trace_simps)
qed

section \<open>Requests\<close>

text \<open>The buffer elements of a request and its status element, as they hang together.\<close>

fun blk_chain :: "virtio_abi \<Rightarrow> (u32 \<Rightarrow> vring_desc option) \<Rightarrow> u32 \<Rightarrow> vring_desc list \<Rightarrow> vring_desc \<Rightarrow> bool" where
  "blk_chain abi ring i [] dl = (ring i = Some dl \<and> vd_flags dl AND VRING_DESC_F_NEXT abi = 0)"
| "blk_chain abi ring i (d # ds) dl =
     (ring i = Some d \<and> vd_flags d AND VRING_DESC_F_NEXT abi \<noteq> 0
      \<and> blk_chain abi ring (ucast (vd_next d)) ds dl)"

text \<open>The I/O vectors of consecutive parts of the backend.\<close>

fun blk_iovecs :: "u64 \<Rightarrow> vring_desc list \<Rightarrow> iovec list" where
  "blk_iovecs fos [] = []"
| "blk_iovecs fos (d # ds) =
     \<lparr>iov_base = fos, iov_len = ucast (vd_len d)\<rparr> # blk_iovecs (fos + ucast (vd_len d)) ds"

lemma blk_walk_chain:
  "blk_chain abi ring i ds dl \<Longrightarrow> length acc + length ds \<le> room \<Longrightarrow>
   blk_walk abi ring room i fos acc = Some (acc @ blk_iovecs fos ds, dl)"
proof (induction ds arbitrary: i fos acc)
  case Nil
  then show ?case by (simp add: blk_walk.simps [of abi ring room i])
next
  case (Cons d ds)
  then show ?case by (simp add: blk_walk.simps [of abi ring room i] next_desc_def)
qed


definition sample_ring :: "u32 \<Rightarrow> vring_desc option" where
  "sample_ring i = (if i = 0 then Some \<lparr>vd_len = 16, vd_flags = 1, vd_next = 1\<rparr>
     else if i = 1 then Some \<lparr>vd_len = 512, vd_flags = 1, vd_next = 2\<rparr>
     else if i = 2 then Some \<lparr>vd_len = 512, vd_flags = 1, vd_next = 3\<rparr>
     else if i = 3 then Some \<lparr>vd_len = 1, vd_flags = 2, vd_next = 0\<rparr> else None)"

definition sample_req :: "int \<Rightarrow> u32 \<Rightarrow> blk_ans" where
  "sample_req transfer ty = \<lparr>q_header = (0, \<lparr>htype = ty, sector = 3\<rparr>), q_transfer = transfer\<rparr>"

lemma sample_page_seg_max: "unat (seg_max (virtblk_dev_page sample_abi)) = 126"
  by (simp add: virtblk_dev_page_def sample_abi_def)

lemma sample_blk_abi: "VRING_DESC_F_NEXT sample_abi = 1" "VIRTIO_BLK_T_OUT sample_abi = 1"
  "VIRTIO_BLK_T_GET_ID sample_abi = 8"
  by (simp_all add: sample_abi_def)


text \<open>
  What the card learns about a request that is completed: the status byte is 0 unless the
  request type is not supported and the status element does not have length 1. In particular a
  failed transfer is reported as a success, and so is an unsupported request with a proper
  status element; the checks of the header element have no effect.
\<close>
theorem blk_request_status:
  assumes "blk_request abi ring page mic ans head = Some (BlkDone iov st)"
  shows "\<exists>desc iov' dl. ring (ucast head) = Some desc
     \<and> blk_walk abi ring (unat (seg_max page)) (next_desc abi desc)
         (backend_addr (mic_virtblk mic) + sector (snd (q_header ans)) * 512) [] = Some (iov', dl)
     \<and> (st \<noteq> 0 \<longleftrightarrow>
          htype (snd (q_header ans)) AND NOT (VIRTIO_BLK_T_OUT abi OR VIRTIO_BLK_T_GET_ID abi) \<noteq> 0
          \<and> vd_len dl \<noteq> 1)"
  using assms
  by (auto simp: blk_request_def SECTOR_SIZE_def status_error_check_def EIO_def ENOTSUP_def Let_def
      split: option.splits prod.splits if_splits)

theorem blk_request_status_witness:
  "\<exists>desc iov' dl. sample_ring (ucast (0 :: u16)) = Some desc
     \<and> blk_walk sample_abi sample_ring (unat (seg_max (virtblk_dev_page sample_abi))) (next_desc sample_abi desc)
         (backend_addr (mic_virtblk sample_mic) + sector (snd (q_header (sample_req (-5) 1))) * 512) []
         = Some (iov', dl)
     \<and> ((0 :: u8) \<noteq> 0 \<longleftrightarrow>
          htype (snd (q_header (sample_req (-5) 1)))
            AND NOT (VIRTIO_BLK_T_OUT sample_abi OR VIRTIO_BLK_T_GET_ID sample_abi) \<noteq> 0
          \<and> vd_len dl \<noteq> 1)"
proof -
  have w: "blk_walk sample_abi sample_ring 126 1 x [] =
      Some ([\<lparr>iov_base = x, iov_len = 512\<rparr>, \<lparr>iov_base = x + 512, iov_len = 512\<rparr>],
        \<lparr>vd_len = 1, vd_flags = 2, vd_next = 0\<rparr>)" for x
    by (simp add: blk_walk.simps sample_ring_def sample_blk_abi next_desc_def)
  have "blk_request sample_abi sample_ring (virtblk_dev_page sample_abi) sample_mic (sample_req (-5) 1) 0 =
      Some (BlkDone (Some [\<lparr>iov_base = 1536, iov_len = 512\<rparr>, \<lparr>iov_base = 2048, iov_len = 512\<rparr>]) 0)"
    using w [of 1536]
    by (simp add: blk_request_def sample_page_seg_max sample_ring_def [of 0] sample_blk_abi next_desc_def
        sample_req_def SECTOR_SIZE_def sample_mic_def)
  then show ?thesis by (rule blk_request_status)
qed

section \<open>Sessions of the block thread\<close>

lemma open_backend_keeps:
  "open_backend ans (mic, page) = (ok, (mic', page'), tr) \<Longrightarrow> mic_id mic' = mic_id mic \<and> dd page' = dd page"
  by (auto simp: open_backend_def set_backend_file_def set_backend_size_def Let_def
      split: prod.splits option.splits list.splits if_splits)

lemma init_vr_keeps:
  "init_vr abi mp mg ty sec n mic = Some (r, vrs, mic') \<Longrightarrow>
   virtio_block_fd (mic_virtblk mic') = virtio_block_fd (mic_virtblk mic)
   \<and> backend (mic_virtblk mic') = backend (mic_virtblk mic)"
  by (auto simp: init_vr_def set_dp_def Let_def split: option.splits if_splits)

lemma init_vr_unmapped:
  "init_vr abi mp mg ty sec n mic = Some (r, vrs, mic') \<Longrightarrow>
   r = mp (MIC_DEVICE_PAGE_END + vr_size abi * of_nat n)"
  by (cases "mp (MIC_DEVICE_PAGE_END + vr_size abi * of_nat n)")
    (auto simp: init_vr_def Let_def split: option.splits if_splits)

definition dev_path :: "mic_info \<Rightarrow> string" where
  "dev_path mic = snprintf PATH_MAX (''/dev/mic'' @ show_int (mic_id mic))"

definition ids_distinct :: "virtio_abi \<Rightarrow> bool" where
  "ids_distinct abi \<longleftrightarrow> distinct [VIRTIO_ID_NET abi, VIRTIO_ID_BLOCK abi, VIRTIO_ID_CONSOLE abi]"

lemma start_virtblk_trace:
  assumes "start_virtblk abi vans page mic = Some (ok, vrs, mic', tr)"
    and "ids_distinct abi" and "dtype (dd page) = VIRTIO_ID_BLOCK abi"
    and "v_open vans (dev_path mic) = fd" and "0 \<le> fd" and "0 \<le> v_ioctl vans (dd page)"
  shows "backend (mic_virtblk mic') = backend (mic_virtblk mic)
     \<and> (if ok then tr = [Acq (BDev fd), Acq BDp] \<and> virtio_block_fd (mic_virtblk mic') = fd
        else tr = (if v_aligned vans then [Acq (BDev fd)] else []))
     \<and> (ok \<longleftrightarrow> v_aligned vans
          \<and> v_map vans (MIC_DEVICE_PAGE_END + vr_size abi * of_nat (num_vq (dd page))) \<noteq> None)"
proof (cases "v_aligned vans")
  case False
  with assms(1) show ?thesis by (simp add: start_virtblk_def)
next
  case True
  let ?mic1 = "mic\<lparr>mic_virtblk := (mic_virtblk mic)\<lparr>virtio_block_fd := fd\<rparr>\<rparr>"
  have a: "add_virtio_device abi (v_open vans) (v_ioctl vans) (dd page) mic = (?mic1, [Acq (SysFd fd)])"
    using assms(2-6) by (auto simp: add_virtio_device_def dev_path_def ids_distinct_def)
  obtain r vrs' where i: "init_vr abi (v_map vans) (v_magic vans) (VIRTIO_ID_BLOCK abi) False
      (num_vq (dd page)) ?mic1 = Some (r, vrs', mic')"
    using assms(1) True a by (auto simp: start_virtblk_def split: option.splits)
  show ?thesis
    using assms(1) True a i init_vr_keeps [OF i] init_vr_unmapped [OF i]
    by (auto simp: start_virtblk_def split: option.splits)
qed

text \<open>
  Resources of a session of the block thread, when the device can be added: everything it
  acquires is released exactly once, except that the device descriptor stays open when mapping
  the ring fails (the thread then skips the call that would close it).
\<close>
theorem block_round_resources:
  assumes "virtio_block_round abi ba vans ring reqs mic page = Some (outs, mic', tr)"
    and "ids_distinct abi" and "dtype (dd page) = VIRTIO_ID_BLOCK abi"
    and "v_open vans (dev_path mic) = fd" and "0 \<le> fd" and "0 \<le> v_ioctl vans (dd page)"
  shows "run_ev {} tr =
     Some (if fst (open_backend ba (mic, page)) \<and> v_aligned vans
             \<and> v_map vans (MIC_DEVICE_PAGE_END + vr_size abi * of_nat (num_vq (dd page))) = None
           then {BDev fd} else {})"
proof -
  obtain ok mic1 page1 tr1 where o: "open_backend ba (mic, page) = (ok, (mic1, page1), tr1)"
    by (metis prod_cases3 surj_pair)
  show ?thesis
  proof (cases ok)
    case False
    with assms(1) o backend.init_fail [of ba "(mic, page)"] show ?thesis
      by (simp add: virtio_block_round_def)
  next
    case True
    then have t1: "run_ev {} tr1 = Some {BFile, BFd (backend (mic_virtblk mic1)), BMap}"
      using backend.init_ok [of ba "(mic, page)"] o by simp
    have k: "mic_id mic1 = mic_id mic" "dd page1 = dd page" using open_backend_keeps [OF o] by simp_all
    obtain started vrs mic2 tr2 where s: "start_virtblk abi vans page1 mic1 = Some (started, vrs, mic2, tr2)"
      using assms(1) o True by (auto simp: virtio_block_round_def split: option.splits)
    note t = start_virtblk_trace [OF s assms(2), of fd, unfolded k, OF assms(3)]
    have "v_open vans (dev_path mic1) = fd" using assms(4) k by (simp add: dev_path_def)
    note t = t [OF this assms(5,6)]
    show ?thesis
      using assms(1) o True s t t1
      by (auto simp: virtio_block_round_def Let_def close_backend_def stop_virtblk_def trace_simps
          insert_Diff_if insert_commute split: option.splits if_splits)
  qed
qed

definition sample_backend :: backend_ans where
  "sample_backend = \<lparr>b_conf = (\<lambda>_. Some [''VIRTBLK_BACKEND=/img'']), b_malloc = True, b_open = (\<lambda>_. 5),
     b_lseek = 1024, b_mmap = Some 0x10000\<rparr>"

definition sample_virtblk :: "u64 option \<Rightarrow> virtblk_ans" where
  "sample_virtblk a = \<lparr>v_aligned = True, v_open = (\<lambda>_. 6), v_ioctl = (\<lambda>_. 0), v_map = (\<lambda>_. a),
     v_magic = (\<lambda>_. 0xc0ffee02), v_iovec = True\<rparr>"

theorem block_round_resources_witness:
  "\<exists>mic' tr. virtio_block_round sample_abi sample_backend (sample_virtblk None) sample_ring [] sample_mic
       (virtblk_dev_page sample_abi) = Some ([], mic', tr) \<and> run_ev {} tr = Some {BDev 6}"
proof -
  let ?page = "virtblk_dev_page sample_abi"
  have o: "fst (open_backend sample_backend (sample_mic, ?page))"
    by code_simp
  have p: "dtype (dd ?page) = VIRTIO_ID_BLOCK sample_abi" by (simp add: virtblk_dev_page_def)
  have d: "ids_distinct sample_abi" by (simp add: ids_distinct_def sample_abi_fields)
  obtain mic' tr where r: "virtio_block_round sample_abi sample_backend (sample_virtblk None) sample_ring []
      sample_mic ?page = Some ([], mic', tr)"
    using o by (cases "open_backend sample_backend (sample_mic, ?page)")
      (auto simp: virtio_block_round_def start_virtblk_def sample_virtblk_def init_vr_def Let_def
        split_beta)
  have "run_ev {} tr = Some {BDev 6}"
    using block_round_resources [OF r d p, of 6] o by (simp add: sample_virtblk_def)
  with r show ?thesis by blast
qed

text \<open>
  From the configuration file to the backend: when the configuration of the card has a
  line \<open>VIRTBLK_BACKEND=path\<close> and no earlier line begins with that key, and the file can be
  opened, measured and mapped, then \<open>open_backend\<close> succeeds on exactly that path and
  announces its size in sectors, rounded up.
\<close>
theorem open_backend_configured:
  assumes "b_conf ans (backend_conf_path (mic_id mic)) =
       Some (pre @ (''VIRTBLK_BACKEND='' @ val @ [newline]) # post)"
    and "\<And>l. l \<in> set pre \<Longrightarrow> take 15 l \<noteq> ''VIRTBLK_BACKEND''" and "newline \<notin> set val"
    and "b_malloc ans" and "b_open ans val = fd" and "0 \<le> fd"
    and "0 \<le> b_lseek ans" and "b_lseek ans < 2 ^ 63" and "b_mmap ans = Some a"
  shows "\<exists>mic' page' tr. open_backend ans (mic, page) = (True, (mic', page'), tr)
     \<and> backend_file (mic_virtblk mic') = val \<and> backend (mic_virtblk mic') = fd
     \<and> backend_addr (mic_virtblk mic') = a \<and> backend_size (mic_virtblk mic') = b_lseek ans
     \<and> int (unat (capacity page')) = (b_lseek ans + 511) div 512"
proof -
  let ?mic1 = "mic\<lparr>mic_virtblk := (mic_virtblk mic)\<lparr>backend_file := val\<rparr>\<rparr>"
  let ?mic2 = "?mic1\<lparr>mic_virtblk := (mic_virtblk ?mic1)\<lparr>backend := fd\<rparr>\<rparr>"
  have f: "set_backend_file (b_conf ans) (b_malloc ans) mic = (True, ?mic1, [Acq BConf, Rel BConf, Acq BFile])"
    using assms(1,4) backend_line_first [OF assms(2,3), where post = post] by (simp add: set_backend_file_def)
  obtain mic3 page3 where s: "set_backend_size (b_lseek ans) ?mic2 page = (True, mic3, page3)"
    "int (unat (capacity page3)) = (b_lseek ans + 511) div 512"
    "backend_size (mic_virtblk mic3) = b_lseek ans"
    using set_backend_size_capacity [OF assms(7,8)] by blast
  have "backend_file (mic_virtblk mic3) = val" "backend (mic_virtblk mic3) = fd"
    using s(1) assms(7) by (auto simp: set_backend_size_def Let_def)
  with f s assms(5,6,9) show ?thesis by (simp add: open_backend_def Let_def)
qed

theorem open_backend_configured_witness:
  "\<exists>mic' page' tr.
     open_backend (sample_backend\<lparr>b_conf := (\<lambda>_. Some ([''# mpssd''] @ (''VIRTBLK_BACKEND='' @ ''/img'' @ [newline]) # []))\<rparr>)
       (sample_mic, virtblk_dev_page sample_abi) = (True, (mic', page'), tr)
     \<and> backend_file (mic_virtblk mic') = ''/img'' \<and> int (unat (capacity page')) = 2"
  using open_backend_configured [of "sample_backend\<lparr>b_conf := (\<lambda>_. Some ([''# mpssd''] @
      (''VIRTBLK_BACKEND='' @ ''/img'' @ [newline]) # []))\<rparr>" sample_mic "[''# mpssd'']" "''/img''" "[]" 5 "0x10000"
      "virtblk_dev_page sample_abi"]
  by (simp add: sample_backend_def) blast

end
