(* ===== verification/Mpss_Daemon.thy ===== *)
theory Mpss_Daemon
  imports Mpss_Block
begin

text \<open>
  Model of the control part of \<open>src/Documentation/mic/mpssd/mpssd.c\<close>: following the state
  of a card (\<open>mic_config\<close>), shutting it down, resetting and restarting it
  (\<open>mic_handle_shutdown\<close>, \<open>reset\<close>, \<open>init_mic\<close>), describing it to the card's
  kernel (\<open>set_cmdline\<close>, \<open>set_log_buf_info\<close>) and finding the cards
  (\<open>init_mic_list\<close>, \<open>main\<close>). What a function does outside the process is the list
  of its actions, in order. Reads of sysfs entries are counted, so that an environment can give
  each its own answer; a loop that does not return has the value \<open>None\<close>, a failed
  assertion the value \<open>Aborted\<close>. The text of log lines is not modelled here.
\<close>

datatype mic_thread = ConsoleThread | NetThread | BlockThread | ConfigThread

datatype mic_act =
    ActSet string string
  | ActSleep
  | ActKill int
  | ActWait int
  | ActClose
  | ActThread mic_thread
  | ActIgnoreUsr1
  | ActHandleUsr1

datatype 'a cres = Aborted | Returned 'a

datatype mic_state =
  MIC_OFFLINE | MIC_ONLINE | MIC_SHUTTING_DOWN | MIC_RESET_FAILED | MIC_SUSPENDING | MIC_SUSPENDED

datatype mic_status = MIC_NOP | MIC_CRASHED | MIC_HALTED | MIC_POWER_OFF | MIC_RESTART

record mic_env =
  e_strerror :: "nat \<Rightarrow> string"
  e_read :: "nat \<Rightarrow> sysfs_read_ans"
  e_kill :: "nat \<Rightarrow> int"
  e_wait :: "nat \<Rightarrow> int"

text \<open>The \<open>k\<close>th read of an entry of the card.\<close>

definition mic_read :: "mic_env \<Rightarrow> mic_info \<Rightarrow> nat \<Rightarrow> string \<Rightarrow> string option" where
  "mic_read env mic k entry = fst (readsysfs (e_strerror env) (e_read env k) (mic_name mic) entry)"

section \<open>Reset and shutdown\<close>

definition RESET_TIMEOUT :: nat where "RESET_TIMEOUT = 120"
definition SHUTDOWN_TIMEOUT :: nat where "SHUTDOWN_TIMEOUT = 60"

fun reset_loop :: "mic_env \<Rightarrow> mic_info \<Rightarrow> nat \<Rightarrow> nat \<Rightarrow> mic_act list \<times> nat" where
  "reset_loop env mic 0 k = ([], k)"
| "reset_loop env mic (Suc i) k =
     (if mic_read env mic k ''state'' = Some ''offline'' \<or> mic_read env mic k ''state'' = Some ''suspended''
      then ([], Suc k)
      else let (acts, k') = reset_loop env mic i (Suc k) in (ActSleep # acts, k'))"

definition reset :: "mic_env \<Rightarrow> mic_info \<Rightarrow> nat \<Rightarrow> mic_act list \<times> nat" where
  "reset env mic k =
     (let (acts, k') = reset_loop env mic RESET_TIMEOUT k in (ActSet ''state'' ''reset'' # acts, k'))"

definition get_mic_shutdown_status :: "string \<Rightarrow> mic_status option" where
  "get_mic_shutdown_status s =
     (if s = ''nop'' then Some MIC_NOP
      else if s = ''crashed'' then Some MIC_CRASHED
      else if s = ''halted'' then Some MIC_HALTED
      else if s = ''poweroff'' then Some MIC_POWER_OFF
      else if s = ''restart'' then Some MIC_RESTART
      else None)"

definition get_mic_state :: "string \<Rightarrow> mic_state option" where
  "get_mic_state s =
     (if s = ''offline'' then Some MIC_OFFLINE
      else if s = ''online'' then Some MIC_ONLINE
      else if s = ''shutting_down'' then Some MIC_SHUTTING_DOWN
      else if s = ''reset_failed'' then Some MIC_RESET_FAILED
      else if s = ''suspending'' then Some MIC_SUSPENDING
      else if s = ''suspended'' then Some MIC_SUSPENDED
      else None)"

text \<open>
  The loop of \<open>mic_handle_shutdown\<close>: \<open>i\<close> tries are left. A read that fails goes back
  to the head of the loop without using up a try.
\<close>

partial_function (option) shutdown_loop ::
  "mic_env \<Rightarrow> mic_info \<Rightarrow> nat \<Rightarrow> nat \<Rightarrow> mic_act list \<Rightarrow> (mic_info \<times> mic_act list \<times> nat) cres option" where
  "shutdown_loop env mic i k acts =
     (if i = 0 then Some (Returned (mic, acts, k))
      else case mic_read env mic k ''shutdown_status'' of
        None \<Rightarrow> shutdown_loop env mic i (Suc k) acts
      | Some s \<Rightarrow>
          (case get_mic_shutdown_status s of
             None \<Rightarrow> Some Aborted
           | Some MIC_RESTART \<Rightarrow> Some (Returned (mic\<lparr>restart := True\<rparr>, acts, Suc k))
           | Some MIC_NOP \<Rightarrow> shutdown_loop env mic (i - 1) (Suc k) (acts @ [ActSleep])
           | Some _ \<Rightarrow> Some (Returned (mic, acts, Suc k))))"

definition shutdown_kill :: "mic_env \<Rightarrow> mic_info \<Rightarrow> mic_act list \<Rightarrow> nat \<Rightarrow> mic_act list \<times> nat" where
  "shutdown_kill env mic acts k =
     (let killed = e_kill env k;
          acts1 = acts @ [ActKill (mic_pid mic)] @ (if killed = 0 then [ActWait (mic_pid mic)] else []);
          ret = (if killed = 0 then e_wait env k else killed)
      in if ret = mic_pid mic then (let (ra, k') = reset env mic k in (acts1 @ ra, k'))
         else (acts1, k))"

definition mic_handle_shutdown ::
  "mic_env \<Rightarrow> mic_info \<Rightarrow> nat \<Rightarrow> (mic_info \<times> mic_act list \<times> nat) cres option" where
  "mic_handle_shutdown env mic k =
     (case shutdown_loop env mic SHUTDOWN_TIMEOUT k [] of
        None \<Rightarrow> None
      | Some Aborted \<Rightarrow> Some Aborted
      | Some (Returned (mic1, acts, k1)) \<Rightarrow> Some (Returned (mic1, shutdown_kill env mic1 acts k1)))"

section \<open>Describing the host to the card\<close>

definition set_cmdline :: "mic_info \<Rightarrow> mic_act list" where
  "set_cmdline mic =
     (let b1 = snprintf PATH_MAX ''clocksource=tsc highres=off nohz=off '';
          b2 = b1 @ snprintf (PATH_MAX - length b1) ''cpufreq_on;corec6_off;pc3_off;pc6_off '';
          b3 = b2 @ snprintf (PATH_MAX - length b2)
                 (''ifcfg=static;address,172.31.'' @ show_int (mic_id mic) @ ''.1;netmask,255.255.255.0'')
      in [ActSet ''cmdline'' b3])"

text \<open>\<open>strstr\<close>: the position of the first occurrence.\<close>

fun strstr :: "string \<Rightarrow> string \<Rightarrow> nat option" where
  "strstr s pat =
     (if take (length pat) s = pat then Some 0
      else case s of [] \<Rightarrow> None | c # cs \<Rightarrow> map_option Suc (strstr cs pat))"

declare strstr.simps [simp del]

datatype map_res = MapFd | MapMem

record map_ans =
  map_open :: bool
  map_lseek :: bool
  map_mmap :: bool
  map_text :: string

text \<open>
  The mapped file is a C string: it ends at its first zero byte, or with the zero bytes that
  fill its last page. A file of whole pages has no such end, and searching it for a text that
  does not occur leaves the mapping; so does copying from before its start. Both have the value
  \<open>None\<close>.
\<close>

definition map_find :: "string \<Rightarrow> string \<Rightarrow> nat option option" where
  "map_find text pat =
     (case strstr (c_str text) pat of
        Some p \<Rightarrow> Some (Some p)
      | None \<Rightarrow> if CHR 0x00 \<notin> set text \<and> length text mod MIC_PAGE_SIZE = 0 then None else Some None)"

definition log_buf_copy :: "string \<Rightarrow> nat \<Rightarrow> string option" where
  "log_buf_copy text p = (if p < 19 then None else Some (take 16 (drop (p - 19) text)))"

definition set_log_buf_info :: "map_ans \<Rightarrow> (mic_act list \<times> map_res ev list) option" where
  "set_log_buf_info ans =
     (if \<not> map_open ans then Some ([], [])
      else if \<not> map_lseek ans \<or> \<not> map_mmap ans then Some ([], [Acq MapFd, Rel MapFd])
      else
        let tr = [Acq MapFd, Acq MapMem, Rel MapMem, Rel MapFd] in
        case map_find (map_text ans) ''__log_buf'' of
          None \<Rightarrow> None
        | Some None \<Rightarrow> Some ([], tr)
        | Some (Some p) \<Rightarrow>
            (case log_buf_copy (map_text ans) p of
               None \<Rightarrow> None
             | Some addr \<Rightarrow>
                 (case map_find (map_text ans) ''log_buf_len'' of
                    None \<Rightarrow> None
                  | Some None \<Rightarrow> Some ([ActSet ''log_buf_addr'' addr], tr)
                  | Some (Some q) \<Rightarrow>
                      (case log_buf_copy (map_text ans) q of
                         None \<Rightarrow> None
                       | Some len \<Rightarrow>
                           Some ([ActSet ''log_buf_addr'' addr, ActSet ''log_buf_len'' len], tr)))))"

section \<open>Starting a card\<close>

definition change_virtblk_backend :: "mic_info list \<Rightarrow> mic_info list" where
  "change_virtblk_backend mics =
     map (\<lambda>mic. mic\<lparr>mic_virtblk := (mic_virtblk mic)\<lparr>signaled := True\<rparr>\<rparr>) mics"

record init_ans =
  i_fork :: int
  i_map :: map_ans
  i_open :: "string \<Rightarrow> int"
  i_ioctl :: "mic_device_desc \<Rightarrow> int"
  i_thread :: "mic_thread \<Rightarrow> int"
  i_sigaction :: int

text \<open>
  \<open>init_mic\<close>: the child adds the devices, starts the threads of the card and sleeps for
  ever; the parent boots a card that asked for a restart and starts the thread that follows its
  state.
\<close>

datatype init_res =
    InitChild mic_info "mic_act list"
  | InitParent mic_info "mic_act list"
  | InitFailed mic_info "mic_act list"

definition init_child :: "virtio_abi \<Rightarrow> init_ans \<Rightarrow> mic_info \<Rightarrow> (mic_info \<times> mic_act list) option" where
  "init_child abi ans mic =
     (case set_log_buf_info (i_map ans) of
        None \<Rightarrow> None
      | Some (acts, tr) \<Rightarrow>
          let mic1 = fst (add_virtio_device abi (i_open ans) (i_ioctl ans) (dd (virtcons_dev_page abi)) mic);
              mic2 = fst (add_virtio_device abi (i_open ans) (i_ioctl ans) (dd (virtnet_dev_page abi)) mic1);
              started = filter (\<lambda>t. i_thread ans t = 0) [ConsoleThread, NetThread, BlockThread]
          in Some (mic2, acts @ set_cmdline mic @ map ActThread started
               @ (if i_sigaction ans = 0 then [ActHandleUsr1] else [])))"

definition init_mic :: "virtio_abi \<Rightarrow> init_ans \<Rightarrow> mic_info \<Rightarrow> init_res option" where
  "init_mic abi ans mic =
     (let mic1 = mic\<lparr>mic_pid := i_fork ans\<rparr> in
      if i_fork ans = 0 then
        map_option (\<lambda>(mic2, acts). InitChild mic2 (ActIgnoreUsr1 # acts)) (init_child abi ans mic1)
      else if i_fork ans = -1 then Some (InitFailed mic1 [ActIgnoreUsr1])
      else
        let (boot, mic2) = (if restart mic1 then ([ActSet ''state'' ''boot''], mic1\<lparr>restart := False\<rparr>)
                            else ([], mic1))
        in Some (InitParent mic2 (ActIgnoreUsr1 # boot @
             (if i_thread ans ConfigThread = 0 then [ActThread ConfigThread] else []))))"

section \<open>Following the state of a card\<close>

partial_function (option) read_state :: "mic_env \<Rightarrow> mic_info \<Rightarrow> nat \<Rightarrow> (string \<times> nat) option" where
  "read_state env mic k =
     (case mic_read env mic k ''state'' of
        None \<Rightarrow> read_state env mic (Suc k)
      | Some s \<Rightarrow> Some (s, Suc k))"

datatype cfg_res =
    CfgNext mic_info "mic_act list" nat
  | CfgEnd mic_info "mic_act list" nat

record turn_ans =
  t_lseek :: int
  t_read :: int
  t_poll :: int

text \<open>One turn of the loop of \<open>mic_config\<close>, up to its poll for the next change of state.\<close>

definition config_end ::
  "mic_act list \<Rightarrow> (mic_info \<times> mic_act list \<times> nat) cres option \<Rightarrow> cfg_res cres option" where
  "config_end acts r = (case r of
     None \<Rightarrow> None
   | Some Aborted \<Rightarrow> Some Aborted
   | Some (Returned (mic, acts', k)) \<Rightarrow> Some (Returned (CfgEnd mic (acts @ acts') k)))"

definition config_poll :: "turn_ans \<Rightarrow> mic_info \<Rightarrow> mic_act list \<Rightarrow> nat \<Rightarrow> cfg_res cres option" where
  "config_poll t mic acts k =
     Some (Returned (if t_poll t < 0 then CfgEnd mic acts k else CfgNext mic acts k))"

definition config_turn :: "mic_env \<Rightarrow> turn_ans \<Rightarrow> mic_info \<Rightarrow> nat \<Rightarrow> cfg_res cres option" where
  "config_turn env t mic k =
     (if t_lseek t < 0 \<or> t_read t < 0 then Some (Returned (CfgEnd mic [] k))
      else case read_state env mic k of
        None \<Rightarrow> None
      | Some (s, k1) \<Rightarrow>
          (case get_mic_state s of
             None \<Rightarrow> Some Aborted
           | Some MIC_SHUTTING_DOWN \<Rightarrow> config_end [] (mic_handle_shutdown env mic k1)
           | Some MIC_SUSPENDING \<Rightarrow>
               config_end [ActSet ''state'' ''suspend'']
                 (mic_handle_shutdown env (mic\<lparr>boot_on_resume := True\<rparr>) k1)
           | Some MIC_OFFLINE \<Rightarrow>
               if boot_on_resume mic
               then config_poll t (mic\<lparr>boot_on_resume := False\<rparr>) [ActSet ''state'' ''boot''] k1
               else config_poll t mic [] k1
           | Some _ \<Rightarrow> config_poll t mic [] k1))"

text \<open>The loop, over the answers of the turns so far.\<close>

fun config_loop :: "mic_env \<Rightarrow> turn_ans list \<Rightarrow> mic_info \<Rightarrow> nat \<Rightarrow> cfg_res cres option" where
  "config_loop env [] mic k = Some (Returned (CfgNext mic [] k))"
| "config_loop env (t # ts) mic k =
     (case config_turn env t mic k of
        Some (Returned (CfgNext mic1 acts k1)) \<Rightarrow>
          (case config_loop env ts mic1 k1 of
             Some (Returned (CfgNext mic2 acts2 k2)) \<Rightarrow> Some (Returned (CfgNext mic2 (acts @ acts2) k2))
           | Some (Returned (CfgEnd mic2 acts2 k2)) \<Rightarrow> Some (Returned (CfgEnd mic2 (acts @ acts2) k2))
           | r \<Rightarrow> r)
      | r \<Rightarrow> r)"

text \<open>
  \<open>mic_config\<close>: the thread follows the card until a turn ends it, closes the file and
  starts the card anew. \<open>Inl\<close>: it is still following the card after the given turns.
\<close>

definition mic_config ::
  "virtio_abi \<Rightarrow> mic_env \<Rightarrow> int \<Rightarrow> turn_ans list \<Rightarrow> init_ans \<Rightarrow> mic_info \<Rightarrow> nat
    \<Rightarrow> ((mic_info \<times> nat) + (init_res \<times> nat)) cres option \<times> mic_act list" where
  "mic_config abi env fd ts ans mic k =
     (if fd < 0 then (map_option (\<lambda>r. Returned (Inr (r, k))) (init_mic abi ans mic), [])
      else case config_loop env ts mic k of
        None \<Rightarrow> (None, [])
      | Some Aborted \<Rightarrow> (Some Aborted, [])
      | Some (Returned (CfgNext mic1 acts k1)) \<Rightarrow> (Some (Returned (Inl (mic1, k1))), acts)
      | Some (Returned (CfgEnd mic1 acts k1)) \<Rightarrow>
          (map_option (\<lambda>r. Returned (Inr (r, k1))) (init_mic abi ans mic1), acts @ [ActClose]))"

section \<open>The daemon\<close>

text \<open>The list of the cards.\<close>

definition calloc_mic :: mic_info where
  "calloc_mic = \<lparr>mic_id = 0, mic_name = None, mic_pid = 0,
     mic_console = \<lparr>virtio_console_fd = 0, console_dp = 0\<rparr>,
     mic_net = \<lparr>virtio_net_fd = 0, tap_fd = 0, net_dp = 0\<rparr>,
     mic_virtblk = \<lparr>virtio_block_fd = 0, block_dp = 0, signaled = False, backend_file = [],
       backend = 0, backend_addr = 0, backend_size = 0\<rparr>,
     restart = False, boot_on_resume = False\<rparr>"

record dir_ans =
  d_name :: string
  d_calloc :: bool
  d_malloc :: bool

fun mic_entries :: "dir_ans list \<Rightarrow> mic_info list option" where
  "mic_entries [] = Some []"
| "mic_entries (e # es) =
     (if take 3 (d_name e) = ''mic'' \<and> d_calloc e then
        (case (atoi (drop 3 (d_name e)), mic_entries es) of
           (Some n, Some mics) \<Rightarrow>
             Some (calloc_mic\<lparr>mic_id := n, mic_name := (if d_malloc e then Some (d_name e) else None)\<rparr> # mics)
         | _ \<Rightarrow> None)
      else mic_entries es)"

definition init_mic_list :: "dir_ans list option \<Rightarrow> (mic_info list \<times> nat) option" where
  "init_mic_list dp =
     (case dp of
        None \<Rightarrow> Some ([], 0)
      | Some es \<Rightarrow> map_option (\<lambda>mics. (mics, length mics)) (mic_entries es))"

text \<open>
  \<open>start_daemon\<close> in one process: the results of \<open>init_mic\<close> for the cards in order. A child
  never comes back from it, so its list ends there.
\<close>

fun start_daemon :: "virtio_abi \<Rightarrow> init_ans list \<Rightarrow> mic_info list \<Rightarrow> init_res option list" where
  "start_daemon abi (a # as) (mic # mics) =
     (case init_mic abi a mic of
        Some (InitParent m acts) \<Rightarrow> Some (InitParent m acts) # start_daemon abi as mics
      | Some (InitFailed m acts) \<Rightarrow> Some (InitFailed m acts) # start_daemon abi as mics
      | r \<Rightarrow> [r])"
| "start_daemon abi _ _ = []"

text \<open>A log line: \<open>vsprintf\<close> into 4096 bytes, behind the time without its newline.\<close>

definition mpsslog :: "bool \<Rightarrow> string \<Rightarrow> string \<Rightarrow> string option" where
  "mpsslog logfp ts buffer =
     (if \<not> logfp then Some []
      else if 4096 \<le> length buffer then None
      else Some (butlast ts @ '': '' @ buffer))"

datatype main_res = MainExit nat | MainDaemon "init_res option list"

definition mpssd_main ::
  "virtio_abi \<Rightarrow> bool \<Rightarrow> int \<Rightarrow> dir_ans list option \<Rightarrow> init_ans list \<Rightarrow> main_res option" where
  "mpssd_main abi logfp pid dp as =
     (if \<not> logfp then Some (MainExit 1)
      else if pid = -1 then Some (MainExit 2)
      else if pid \<noteq> 0 then Some (MainExit 0)
      else case init_mic_list dp of
        None \<Rightarrow> None
      | Some (mics, cnt) \<Rightarrow>
          if cnt = 0 then Some (MainExit 3) else Some (MainDaemon (start_daemon abi as mics)))"

section \<open>Waiting for the card to stop\<close>

lemma mic_read_update [simp]:
  "mic_read env (mic\<lparr>restart := r\<rparr>) = mic_read env mic"
  "mic_read env (mic\<lparr>boot_on_resume := b\<rparr>) = mic_read env mic"
  by (auto simp: mic_read_def fun_eq_iff)

text \<open>The number of reads from \<open>k\<close> up to \<open>n\<close> that give a value.\<close>

definition hits :: "(nat \<Rightarrow> 'a option) \<Rightarrow> nat \<Rightarrow> nat \<Rightarrow> nat" where
  "hits r k n = length (filter (\<lambda>m. r m \<noteq> None) [k..<n])"

lemma hits_step: "k < n \<Longrightarrow> hits r k n = (if r k = None then 0 else 1) + hits r (Suc k) n"
  by (simp add: hits_def upt_conv_Cons)

lemma hits_empty [simp]: "n \<le> k \<Longrightarrow> hits r k n = 0"
  by (simp add: hits_def)

lemma hits_earlier: "\<exists>n'. (if r k = None then 0 else 1) + hits r (Suc k) n \<le> hits r k n'"
proof (cases "k < n")
  case True
  with hits_step [OF True, of r] show ?thesis by (intro exI [of _ n]) simp
next
  case False
  with hits_step [of k "Suc k" r] show ?thesis by (intro exI [of _ "Suc k"]) simp
qed

abbreviation status_read :: "mic_env \<Rightarrow> mic_info \<Rightarrow> nat \<Rightarrow> string option" where
  "status_read env mic \<equiv> \<lambda>m. mic_read env mic m ''shutdown_status''"

definition stops_from :: "(nat \<Rightarrow> string option) \<Rightarrow> nat \<Rightarrow> nat \<Rightarrow> bool" where
  "stops_from r i k \<longleftrightarrow> (\<exists>m \<ge> k. \<exists>s. r m = Some s \<and> s \<noteq> ''nop'') \<or> (\<exists>n. i \<le> hits r k n)"

lemma stops_from_step:
  assumes "stops_from r j (Suc k)" and "i \<le> j + (if r k = None then 0 else 1)"
  shows "stops_from r i k"
  using assms(1) unfolding stops_from_def
proof (elim disjE exE)
  fix n assume "j \<le> hits r (Suc k) n"
  moreover obtain n' where "(if r k = None then 0 else 1) + hits r (Suc k) n \<le> hits r k n'"
    using hits_earlier by blast
  ultimately have "i \<le> hits r k n'" using assms(2) by linarith
  then show "(\<exists>m \<ge> k. \<exists>s. r m = Some s \<and> s \<noteq> ''nop'') \<or> (\<exists>n. i \<le> hits r k n)" by blast
qed (use Suc_leD in blast)

lemma shutdown_loop_returned:
  assumes "shutdown_loop env mic i k acts = Some y"
  shows "stops_from (status_read env mic) i k"
  using assms
proof (induction rule: shutdown_loop.raw_induct [rotated, consumes 1, case_names step])
  case (step f env mic i k acts y)
  show ?case
  proof (cases "i = 0")
    case True
    then show ?thesis by (simp add: stops_from_def)
  next
    case False
    show ?thesis
    proof (cases "status_read env mic k")
      case None
      with step(2) False have "f env mic i (Suc k) acts = Some y" by simp
      from stops_from_step [OF step(1) [OF this]] None show ?thesis by simp
    next
      case (Some s)
      show ?thesis
      proof (cases "s = ''nop''")
        case True
        with step(2) False Some have "f env mic (i - 1) (Suc k) (acts @ [ActSleep]) = Some y"
          by (simp add: get_mic_shutdown_status_def)
        from stops_from_step [OF step(1) [OF this]] Some show ?thesis by simp
      qed (use Some in \<open>auto simp: stops_from_def\<close>)
    qed
  qed
qed

lemma shutdown_loop_step:
  assumes "0 < i"
  shows "shutdown_loop env mic i k acts \<noteq> None \<longleftrightarrow>
     (case status_read env mic k of
        None \<Rightarrow> shutdown_loop env mic i (Suc k) acts \<noteq> None
      | Some s \<Rightarrow> s = ''nop'' \<longrightarrow> shutdown_loop env mic (i - 1) (Suc k) (acts @ [ActSleep]) \<noteq> None)"
  using assms
  by (subst shutdown_loop.simps)
    (auto simp: get_mic_shutdown_status_def split: option.splits mic_status.splits)

lemma shutdown_loop_0: "shutdown_loop env mic 0 k acts \<noteq> None"
  by (simp add: shutdown_loop.simps)

lemma shutdown_loop_decisive:
  assumes "status_read env mic m = Some s" and "s \<noteq> ''nop''" and "k \<le> m"
  shows "shutdown_loop env mic i k acts \<noteq> None"
  using assms(3)
proof (induction "m - k" arbitrary: k i acts)
  case 0
  with assms show ?case
    using shutdown_loop_0 shutdown_loop_step [of i env mic k acts] by (cases "i = 0") auto
next
  case (Suc d)
  then have "d = m - Suc k" "Suc k \<le> m" by auto
  note IH = Suc.hyps(1) [OF this]
  show ?case
    using shutdown_loop_0 shutdown_loop_step [of i env mic k acts] IH [of i acts]
      IH [of "i - 1" "acts @ [ActSleep]"]
    by (cases "i = 0") (auto split: option.splits)
qed

lemma shutdown_loop_hits:
  assumes "i \<le> hits (status_read env mic) k n"
  shows "shutdown_loop env mic i k acts \<noteq> None"
  using assms
proof (induction "n - k" arbitrary: k i acts)
  case 0
  then show ?case using shutdown_loop_0 by simp
next
  case (Suc d)
  then have d: "d = n - Suc k" "k < n" by auto
  show ?case
  proof (cases "i = 0")
    case True
    then show ?thesis using shutdown_loop_0 by simp
  next
    case False
    with Suc.prems Suc.hyps(1) [OF d(1), of i acts] Suc.hyps(1) [OF d(1), of "i - 1" "acts @ [ActSleep]"]
      hits_step [OF d(2), of "status_read env mic"] shutdown_loop_step [of i env mic k acts]
    show ?thesis by (auto split: option.splits)
  qed
qed

lemma shutdown_loop_returns:
  "shutdown_loop env mic i k acts \<noteq> None \<longleftrightarrow> stops_from (status_read env mic) i k"
proof
  assume "shutdown_loop env mic i k acts \<noteq> None"
  then obtain y where "shutdown_loop env mic i k acts = Some y" by auto
  then show "stops_from (status_read env mic) i k" by (rule shutdown_loop_returned)
next
  assume "stops_from (status_read env mic) i k"
  then show "shutdown_loop env mic i k acts \<noteq> None"
    unfolding stops_from_def
  proof (elim disjE exE conjE)
    fix m s assume "k \<le> m" "status_read env mic m = Some s" "s \<noteq> ''nop''"
    then show ?thesis using shutdown_loop_decisive by blast
  next
    fix n assume "i \<le> hits (status_read env mic) k n"
    then show ?thesis by (rule shutdown_loop_hits)
  qed
qed


section \<open>Resets and restarts\<close>

definition at_rest :: "string option \<Rightarrow> bool" where
  "at_rest s \<longleftrightarrow> s = Some ''offline'' \<or> s = Some ''suspended''"

lemma reset_loop_waits:
  assumes "\<forall>j < n. \<not> at_rest (mic_read env mic (k + j) ''state'')"
    and "n < i" and "at_rest (mic_read env mic (k + n) ''state'')"
  shows "reset_loop env mic i k = (replicate n ActSleep, k + n + 1)"
  using assms
proof (induction n arbitrary: i k)
  case 0
  then show ?case by (cases i) (auto simp: at_rest_def)
next
  case (Suc n)
  obtain i' where i: "i = Suc i'" "n < i'" using Suc.prems(2) by (cases i) auto
  have "\<forall>j < n. \<not> at_rest (mic_read env mic (Suc k + j) ''state'')"
    using Suc.prems(1) by auto
  moreover have "at_rest (mic_read env mic (Suc k + n) ''state'')" using Suc.prems(3) by simp
  ultimately have "reset_loop env mic i' (Suc k) = (replicate n ActSleep, Suc k + n + 1)"
    using Suc.IH i(2) by blast
  moreover have "\<not> at_rest (mic_read env mic k ''state'')" using Suc.prems(1) by force
  ultimately show ?case using i(1) by (simp add: at_rest_def)
qed

lemma reset_loop_bounded:
  "reset_loop env mic i k = (acts, k') \<Longrightarrow> set acts \<subseteq> {ActSleep} \<and> length acts \<le> i"
  by (induction env mic i k arbitrary: acts k' rule: reset_loop.induct)
    (auto split: if_splits prod.splits)

lemma shutdown_loop_nops:
  assumes "\<forall>j < m. mic_read env mic (k + j) ''shutdown_status'' = Some ''nop''" and "m < i"
    and "mic_read env mic (k + m) ''shutdown_status'' = Some ''restart''"
  shows "shutdown_loop env mic i k acts =
     Some (Returned (mic\<lparr>restart := True\<rparr>, acts @ replicate m ActSleep, k + m + 1))"
  using assms
proof (induction m arbitrary: i k acts)
  case 0
  then show ?case by (subst shutdown_loop.simps) (simp add: get_mic_shutdown_status_def)
next
  case (Suc m)
  have "\<forall>j < m. mic_read env mic (Suc k + j) ''shutdown_status'' = Some ''nop''" using Suc.prems(1) by auto
  moreover have "mic_read env mic (Suc k + m) ''shutdown_status'' = Some ''restart''"
    using Suc.prems(3) by simp
  ultimately have "shutdown_loop env mic (i - 1) (Suc k) (acts @ [ActSleep]) =
      Some (Returned (mic\<lparr>restart := True\<rparr>, (acts @ [ActSleep]) @ replicate m ActSleep, Suc k + m + 1))"
    using Suc.IH Suc.prems(2) by simp
  moreover have "mic_read env mic k ''shutdown_status'' = Some ''nop''" using Suc.prems(1) by force
  ultimately show ?case
    using Suc.prems(2) by (subst shutdown_loop.simps) (simp add: get_mic_shutdown_status_def)
qed

text \<open>
  C11. A card that asks for a restart is started again: from the turn in which the card is seen
  shutting down, when within 60 answers the shutdown status becomes \<open>restart\<close>, the
  process of the card can be ended and within 120 reads the card is at rest, the thread waits,
  ends that process, resets the card, closes its file, forks anew, boots the card and has it
  followed by a new thread, with the request cleared.
\<close>
theorem restart_request_boots:
  assumes "0 \<le> fd" and "0 \<le> t_lseek t" and "0 \<le> t_read t"
    and "mic_read env mic k ''state'' = Some ''shutting_down''"
    and "\<forall>j < m. mic_read env mic (k + 1 + j) ''shutdown_status'' = Some ''nop''" and "m < 60"
    and "mic_read env mic (k + 1 + m) ''shutdown_status'' = Some ''restart''"
    and "e_kill env (k + m + 2) = 0" and "e_wait env (k + m + 2) = mic_pid mic"
    and "\<forall>j < n. \<not> at_rest (mic_read env mic (k + m + 2 + j) ''state'')" and "n < 120"
    and "at_rest (mic_read env mic (k + m + 2 + n) ''state'')"
    and "0 < i_fork ans" and "i_thread ans ConfigThread = 0"
  shows "mic_config abi env fd [t] ans mic k =
     (Some (Returned (Inr (InitParent (mic\<lparr>mic_pid := i_fork ans, restart := False\<rparr>)
          [ActIgnoreUsr1, ActSet ''state'' ''boot'', ActThread ConfigThread], k + m + n + 3))),
      replicate m ActSleep @ [ActKill (mic_pid mic), ActWait (mic_pid mic), ActSet ''state'' ''reset'']
        @ replicate n ActSleep @ [ActClose])"
proof -
  let ?mic = "mic\<lparr>restart := True\<rparr>"
  have loop: "shutdown_loop env mic SHUTDOWN_TIMEOUT (k + 1) [] =
      Some (Returned (?mic, replicate m ActSleep, k + m + 2))"
    using shutdown_loop_nops [of m env mic "k + 1" SHUTDOWN_TIMEOUT "[]"] assms(5-7)
    by (simp add: SHUTDOWN_TIMEOUT_def)
  have "reset_loop env ?mic RESET_TIMEOUT (k + m + 2) = (replicate n ActSleep, k + m + 2 + n + 1)"
    using reset_loop_waits [of n env ?mic "k + m + 2" RESET_TIMEOUT] assms(10-12)
    by (simp add: RESET_TIMEOUT_def)
  then have "reset env ?mic (k + m + 2) =
      (ActSet ''state'' ''reset'' # replicate n ActSleep, k + m + n + 3)"
    by (simp add: reset_def)
  then have kill: "shutdown_kill env ?mic (replicate m ActSleep) (k + m + 2) =
      (replicate m ActSleep @ [ActKill (mic_pid mic), ActWait (mic_pid mic), ActSet ''state'' ''reset'']
        @ replicate n ActSleep, k + m + n + 3)"
    using assms(8,9) by (simp add: shutdown_kill_def)
  have "read_state env mic k = Some (''shutting_down'', k + 1)"
    using assms(4) by (simp add: read_state.simps [of env mic k])
  then have "config_turn env t mic k = Some (Returned (CfgEnd ?mic
      (replicate m ActSleep @ [ActKill (mic_pid mic), ActWait (mic_pid mic), ActSet ''state'' ''reset'']
        @ replicate n ActSleep) (k + m + n + 3)))"
    using assms(2,3) loop kill
    by (simp add: config_turn_def get_mic_state_def config_end_def mic_handle_shutdown_def)
  with assms(1,13,14) show ?thesis
    by (simp add: mic_config_def init_mic_def Let_def)
qed

definition sysfs_says :: "string \<Rightarrow> sysfs_read_ans" where
  "sysfs_says s = \<lparr>r_open = Inr 3, r_read = Inr (s @ [newline]), r_malloc = True\<rparr>"

definition sample_env :: "string list \<Rightarrow> int \<Rightarrow> mic_env" where
  "sample_env ss pid = \<lparr>e_strerror = (\<lambda>_. []),
     e_read = (\<lambda>k. if k < length ss then sysfs_says (ss ! k) else \<lparr>r_open = Inl 5, r_read = Inl 5, r_malloc = False\<rparr>),
     e_kill = (\<lambda>_. 0), e_wait = (\<lambda>_. pid)\<rparr>"

lemma mic_read_sample:
  assumes "k < length ss" and "ss ! k \<in> {''shutting_down'', ''nop'', ''restart'', ''online'', ''offline''}"
  shows "mic_read (sample_env ss pid) mic k entry = Some (ss ! k)"
  using assms
  by (auto simp: mic_read_def readsysfs_def sample_env_def sysfs_says_def c_str_def MIC_PAGE_SIZE_def
      Let_def)

definition sample_init :: init_ans where
  "sample_init = \<lparr>i_fork = 9, i_map = \<lparr>map_open = False, map_lseek = False, map_mmap = False, map_text = []\<rparr>,
     i_open = (\<lambda>_. 4), i_ioctl = (\<lambda>_. 0), i_thread = (\<lambda>_. 0), i_sigaction = 0\<rparr>"

theorem restart_request_boots_witness:
  "mic_config sample_abi (sample_env [''shutting_down'', ''nop'', ''restart'', ''online'', ''offline''] 7) 3
       [\<lparr>t_lseek = 0, t_read = 14, t_poll = 1\<rparr>] sample_init sample_mic 0 =
     (Some (Returned (Inr (InitParent (sample_mic\<lparr>mic_pid := 9, restart := False\<rparr>)
          [ActIgnoreUsr1, ActSet ''state'' ''boot'', ActThread ConfigThread], 5))),
      [ActSleep, ActKill 7, ActWait 7, ActSet ''state'' ''reset'', ActSleep, ActClose])"
proof -
  let ?ss = "[''shutting_down'', ''nop'', ''restart'', ''online'', ''offline'']"
  note r = mic_read_sample [of _ ?ss 7 sample_mic]
  have s: "e_kill (sample_env ?ss 7) i = 0" "e_wait (sample_env ?ss 7) i = 7" for i
    by (simp_all add: sample_env_def)
  have p: "mic_pid sample_mic = 7" "i_fork sample_init = 9" "i_thread sample_init ConfigThread = 0"
    by (simp_all add: sample_mic_def sample_init_def)
  have "mic_config sample_abi (sample_env ?ss 7) 3 [\<lparr>t_lseek = 0, t_read = 14, t_poll = 1\<rparr>] sample_init sample_mic 0 =
     (Some (Returned (Inr (InitParent (sample_mic\<lparr>mic_pid := i_fork sample_init, restart := False\<rparr>)
          [ActIgnoreUsr1, ActSet ''state'' ''boot'', ActThread ConfigThread], 0 + 1 + 1 + 3))),
      replicate 1 ActSleep @ [ActKill (mic_pid sample_mic), ActWait (mic_pid sample_mic), ActSet ''state'' ''reset'']
        @ replicate 1 ActSleep @ [ActClose])"
    by (rule restart_request_boots) (simp_all add: r s p at_rest_def)
  then show ?thesis by (simp add: p)
qed


section \<open>The life of a card\<close>

text \<open>
  The steps of the thread that follows a card: a turn of its loop; the end of the thread, after
  which \<open>init_mic\<close> starts another one; or the end without a successor, when the fork or
  the creation of the thread fails.
\<close>

datatype card_phase = Followed mic_info nat | Lost mic_info

inductive card_step :: "virtio_abi \<Rightarrow> mic_env \<Rightarrow> card_phase \<Rightarrow> mic_act list \<Rightarrow> card_phase \<Rightarrow> bool"
  for abi env where
  turn: "config_turn env t mic k = Some (Returned (CfgNext mic' acts k')) \<Longrightarrow>
     card_step abi env (Followed mic k) acts (Followed mic' k')"
| again: "config_turn env t mic k = Some (Returned (CfgEnd mic1 acts k')) \<Longrightarrow>
     init_mic abi ans mic1 = Some (InitParent mic' acts') \<Longrightarrow> ActThread ConfigThread \<in> set acts' \<Longrightarrow>
     card_step abi env (Followed mic k) (acts @ ActClose # acts') (Followed mic' k')"
| no_thread: "config_turn env t mic k = Some (Returned (CfgEnd mic1 acts k')) \<Longrightarrow>
     init_mic abi ans mic1 = Some (InitParent mic' acts') \<Longrightarrow> ActThread ConfigThread \<notin> set acts' \<Longrightarrow>
     card_step abi env (Followed mic k) (acts @ ActClose # acts') (Lost mic')"
| no_fork: "config_turn env t mic k = Some (Returned (CfgEnd mic1 acts k')) \<Longrightarrow>
     init_mic abi ans mic1 = Some (InitFailed mic' acts') \<Longrightarrow>
     card_step abi env (Followed mic k) (acts @ ActClose # acts') (Lost mic')"

inductive_cases card_step_elim: "card_step abi env (Followed mic k) acts p"
inductive_simps card_step_lost [simp]: "card_step abi env (Lost mic) acts p"

inductive card_run :: "virtio_abi \<Rightarrow> mic_env \<Rightarrow> card_phase \<Rightarrow> mic_act list \<Rightarrow> card_phase \<Rightarrow> bool"
  for abi env p where
  start: "card_run abi env p [] p"
| more: "card_run abi env p acts q \<Longrightarrow> card_step abi env q acts' r \<Longrightarrow> card_run abi env p (acts @ acts') r"

definition boot_write :: mic_act where "boot_write = ActSet ''state'' ''boot''"

text \<open>What a shutdown leaves of the card: its name, and a restart request if there was one.\<close>

lemma shutdown_loop_mic:
  assumes "shutdown_loop env mic i k acts = Some (Returned (mic', acts', k'))"
  shows "(mic' = mic \<or> mic' = mic\<lparr>restart := True\<rparr> \<and> (\<exists>m. mic_read env mic m ''shutdown_status'' = Some ''restart''))
     \<and> set acts' \<subseteq> set acts \<union> {ActSleep}"
proof -
  have "shutdown_loop env mic i k acts = Some y \<Longrightarrow> y = Returned (mic', acts', k') \<Longrightarrow> ?thesis" for y
  proof (induction arbitrary: mic' acts' k'
      rule: shutdown_loop.raw_induct [rotated, consumes 1, case_names step])
    case (step f env mic i k acts y)
    then show ?case
      by (fastforce simp: get_mic_shutdown_status_def split: if_splits option.splits mic_status.splits)
  qed
  with assms show ?thesis by blast
qed

lemma shutdown_kill_acts:
  "shutdown_kill env mic acts k = (acts', k') \<Longrightarrow> boot_write \<notin> set acts \<Longrightarrow> boot_write \<notin> set acts'"
proof -
  assume a: "shutdown_kill env mic acts k = (acts', k')" "boot_write \<notin> set acts"
  obtain ra rk where r: "reset_loop env mic RESET_TIMEOUT k = (ra, rk)" by fastforce
  have "boot_write \<notin> set ra" using reset_loop_bounded [OF r] by (auto simp: boot_write_def)
  with a r show ?thesis
    by (auto simp: shutdown_kill_def reset_def boot_write_def Let_def split: if_splits)
qed

lemma mic_handle_shutdown_mic:
  assumes "mic_handle_shutdown env mic k = Some (Returned (mic', acts, k'))"
  shows "(mic' = mic \<or> mic' = mic\<lparr>restart := True\<rparr> \<and> (\<exists>m. mic_read env mic m ''shutdown_status'' = Some ''restart''))
     \<and> boot_write \<notin> set acts"
proof -
  obtain a1 k1 where l: "shutdown_loop env mic SHUTDOWN_TIMEOUT k [] = Some (Returned (mic', a1, k1))"
    and s: "shutdown_kill env mic' a1 k1 = (acts, k')"
    using assms by (auto simp: mic_handle_shutdown_def split: option.splits cres.splits)
  from shutdown_loop_mic [OF l] have "boot_write \<notin> set a1" by (auto simp: boot_write_def)
  with shutdown_loop_mic [OF l] shutdown_kill_acts [OF s] show ?thesis by blast
qed

lemma read_state_reads: "read_state env mic k = Some (s, k') \<Longrightarrow> \<exists>m. mic_read env mic m ''state'' = Some s"
proof -
  have "read_state env mic k = Some y \<Longrightarrow> \<exists>m. mic_read env mic m ''state'' = Some (fst y)" for y
    by (induction rule: read_state.raw_induct [rotated, consumes 1, case_names step])
      (auto split: option.splits)
  then show "read_state env mic k = Some (s, k') \<Longrightarrow> \<exists>m. mic_read env mic m ''state'' = Some s" by fastforce
qed

text \<open>A card that never asks for a restart and never suspends.\<close>

definition asks_nothing :: "mic_env \<Rightarrow> mic_info \<Rightarrow> bool" where
  "asks_nothing env mic \<longleftrightarrow> (\<forall>m. mic_read env mic m ''shutdown_status'' \<noteq> Some ''restart''
     \<and> mic_read env mic m ''state'' \<noteq> Some ''suspending'')"

fun quiet :: "mic_env \<Rightarrow> card_phase \<Rightarrow> bool" where
  "quiet env (Followed mic k) \<longleftrightarrow> asks_nothing env mic \<and> \<not> restart mic \<and> \<not> boot_on_resume mic"
| "quiet env (Lost mic) \<longleftrightarrow> True"

lemma config_turn_quiet:
  assumes "config_turn env t mic k = Some (Returned r)" and "quiet env (Followed mic k)"
    and "r = CfgNext mic' acts k' \<or> r = CfgEnd mic' acts k'"
  shows "mic' = mic \<and> boot_write \<notin> set acts"
proof (cases "t_lseek t < 0 \<or> t_read t < 0")
  case True
  with assms show ?thesis by (auto simp: config_turn_def)
next
  case False
  then obtain s k1 where r: "read_state env mic k = Some (s, k1)"
    using assms(1) by (auto simp: config_turn_def split: option.splits)
  have "s \<noteq> ''suspending''" using read_state_reads [OF r] assms(2) by (auto simp: asks_nothing_def)
  with assms False r show ?thesis
    by (auto simp: config_turn_def get_mic_state_def config_end_def config_poll_def asks_nothing_def
        dest: mic_handle_shutdown_mic split: if_splits option.splits cres.splits)
qed

lemma init_mic_quiet:
  assumes "init_mic abi ans mic = Some r" and "\<not> restart mic"
    and "r = InitParent mic' acts \<or> r = InitFailed mic' acts"
  shows "mic' = mic\<lparr>mic_pid := i_fork ans\<rparr> \<and> boot_write \<notin> set acts"
  using assms by (auto simp: init_mic_def boot_write_def Let_def split: if_splits)

lemma mic_read_pid [simp]: "mic_read env (mic\<lparr>mic_pid := p\<rparr>) = mic_read env mic"
  by (auto simp: mic_read_def fun_eq_iff)

lemma card_step_quiet:
  assumes "card_step abi env p acts q" and "quiet env p"
  shows "quiet env q \<and> boot_write \<notin> set acts"
  using assms
proof (cases rule: card_step.cases)
  case (turn t mic k mic' k')
  with assms(2) config_turn_quiet [OF turn(3)] show ?thesis by auto
next
  case (again t mic k mic1 acts1 k' ans mic' acts2)
  have "mic1 = mic \<and> boot_write \<notin> set acts1" using config_turn_quiet [OF again(4)] assms(2) again(1) by auto
  with again assms(2) init_mic_quiet [OF again(5)] show ?thesis
    by (auto simp: asks_nothing_def boot_write_def)
next
  case (no_thread t mic k mic1 acts1 k' ans mic' acts2)
  have "mic1 = mic \<and> boot_write \<notin> set acts1" using config_turn_quiet [OF no_thread(4)] assms(2) no_thread(1) by auto
  with no_thread assms(2) init_mic_quiet [OF no_thread(5)] show ?thesis by (auto simp: boot_write_def)
next
  case (no_fork t mic k mic1 acts1 k' ans mic' acts2)
  have "mic1 = mic \<and> boot_write \<notin> set acts1" using config_turn_quiet [OF no_fork(4)] assms(2) no_fork(1) by auto
  with no_fork assms(2) init_mic_quiet [OF no_fork(5)] show ?thesis by (auto simp: boot_write_def)
qed

text \<open>
  C23. The daemon boots no card on its own: in every run of the threads that follow a card, over
  any number of shutdowns and new starts, \<open>boot\<close> is written to the state of the card only
  if the card once asked for a restart or once suspended.
\<close>
theorem no_boot_without_request:
  assumes "card_run abi env (Followed mic k) acts p" and "\<not> restart mic" and "\<not> boot_on_resume mic"
    and "\<forall>m. mic_read env mic m ''shutdown_status'' \<noteq> Some ''restart''"
    and "\<forall>m. mic_read env mic m ''state'' \<noteq> Some ''suspending''"
  shows "ActSet ''state'' ''boot'' \<notin> set acts"
proof -
  have "quiet env p \<and> boot_write \<notin> set acts"
    using assms(1)
  proof (induction rule: card_run.induct)
    case start
    show ?case using assms(2-5) by (simp add: asks_nothing_def)
  next
    case (more acts q acts' r)
    then show ?case using card_step_quiet by auto
  qed
  then show ?thesis by (simp add: boot_write_def)
qed

theorem no_boot_without_request_witness:
  "\<exists>acts mic. card_run sample_abi (sample_env [''shutting_down'', ''nop''] 7) (Followed sample_mic 0) acts (Followed mic 0)
     \<and> ActSet ''state'' ''boot'' \<notin> set acts"
proof -
  let ?env = "sample_env [''shutting_down'', ''nop''] 7"
  have "config_turn ?env \<lparr>t_lseek = -1, t_read = 0, t_poll = 0\<rparr> sample_mic 0 =
      Some (Returned (CfgEnd sample_mic [] 0))"
    by (simp add: config_turn_def)
  moreover have "init_mic sample_abi sample_init sample_mic =
      Some (InitParent (sample_mic\<lparr>mic_pid := 9\<rparr>) [ActIgnoreUsr1, ActThread ConfigThread])"
    by (simp add: init_mic_def sample_init_def sample_mic_def)
  ultimately have "card_step sample_abi ?env (Followed sample_mic 0)
      ([] @ ActClose # [ActIgnoreUsr1, ActThread ConfigThread]) (Followed (sample_mic\<lparr>mic_pid := 9\<rparr>) 0)"
    by (rule card_step.again) simp
  from card_run.more [OF card_run.start this]
  have run: "card_run sample_abi ?env (Followed sample_mic 0)
      [ActClose, ActIgnoreUsr1, ActThread ConfigThread] (Followed (sample_mic\<lparr>mic_pid := 9\<rparr>) 0)"
    by simp
  have read: "mic_read ?env sample_mic m entry \<in> {None, Some ''shutting_down'', Some ''nop''}" for m entry
    using mic_read_sample [of m "[''shutting_down'', ''nop'']" 7 sample_mic entry]
    by (cases "m < 2")
      (auto simp: less_2_cases_iff mic_read_def readsysfs_def sample_env_def Let_def)
  have "mic_read ?env sample_mic m ''shutdown_status'' \<noteq> Some ''restart''" for m
    using read [of m "''shutdown_status''"] by auto
  moreover have "mic_read ?env sample_mic m ''state'' \<noteq> Some ''suspending''" for m
    using read [of m "''state''"] by auto
  ultimately have "ActSet ''state'' ''boot'' \<notin> set [ActClose, ActIgnoreUsr1, ActThread ConfigThread]"
    using no_boot_without_request [OF run] by (simp add: sample_mic_def)
  with run show ?thesis by blast
qed

text \<open>
  A card that suspends is booted once it is offline again: the turn that sees it suspending
  sets the request, which survives the new start, and the first turn that sees the card offline
  writes \<open>boot\<close> and clears the request.
\<close>

lemma suspending_turn_requests_boot:
  assumes "config_turn env t mic k = Some (Returned (CfgEnd mic1 acts k1))"
    and "0 \<le> t_lseek t" and "0 \<le> t_read t" and "mic_read env mic k ''state'' = Some ''suspending''"
    and "init_mic abi ans mic1 = Some (InitParent mic2 acts2)"
  shows "boot_on_resume mic2 \<and> hd acts = ActSet ''state'' ''suspend''"
proof -
  have r: "read_state env mic k = Some (''suspending'', Suc k)"
    using assms(4) by (simp add: read_state.simps [of env mic k])
  obtain acts' where h: "mic_handle_shutdown env (mic\<lparr>boot_on_resume := True\<rparr>) (Suc k) =
      Some (Returned (mic1, acts', k1))" and a: "acts = ActSet ''state'' ''suspend'' # acts'"
    using assms(1-3) r
    by (auto simp: config_turn_def get_mic_state_def config_end_def split: option.splits cres.splits)
  from mic_handle_shutdown_mic [OF h] have "boot_on_resume mic1" by auto
  with assms(5) a show ?thesis by (auto simp: init_mic_def Let_def split: if_splits)
qed

lemma offline_turn_boots:
  assumes "boot_on_resume mic" and "0 \<le> t_lseek t" and "0 \<le> t_read t" and "0 \<le> t_poll t"
    and "mic_read env mic k ''state'' = Some ''offline''"
  shows "config_turn env t mic k =
     Some (Returned (CfgNext (mic\<lparr>boot_on_resume := False\<rparr>) [ActSet ''state'' ''boot''] (Suc k)))"
  using assms
  by (simp add: config_turn_def read_state.simps [of env mic k] get_mic_state_def config_poll_def)

section \<open>What the card and the daemon are told\<close>

lemma strstr_first:
  assumes "take (length p) (drop n s) = p" and "\<forall>i < n. take (length p) (drop i s) \<noteq> p" and "n \<le> length s"
  shows "strstr s p = Some n"
  using assms
proof (induction n arbitrary: s)
  case 0
  then show ?case by (simp add: strstr.simps [of s])
next
  case (Suc n)
  then obtain c cs where s: "s = c # cs" by (cases s) auto
  have "strstr cs p = Some n" using Suc.prems s by (intro Suc.IH) auto
  moreover have "take (length p) s \<noteq> p" using Suc.prems(2) by (metis drop_0 zero_less_Suc)
  ultimately show ?case using s by (simp add: strstr.simps [of "c # cs"])
qed

text \<open>A line of \<open>System.map\<close>: 16 digits, a type between spaces, the name.\<close>

definition map_line_at :: "string \<Rightarrow> string \<Rightarrow> string \<Rightarrow> bool" where
  "map_line_at text addr name \<longleftrightarrow>
     length addr = 16 \<and> (\<exists>pre t post. text = pre @ addr @ [CHR '' '', t, CHR '' ''] @ name @ post
       \<and> (\<forall>i < length pre + 19. take (length name) (drop i text) \<noteq> name))"

lemma map_line_atI:
  assumes "length addr = 16" and "text = pre @ addr @ [CHR '' '', t, CHR '' ''] @ name @ post"
    and "list_all (\<lambda>i. take (length name) (drop i text) \<noteq> name) [0..<length pre + 19]"
  shows "map_line_at text addr name"
  unfolding map_line_at_def
proof (rule conjI [OF assms(1)], rule exI [of _ pre], rule exI [of _ t], rule exI [of _ post],
    rule conjI [OF assms(2)])
  show "\<forall>i < length pre + 19. take (length name) (drop i text) \<noteq> name"
    using assms(3) by (simp add: list_all_iff)
qed

lemma map_line_found:
  assumes "map_line_at text addr name" and "CHR 0x00 \<notin> set text"
  shows "\<exists>p. map_find text name = Some (Some p) \<and> log_buf_copy text p = Some addr"
proof -
  obtain pre t post where eq: "text = pre @ addr @ [CHR '' '', t, CHR '' ''] @ name @ post"
    and first: "\<forall>i < length pre + 19. take (length name) (drop i text) \<noteq> name" and len: "length addr = 16"
    using assms(1) by (auto simp: map_line_at_def)
  have "takeWhile (\<lambda>c. c \<noteq> CHR 0x00) text = text" using assms(2) by (auto simp: takeWhile_eq_all_conv)
  then have "c_str text = text" by (simp add: c_str_def)
  moreover have "strstr text name = Some (length pre + 19)"
    using first by (intro strstr_first) (simp_all add: eq len)
  ultimately have "map_find text name = Some (Some (length pre + 19))" by (simp add: map_find_def)
  moreover have "log_buf_copy text (length pre + 19) = Some addr"
    by (simp add: log_buf_copy_def eq len)
  ultimately show ?thesis by blast
qed

text \<open>
  The log buffer announced to the driver: when the first mention of \<open>__log_buf\<close> in
  \<open>System.map\<close> and the first mention of \<open>log_buf_len\<close> are symbol lines, the 16 digits
  in front of them are written to \<open>log_buf_addr\<close> and \<open>log_buf_len\<close>, and the file is
  unmapped and closed.
\<close>
theorem set_log_buf_info_symbols:
  assumes "map_open ans" and "map_lseek ans" and "map_mmap ans" and "CHR 0x00 \<notin> set (map_text ans)"
    and "map_line_at (map_text ans) addr ''__log_buf''" and "map_line_at (map_text ans) len ''log_buf_len''"
  shows "\<exists>tr. set_log_buf_info ans = Some ([ActSet ''log_buf_addr'' addr, ActSet ''log_buf_len'' len], tr)
     \<and> run_ev {} tr = Some {}"
  using assms(1-3) map_line_found [OF assms(5,4)] map_line_found [OF assms(6,4)]
  by (auto simp: set_log_buf_info_def Let_def)

definition sample_map :: string where
  "sample_map = ''ffffffff81e2b1a0 b __log_buf'' @ [newline] @ ''ffffffff81c3f0c8 d log_buf_len'' @ [newline]"

lemma sample_map_lines:
  "map_line_at sample_map ''ffffffff81e2b1a0'' ''__log_buf''"
  "map_line_at sample_map ''ffffffff81c3f0c8'' ''log_buf_len''"
  by (rule map_line_atI [where pre = "[]" and t = "CHR ''b''"
        and post = "[newline] @ ''ffffffff81c3f0c8 d log_buf_len'' @ [newline]"], code_simp, code_simp, code_simp)
    (rule map_line_atI [where pre = "''ffffffff81e2b1a0 b __log_buf'' @ [newline]" and t = "CHR ''d''"
        and post = "[newline]"], code_simp, code_simp, code_simp)

theorem set_log_buf_info_symbols_witness:
  "\<exists>tr. set_log_buf_info \<lparr>map_open = True, map_lseek = True, map_mmap = True, map_text = sample_map\<rparr> =
       Some ([ActSet ''log_buf_addr'' ''ffffffff81e2b1a0'', ActSet ''log_buf_len'' ''ffffffff81c3f0c8''], tr)
     \<and> run_ev {} tr = Some {}"
  by (rule set_log_buf_info_symbols) (simp_all add: sample_map_lines, simp add: sample_map_def)

lemma set_cmdline_whole:
  assumes "\<bar>mic_id mic\<bar> < 2 ^ 31"
  shows "set_cmdline mic = [ActSet ''cmdline'' (''clocksource=tsc highres=off nohz=off ''
     @ ''cpufreq_on;corec6_off;pc3_off;pc6_off '' @ ''ifcfg=static;address,172.31.''
     @ show_int (mic_id mic) @ ''.1;netmask,255.255.255.0'')]"
proof -
  have d: "length (show_nat n) \<le> j" if "n < 10 ^ j" "0 < j" for n j
    using that
  proof (induction j arbitrary: n)
    case (Suc j)
    show ?case
    proof (cases "n < 10")
      case False
      with Suc.prems have "0 < j" by (cases j) auto
      moreover have "n div 10 < 10 ^ j" using Suc.prems by (simp add: less_mult_imp_div_less mult.commute)
      ultimately show ?thesis using Suc.IH [of "n div 10"] False by (simp add: show_base.simps [of 10 n])
    qed (simp add: show_base.simps [of 10 n])
  qed simp
  have "nat \<bar>mic_id mic\<bar> < 10 ^ 10" using assms by simp
  then have "length (show_int (mic_id mic)) \<le> 11"
    using d [of "nat \<bar>mic_id mic\<bar>" 10] by (auto simp: show_int_def)
  then show ?thesis by (simp add: set_cmdline_def snprintf_def PATH_MAX_def Let_def)
qed

text \<open>
  The cards found: when every entry of the class directory that begins with \<open>mic\<close>
  is \<open>mic\<close> followed by a number and memory suffices, the list holds one card for each of
  these entries, in the order of the directory, whose name is the entry and whose id is its
  number.
\<close>
theorem init_mic_list_cards:
  assumes "\<forall>e \<in> set es. d_calloc e \<and> d_malloc e
     \<and> (take 3 (d_name e) = ''mic'' \<longrightarrow> (\<exists>n < 2 ^ 31. d_name e = ''mic'' @ show_nat n))"
  shows "\<exists>mics. init_mic_list (Some es) = Some (mics, length mics)
     \<and> map mic_name mics = map (\<lambda>e. Some (d_name e)) (filter (\<lambda>e. take 3 (d_name e) = ''mic'') es)
     \<and> (\<forall>mic \<in> set mics. mic_name mic = Some (''mic'' @ show_int (mic_id mic)))"
proof -
  have "\<exists>mics. mic_entries es = Some mics
     \<and> map mic_name mics = map (\<lambda>e. Some (d_name e)) (filter (\<lambda>e. take 3 (d_name e) = ''mic'') es)
     \<and> (\<forall>mic \<in> set mics. mic_name mic = Some (''mic'' @ show_int (mic_id mic)))"
    using assms
  proof (induction es)
    case (Cons e es)
    then obtain mics where m: "mic_entries es = Some mics"
      "map mic_name mics = map (\<lambda>e. Some (d_name e)) (filter (\<lambda>e. take 3 (d_name e) = ''mic'') es)"
      "\<forall>mic \<in> set mics. mic_name mic = Some (''mic'' @ show_int (mic_id mic))"
      by auto
    show ?case
    proof (cases "take 3 (d_name e) = ''mic''")
      case True
      then obtain n where n: "n < 2 ^ 31" "d_name e = ''mic'' @ show_nat n" using Cons.prems by auto
      with m True Cons.prems atoi_show_nat [OF n(1)] show ?thesis by (simp add: show_int_def)
    qed (use m in simp)
  qed simp
  then show ?thesis by (auto simp: init_mic_list_def)
qed

theorem init_mic_list_cards_witness:
  "\<exists>mics. init_mic_list (Some [\<lparr>d_name = ''.'', d_calloc = True, d_malloc = True\<rparr>,
       \<lparr>d_name = ''mic1'', d_calloc = True, d_malloc = True\<rparr>]) = Some (mics, length mics)
     \<and> map mic_name mics = [Some ''mic1'']
     \<and> (\<forall>mic \<in> set mics. mic_name mic = Some (''mic'' @ show_int (mic_id mic)))"
proof -
  have "\<exists>n < 2 ^ 31. ''mic1'' = ''mic'' @ show_nat n"
    by (rule exI [of _ 1], rule conjI, simp, code_simp)
  then show ?thesis
    using init_mic_list_cards [of "[\<lparr>d_name = ''.'', d_calloc = True, d_malloc = True\<rparr>,
       \<lparr>d_name = ''mic1'', d_calloc = True, d_malloc = True\<rparr>]"] by simp
qed

end
