(* ===== verification/V4l2_Skeleton.thy ===== *)
theory V4l2_Skeleton
  imports Doc_Prelude "HOL-Library.Multiset"
begin

text \<open>
  Model of \<open>src/Documentation/video4linux/v4l2-pci-skeleton.c\<close>, a template for V4L2
  capture drivers: the ioctl handlers, the buffer queue operations, the controls, and probing
  and removing the device. Constants of the V4L2 headers are the record \<open>v4l2_abi\<close>; the
  state of the vb2 framework (whether buffers are allocated, how many, whether \<open>read\<close> is in
  use), the checks of the timings library and the answers of registrations are arguments.
  Handlers return an error or a result, with the new state of the driver. Code under
  \<open>#ifdef TODO\<close> is not part of the driver.
\<close>

record v4l2_abi =
  PIX_FMT_YUYV :: u32
  STD_525_60 :: u64
  STD_625_50 :: u64
  STD_ALL :: u64
  FIELD_NONE :: u32
  FIELD_TOP :: u32
  FIELD_INTERLACED :: u32
  FIELD_ALTERNATE :: u32
  COLORSPACE_SMPTE170M :: u32
  COLORSPACE_REC709 :: u32
  CAP_VIDEO_CAPTURE :: u32
  CAP_READWRITE :: u32
  CAP_STREAMING :: u32
  CAP_DEVICE_CAPS :: u32
  INPUT_TYPE_CAMERA :: u32
  IN_CAP_STD :: u32
  IN_CAP_DV_TIMINGS :: u32
  CID_BRIGHTNESS :: u32
  CID_CONTRAST :: u32
  CID_SATURATION :: u32
  CID_HUE :: u32
  DV_BT_656_1120 :: u32
  DV_BT_STD_CEA861 :: u32
  DV_BT_CAP_INTERLACED :: u32
  DV_BT_CAP_PROGRESSIVE :: u32

datatype v4l2_error = EINVAL | EBUSY | ENODATA | ENOMEM | EOther int

record v4l2_pix_format =
  width :: u32
  height :: u32
  pixelformat :: u32
  pix_field :: u32
  bytesperline :: u32
  sizeimage :: u32
  colorspace :: u32
  pix_priv :: u32

record v4l2_dv_timings =
  bt_width :: u32
  bt_height :: u32
  bt_interlaced :: u32
  bt_rest :: "u32 list"

record v4l2_dv_timings_cap =
  cap_type :: u32
  min_width :: u32
  max_width :: u32
  min_height :: u32
  max_height :: u32
  min_pixelclock :: u64
  max_pixelclock :: u64
  cap_standards :: u32
  capabilities :: u32

record skel_buffer =
  buf_index :: nat
  plane_size :: u64
  payload :: u64

record skeleton =
  std :: u64
  timings :: v4l2_dv_timings
  pix_fmt :: v4l2_pix_format
  input :: u32
  tvnorms :: u64
  buf_list :: "skel_buffer list"
  skel_field :: u32
  sequence :: u32

text \<open>What vb2 knows of the queue, and the library of timings.\<close>

record vb2_queue =
  vb2_is_busy :: bool
  num_buffers :: u32
  fileio_is_active :: bool

record dv_library =
  valid_dv_timings :: "v4l2_dv_timings \<Rightarrow> v4l2_dv_timings_cap \<Rightarrow> bool"
  find_dv_timings_cap :: "v4l2_dv_timings \<Rightarrow> v4l2_dv_timings_cap \<Rightarrow> v4l2_dv_timings option"
  match_dv_timings :: "v4l2_dv_timings \<Rightarrow> v4l2_dv_timings \<Rightarrow> bool"
  enum_dv_timings_cap :: "nat \<Rightarrow> v4l2_dv_timings_cap \<Rightarrow> v4l2_error + v4l2_dv_timings"

definition strlcpy :: "nat \<Rightarrow> string \<Rightarrow> string" where
  "strlcpy n s = take (n - 1) s"

definition skel_timings_cap :: "v4l2_abi \<Rightarrow> v4l2_dv_timings_cap" where
  "skel_timings_cap abi = \<lparr>cap_type = DV_BT_656_1120 abi, min_width = 720, max_width = 1920,
     min_height = 480, max_height = 1080, min_pixelclock = 27000000, max_pixelclock = 74250000,
     cap_standards = DV_BT_STD_CEA861 abi,
     capabilities = DV_BT_CAP_INTERLACED abi OR DV_BT_CAP_PROGRESSIVE abi\<rparr>"

definition SKEL_TVNORMS :: "v4l2_abi \<Rightarrow> u64" where "SKEL_TVNORMS abi = STD_ALL abi"

section \<open>The buffer queue\<close>

text \<open>
  \<open>queue_setup\<close> with the size of the caller's format, if there is one: the numbers of
  buffers and planes and the size of the plane.
\<close>

definition queue_setup ::
  "v4l2_abi \<Rightarrow> vb2_queue \<Rightarrow> u32 option \<Rightarrow> u32 \<Rightarrow> skeleton
    \<Rightarrow> (v4l2_error + u32 \<times> nat \<times> u32) \<times> skeleton" where
  "queue_setup abi vq fmt nbuffers skel =
     (let skel1 = skel\<lparr>skel_field := pix_field (pix_fmt skel)\<rparr> in
      if skel_field skel1 = FIELD_ALTERNATE abi \<and> fileio_is_active vq then (Inl EINVAL, skel1)
      else
        let skel2 = (if skel_field skel1 = FIELD_ALTERNATE abi then skel1\<lparr>skel_field := FIELD_TOP abi\<rparr> else skel1);
            nbuffers1 = (if num_buffers vq + nbuffers < 3 then 3 - num_buffers vq else nbuffers)
        in case fmt of
          Some s \<Rightarrow>
            if s < sizeimage (pix_fmt skel) then (Inl EINVAL, skel2) else (Inr (nbuffers1, 1, s), skel2)
        | None \<Rightarrow> (Inr (nbuffers1, 1, sizeimage (pix_fmt skel)), skel2))"

definition buffer_prepare :: "skeleton \<Rightarrow> skel_buffer \<Rightarrow> v4l2_error + skel_buffer" where
  "buffer_prepare skel vb =
     (let sz = (ucast (sizeimage (pix_fmt skel)) :: u64) in
      if plane_size vb < sz then Inl EINVAL else Inr (vb\<lparr>payload := sz\<rparr>))"

definition buffer_queue :: "skel_buffer \<Rightarrow> skeleton \<Rightarrow> skeleton" where
  "buffer_queue vb skel = skel\<lparr>buf_list := buf_list skel @ [vb]\<rparr>"

datatype vb2_buffer_state = BUF_STATE_QUEUED | BUF_STATE_DONE | BUF_STATE_ERROR

text \<open>The buffers given back to vb2 (\<open>vb2_buffer_done\<close>) are part of the result.\<close>

definition return_all_buffers ::
  "vb2_buffer_state \<Rightarrow> skeleton \<Rightarrow> (skel_buffer \<times> vb2_buffer_state) list \<times> skeleton" where
  "return_all_buffers st skel = (map (\<lambda>b. (b, st)) (buf_list skel), skel\<lparr>buf_list := []\<rparr>)"

definition start_streaming ::
  "skeleton \<Rightarrow> int \<times> (skel_buffer \<times> vb2_buffer_state) list \<times> skeleton" where
  "start_streaming skel =
     (let ret = (0 :: int); skel1 = skel\<lparr>sequence := 0\<rparr> in
      if ret \<noteq> 0 then (ret, return_all_buffers BUF_STATE_QUEUED skel1) else (ret, [], skel1))"

definition stop_streaming :: "skeleton \<Rightarrow> (skel_buffer \<times> vb2_buffer_state) list \<times> skeleton" where
  "stop_streaming skel = return_all_buffers BUF_STATE_ERROR skel"

definition skeleton_irq :: "skeleton \<Rightarrow> skeleton" where "skeleton_irq skel = skel"

section \<open>Formats\<close>

definition skeleton_fill_pix_format :: "v4l2_abi \<Rightarrow> skeleton \<Rightarrow> v4l2_pix_format \<Rightarrow> v4l2_pix_format" where
  "skeleton_fill_pix_format abi skel pix =
     (let p1 = pix\<lparr>pixelformat := PIX_FMT_YUYV abi\<rparr>;
          p2 = (if input skel = 0 then
                  p1\<lparr>width := 720, height := (if std skel AND STD_525_60 abi \<noteq> 0 then 480 else 576),
                     pix_field := FIELD_INTERLACED abi, colorspace := COLORSPACE_SMPTE170M abi\<rparr>
                else
                  let q = p1\<lparr>width := bt_width (timings skel), height := bt_height (timings skel)\<rparr>;
                      q1 = (if bt_interlaced (timings skel) \<noteq> 0
                            then q\<lparr>pix_field := FIELD_ALTERNATE abi, height := height q div 2\<rparr>
                            else q\<lparr>pix_field := FIELD_NONE abi\<rparr>)
                  in q1\<lparr>colorspace := COLORSPACE_REC709 abi\<rparr>);
          p3 = p2\<lparr>bytesperline := width p2 * 2\<rparr>
      in p3\<lparr>sizeimage := bytesperline p3 * height p3, pix_priv := 0\<rparr>)"

definition skeleton_try_fmt_vid_cap ::
  "v4l2_abi \<Rightarrow> v4l2_pix_format \<Rightarrow> skeleton \<Rightarrow> v4l2_error + v4l2_pix_format" where
  "skeleton_try_fmt_vid_cap abi pix skel =
     (if pixelformat pix \<noteq> PIX_FMT_YUYV abi then Inl EINVAL
      else Inr (skeleton_fill_pix_format abi skel pix))"

definition skeleton_s_fmt_vid_cap ::
  "v4l2_abi \<Rightarrow> vb2_queue \<Rightarrow> v4l2_pix_format \<Rightarrow> skeleton \<Rightarrow> (v4l2_error + v4l2_pix_format) \<times> skeleton" where
  "skeleton_s_fmt_vid_cap abi vq pix skel =
     (case skeleton_try_fmt_vid_cap abi pix skel of
        Inl e \<Rightarrow> (Inl e, skel)
      | Inr p \<Rightarrow> if vb2_is_busy vq then (Inl EBUSY, skel) else (Inr p, skel\<lparr>pix_fmt := p\<rparr>))"

definition skeleton_g_fmt_vid_cap :: "skeleton \<Rightarrow> v4l2_pix_format" where
  "skeleton_g_fmt_vid_cap skel = pix_fmt skel"

record v4l2_fmtdesc =
  fmt_description :: string
  fmt_pixelformat :: u32
  fmt_flags :: u32

definition skeleton_enum_fmt_vid_cap :: "v4l2_abi \<Rightarrow> u32 \<Rightarrow> v4l2_error + v4l2_fmtdesc" where
  "skeleton_enum_fmt_vid_cap abi index =
     (if index \<noteq> 0 then Inl EINVAL
      else Inr \<lparr>fmt_description = strlcpy 32 ''4:2:2, packed, YUYV'',
                fmt_pixelformat = PIX_FMT_YUYV abi, fmt_flags = 0\<rparr>)"

section \<open>Standards and timings\<close>

definition refill :: "v4l2_abi \<Rightarrow> skeleton \<Rightarrow> skeleton" where
  "refill abi skel = skel\<lparr>pix_fmt := skeleton_fill_pix_format abi skel (pix_fmt skel)\<rparr>"

definition skeleton_s_std ::
  "v4l2_abi \<Rightarrow> vb2_queue \<Rightarrow> u64 \<Rightarrow> skeleton \<Rightarrow> (v4l2_error + unit) \<times> skeleton" where
  "skeleton_s_std abi vq s skel =
     (if input skel \<noteq> 0 then (Inl ENODATA, skel)
      else if s = std skel then (Inr (), skel)
      else if vb2_is_busy vq then (Inl EBUSY, skel)
      else (Inr (), refill abi (skel\<lparr>std := s\<rparr>)))"

definition skeleton_g_std :: "skeleton \<Rightarrow> v4l2_error + u64" where
  "skeleton_g_std skel = (if input skel \<noteq> 0 then Inl ENODATA else Inr (std skel))"

definition skeleton_querystd :: "u64 \<Rightarrow> skeleton \<Rightarrow> v4l2_error + u64" where
  "skeleton_querystd s skel = (if input skel \<noteq> 0 then Inl ENODATA else Inr s)"

definition skeleton_s_dv_timings ::
  "v4l2_abi \<Rightarrow> dv_library \<Rightarrow> vb2_queue \<Rightarrow> v4l2_dv_timings \<Rightarrow> skeleton
    \<Rightarrow> (v4l2_error + v4l2_dv_timings) \<times> skeleton" where
  "skeleton_s_dv_timings abi lib vq t skel =
     (if input skel = 0 then (Inl ENODATA, skel)
      else if \<not> valid_dv_timings lib t (skel_timings_cap abi) then (Inl EINVAL, skel)
      else case find_dv_timings_cap lib t (skel_timings_cap abi) of
        None \<Rightarrow> (Inl EINVAL, skel)
      | Some t1 \<Rightarrow>
          if match_dv_timings lib t1 (timings skel) then (Inr t1, skel)
          else if vb2_is_busy vq then (Inl EBUSY, skel)
          else (Inr t1, refill abi (skel\<lparr>timings := t1\<rparr>)))"

definition skeleton_g_dv_timings :: "skeleton \<Rightarrow> v4l2_error + v4l2_dv_timings" where
  "skeleton_g_dv_timings skel = (if input skel = 0 then Inl ENODATA else Inr (timings skel))"

definition skeleton_enum_dv_timings ::
  "v4l2_abi \<Rightarrow> dv_library \<Rightarrow> nat \<Rightarrow> skeleton \<Rightarrow> v4l2_error + v4l2_dv_timings" where
  "skeleton_enum_dv_timings abi lib index skel =
     (if input skel = 0 then Inl ENODATA else enum_dv_timings_cap lib index (skel_timings_cap abi))"

definition skeleton_query_dv_timings :: "v4l2_dv_timings \<Rightarrow> skeleton \<Rightarrow> v4l2_error + v4l2_dv_timings" where
  "skeleton_query_dv_timings t skel = (if input skel = 0 then Inl ENODATA else Inr t)"

definition skeleton_dv_timings_cap :: "v4l2_abi \<Rightarrow> skeleton \<Rightarrow> v4l2_error + v4l2_dv_timings_cap" where
  "skeleton_dv_timings_cap abi skel = (if input skel = 0 then Inl ENODATA else Inr (skel_timings_cap abi))"

section \<open>Inputs, controls and capabilities\<close>

record v4l2_input =
  in_type :: u32
  in_std :: u64
  in_name :: string
  in_capabilities :: u32

definition skeleton_enum_input :: "v4l2_abi \<Rightarrow> u32 \<Rightarrow> v4l2_error + v4l2_input" where
  "skeleton_enum_input abi index =
     (if index > 1 then Inl EINVAL
      else if index = 0 then
        Inr \<lparr>in_type = INPUT_TYPE_CAMERA abi, in_std = SKEL_TVNORMS abi, in_name = strlcpy 32 ''S-Video'',
             in_capabilities = IN_CAP_STD abi\<rparr>
      else
        Inr \<lparr>in_type = INPUT_TYPE_CAMERA abi, in_std = 0, in_name = strlcpy 32 ''HDMI'',
             in_capabilities = IN_CAP_DV_TIMINGS abi\<rparr>)"

definition skeleton_s_input ::
  "v4l2_abi \<Rightarrow> vb2_queue \<Rightarrow> u32 \<Rightarrow> skeleton \<Rightarrow> (v4l2_error + unit) \<times> skeleton" where
  "skeleton_s_input abi vq i skel =
     (if i > 1 then (Inl EINVAL, skel)
      else if vb2_is_busy vq then (Inl EBUSY, skel)
      else (Inr (), refill abi (skel\<lparr>input := i, tvnorms := (if i \<noteq> 0 then 0 else SKEL_TVNORMS abi)\<rparr>)))"

definition skeleton_g_input :: "skeleton \<Rightarrow> u32" where "skeleton_g_input skel = input skel"

definition skeleton_s_ctrl :: "v4l2_abi \<Rightarrow> u32 \<Rightarrow> v4l2_error + unit" where
  "skeleton_s_ctrl abi cid =
     (if cid = CID_BRIGHTNESS abi then Inr ()
      else if cid = CID_CONTRAST abi then Inr ()
      else if cid = CID_SATURATION abi then Inr ()
      else if cid = CID_HUE abi then Inr ()
      else Inl EINVAL)"

record v4l2_capability =
  cap_driver :: string
  cap_card :: string
  cap_bus_info :: string
  device_caps :: u32
  all_caps :: u32

definition skeleton_querycap :: "v4l2_abi \<Rightarrow> string \<Rightarrow> string \<Rightarrow> v4l2_capability" where
  "skeleton_querycap abi modname pci_name =
     (let caps = CAP_VIDEO_CAPTURE abi OR CAP_READWRITE abi OR CAP_STREAMING abi in
      \<lparr>cap_driver = strlcpy 16 modname, cap_card = strlcpy 32 ''V4L2 PCI Skeleton'',
       cap_bus_info = strlcpy 32 (''PCI:'' @ pci_name), device_caps = caps,
       all_caps = caps OR CAP_DEVICE_CAPS abi\<rparr>)"

section \<open>Dispatch\<close>

text \<open>The calls of \<open>skel_ioctl_ops\<close> that the driver implements itself.\<close>

datatype skel_ioctl =
    QueryCap string string
  | TryFmt v4l2_pix_format | SFmt v4l2_pix_format | GFmt | EnumFmt u32
  | GStd | SStd u64 | QueryStd u64
  | SDvTimings v4l2_dv_timings | GDvTimings | EnumDvTimings nat | QueryDvTimings v4l2_dv_timings | DvTimingsCap
  | EnumInput u32 | GInput | SInput u32

datatype skel_out =
    OutCap v4l2_capability | OutFmt v4l2_pix_format | OutFmtDesc v4l2_fmtdesc | OutStd u64
  | OutTimings v4l2_dv_timings | OutTimingsCap v4l2_dv_timings_cap | OutInput v4l2_input | OutIndex u32 | OutUnit

definition out :: "('a \<Rightarrow> skel_out) \<Rightarrow> v4l2_error + 'a \<Rightarrow> v4l2_error + skel_out" where
  "out f r = (case r of Inl e \<Rightarrow> Inl e | Inr x \<Rightarrow> Inr (f x))"

fun skel_ioctl_ops ::
  "v4l2_abi \<Rightarrow> dv_library \<Rightarrow> vb2_queue \<Rightarrow> skel_ioctl \<Rightarrow> skeleton \<Rightarrow> (v4l2_error + skel_out) \<times> skeleton" where
  "skel_ioctl_ops abi lib vq (QueryCap n p) skel = (Inr (OutCap (skeleton_querycap abi n p)), skel)"
| "skel_ioctl_ops abi lib vq (TryFmt f) skel = (out OutFmt (skeleton_try_fmt_vid_cap abi f skel), skel)"
| "skel_ioctl_ops abi lib vq (SFmt f) skel = apfst (out OutFmt) (skeleton_s_fmt_vid_cap abi vq f skel)"
| "skel_ioctl_ops abi lib vq GFmt skel = (Inr (OutFmt (skeleton_g_fmt_vid_cap skel)), skel)"
| "skel_ioctl_ops abi lib vq (EnumFmt i) skel = (out OutFmtDesc (skeleton_enum_fmt_vid_cap abi i), skel)"
| "skel_ioctl_ops abi lib vq GStd skel = (out OutStd (skeleton_g_std skel), skel)"
| "skel_ioctl_ops abi lib vq (SStd s) skel = apfst (out (\<lambda>_. OutUnit)) (skeleton_s_std abi vq s skel)"
| "skel_ioctl_ops abi lib vq (QueryStd s) skel = (out OutStd (skeleton_querystd s skel), skel)"
| "skel_ioctl_ops abi lib vq (SDvTimings t) skel = apfst (out OutTimings) (skeleton_s_dv_timings abi lib vq t skel)"
| "skel_ioctl_ops abi lib vq GDvTimings skel = (out OutTimings (skeleton_g_dv_timings skel), skel)"
| "skel_ioctl_ops abi lib vq (EnumDvTimings i) skel = (out OutTimings (skeleton_enum_dv_timings abi lib i skel), skel)"
| "skel_ioctl_ops abi lib vq (QueryDvTimings t) skel = (out OutTimings (skeleton_query_dv_timings t skel), skel)"
| "skel_ioctl_ops abi lib vq DvTimingsCap skel = (out OutTimingsCap (skeleton_dv_timings_cap abi skel), skel)"
| "skel_ioctl_ops abi lib vq (EnumInput i) skel = (out OutInput (skeleton_enum_input abi i), skel)"
| "skel_ioctl_ops abi lib vq GInput skel = (Inr (OutIndex (skeleton_g_input skel)), skel)"
| "skel_ioctl_ops abi lib vq (SInput i) skel = apfst (out (\<lambda>_. OutUnit)) (skeleton_s_input abi vq i skel)"

section \<open>Probing and removing\<close>

datatype skel_res = PciEnabled | V4l2Registered | CtrlHandler | AllocCtx | VideoRegistered

record probe_ans =
  p_enable :: int
  p_dma_mask :: int
  p_kzalloc :: bool
  p_irq :: int
  p_v4l2_register :: int
  p_ctrl_error :: int
  p_queue_init :: int
  p_alloc_ctx :: int
  p_video_register :: int

text \<open>
  The controls created: identifier, minimum, maximum, step and default.
\<close>

definition skel_ctrls :: "v4l2_abi \<Rightarrow> (u32 \<times> int \<times> int \<times> int \<times> int) list" where
  "skel_ctrls abi = [(CID_BRIGHTNESS abi, 0, 255, 1, 127), (CID_CONTRAST abi, 0, 255, 1, 16),
     (CID_SATURATION abi, 0, 255, 1, 127), (CID_HUE abi, -128, 127, 1, 0)]"

definition initial_skeleton :: "v4l2_abi \<Rightarrow> v4l2_dv_timings \<Rightarrow> skeleton" where
  "initial_skeleton abi timings_def =
     (let zero = \<lparr>width = 0, height = 0, pixelformat = 0, pix_field = 0, bytesperline = 0, sizeimage = 0,
                  colorspace = 0, pix_priv = 0\<rparr>
      in refill abi \<lparr>std = STD_625_50 abi, timings = timings_def, pix_fmt = zero, input = 0,
           tvnorms = SKEL_TVNORMS abi, buf_list = [], skel_field = 0, sequence = 0\<rparr>)"

definition skeleton_probe ::
  "v4l2_abi \<Rightarrow> v4l2_dv_timings \<Rightarrow> probe_ans \<Rightarrow> (int + skeleton) \<times> skel_res ev list" where
  "skeleton_probe abi timings_def a =
     (let free_hdl = [Rel CtrlHandler, Rel V4l2Registered, Rel PciEnabled] in
      if p_enable a \<noteq> 0 then (Inl (p_enable a), [])
      else if p_dma_mask a \<noteq> 0 then (Inl (p_dma_mask a), [Acq PciEnabled, Rel PciEnabled])
      else if \<not> p_kzalloc a then (Inl (- 12), [Acq PciEnabled])
      else if p_irq a \<noteq> 0 then (Inl (p_irq a), [Acq PciEnabled, Rel PciEnabled])
      else if p_v4l2_register a \<noteq> 0 then (Inl (p_v4l2_register a), [Acq PciEnabled, Rel PciEnabled])
      else if p_ctrl_error a \<noteq> 0 then
        (Inl (p_ctrl_error a), [Acq PciEnabled, Acq V4l2Registered, Acq CtrlHandler] @ free_hdl)
      else if p_queue_init a \<noteq> 0 then
        (Inl (p_queue_init a), [Acq PciEnabled, Acq V4l2Registered, Acq CtrlHandler] @ free_hdl)
      else if p_alloc_ctx a \<noteq> 0 then
        (Inl (p_alloc_ctx a), [Acq PciEnabled, Acq V4l2Registered, Acq CtrlHandler] @ free_hdl)
      else if p_video_register a \<noteq> 0 then
        (Inl (p_video_register a),
         [Acq PciEnabled, Acq V4l2Registered, Acq CtrlHandler, Acq AllocCtx, Rel AllocCtx] @ free_hdl)
      else
        (Inr (initial_skeleton abi timings_def),
         [Acq PciEnabled, Acq V4l2Registered, Acq CtrlHandler, Acq AllocCtx, Acq VideoRegistered]))"

definition skeleton_remove :: "skel_res ev list" where
  "skeleton_remove = [Rel VideoRegistered, Rel CtrlHandler, Rel AllocCtx, Rel V4l2Registered, Rel PciEnabled]"

section \<open>The format always fits the input\<close>

definition within :: "v4l2_dv_timings_cap \<Rightarrow> v4l2_dv_timings \<Rightarrow> bool" where
  "within cap t \<longleftrightarrow> min_width cap \<le> bt_width t \<and> bt_width t \<le> max_width cap
     \<and> min_height cap \<le> bt_height t \<and> bt_height t \<le> max_height cap"

text \<open>
  The documented behaviour of the timings library: valid timings respect the limits of the
  capabilities, and a search only finds valid ones.
\<close>

definition dv_library_ok :: "dv_library \<Rightarrow> bool" where
  "dv_library_ok lib \<longleftrightarrow> (\<forall>t cap. valid_dv_timings lib t cap \<longrightarrow> within cap t)
     \<and> (\<forall>t t1 cap. find_dv_timings_cap lib t cap = Some t1 \<longrightarrow> valid_dv_timings lib t1 cap)"

definition skel_inv :: "v4l2_abi \<Rightarrow> skeleton \<Rightarrow> bool" where
  "skel_inv abi skel \<longleftrightarrow> input skel \<le> 1 \<and> tvnorms skel = (if input skel = 0 then STD_ALL abi else 0)
     \<and> within (skel_timings_cap abi) (timings skel)
     \<and> pix_fmt skel = skeleton_fill_pix_format abi skel (pix_fmt skel)"

definition skel_step :: "v4l2_abi \<Rightarrow> dv_library \<Rightarrow> skeleton \<Rightarrow> vb2_queue \<times> skel_ioctl \<Rightarrow> skeleton" where
  "skel_step abi lib skel x = snd (skel_ioctl_ops abi lib (fst x) (snd x) skel)"

lemma fill_pix_any: "skeleton_fill_pix_format abi skel p = skeleton_fill_pix_format abi skel q"
  by (cases p; cases q) (simp add: skeleton_fill_pix_format_def Let_def)

lemma fill_pix_idem [simp]:
  "skeleton_fill_pix_format abi s (skeleton_fill_pix_format abi s p) = skeleton_fill_pix_format abi s p"
  by (rule fill_pix_any)

lemma fill_pix_update [simp]:
  "skeleton_fill_pix_format abi (s\<lparr>pix_fmt := q\<rparr>) p = skeleton_fill_pix_format abi s p"
  by (simp add: skeleton_fill_pix_format_def Let_def)

lemma refill_inv:
  assumes "input s \<le> 1" and "tvnorms s = (if input s = 0 then STD_ALL abi else 0)"
    and "within (skel_timings_cap abi) (timings s)"
  shows "skel_inv abi (refill abi s)"
  using assms by (simp add: skel_inv_def refill_def)

lemma s_fmt_inv: "skel_inv abi s \<Longrightarrow> skel_inv abi (snd (skeleton_s_fmt_vid_cap abi vq f s))"
  by (simp add: skeleton_s_fmt_vid_cap_def skeleton_try_fmt_vid_cap_def skel_inv_def)

lemma s_std_inv: "skel_inv abi s \<Longrightarrow> skel_inv abi (snd (skeleton_s_std abi vq n s))"
  by (auto simp: skeleton_s_std_def skel_inv_def [of abi s] intro!: refill_inv)

lemma s_dv_timings_inv:
  "dv_library_ok lib \<Longrightarrow> skel_inv abi s \<Longrightarrow> skel_inv abi (snd (skeleton_s_dv_timings abi lib vq t s))"
  by (auto simp: skeleton_s_dv_timings_def skel_inv_def [of abi s] dv_library_ok_def intro!: refill_inv
      split: option.splits)

lemma s_input_inv: "skel_inv abi s \<Longrightarrow> skel_inv abi (snd (skeleton_s_input abi vq i s))"
  by (auto simp: skeleton_s_input_def SKEL_TVNORMS_def skel_inv_def [of abi s] not_less intro!: refill_inv)

lemma skel_step_inv: "dv_library_ok lib \<Longrightarrow> skel_inv abi s \<Longrightarrow> skel_inv abi (skel_step abi lib s (vq, c))"
  by (cases c) (simp_all add: skel_step_def s_fmt_inv s_std_inv s_dv_timings_inv s_input_inv)

interpretation skel: inv_machine "skel_step abi lib" "\<lambda>s. dv_library_ok lib \<and> skel_inv abi s"
  for abi lib
  by unfold_locales (auto intro: skel_step_inv)

lemma unat_mult_small: "unat a * unat b < 2 ^ LENGTH('a) \<Longrightarrow> unat (a * b) = unat a * unat (b :: 'a::len word)"
  by (rule unat_mult_lem [THEN iffD1]) simp

lemma fill_size:
  assumes "within (skel_timings_cap abi) (timings s)"
  shows "unat (width (skeleton_fill_pix_format abi s p)) \<le> 1920
     \<and> unat (height (skeleton_fill_pix_format abi s p)) \<le> 1080
     \<and> unat (sizeimage (skeleton_fill_pix_format abi s p)) =
         2 * unat (width (skeleton_fill_pix_format abi s p)) * unat (height (skeleton_fill_pix_format abi s p))"
proof -
  let ?f = "skeleton_fill_pix_format abi s p"
  have t: "unat (bt_width (timings s)) \<le> 1920" "unat (bt_height (timings s)) \<le> 1080"
    using assms by (simp_all add: within_def skel_timings_cap_def word_le_nat_alt)
  have "unat (bt_height (timings s) div 2) \<le> 1080" using t(2) by (simp add: unat_div)
  with t have w: "unat (width ?f) \<le> 1920" and h: "unat (height ?f) \<le> 1080"
    by (auto simp: skeleton_fill_pix_format_def Let_def)
  have sz: "sizeimage ?f = width ?f * 2 * height ?f"
    by (simp add: skeleton_fill_pix_format_def Let_def)
  have b: "unat (width ?f * 2) = unat (width ?f) * 2"
    using w by (subst unat_mult_small) simp_all
  have "unat (width ?f) * 2 * unat (height ?f) \<le> 1920 * 2 * 1080"
    using w h by (intro mult_le_mono) simp_all
  then have "unat (sizeimage ?f) = unat (width ?f) * 2 * unat (height ?f)"
    unfolding sz b [symmetric] by (intro unat_mult_small) simp
  with w h show ?thesis by simp
qed

lemma initial_inv:
  "within (skel_timings_cap abi) t \<Longrightarrow> skel_inv abi (initial_skeleton abi t)"
  by (auto simp: initial_skeleton_def SKEL_TVNORMS_def Let_def intro!: refill_inv)

text \<open>
  C10. From probing on, after any sequence of calls and whatever vb2 is doing: the current format
  is the one the input, the standard and the timings call for, there are only the two inputs,
  standards are offered on the first of them only, and the image size is twice width times
  height with no wrap-around.
\<close>
theorem skel_format_consistent:
  assumes "dv_library_ok lib" and "within (skel_timings_cap abi) timings_def"
    and "s = foldl (skel_step abi lib) (initial_skeleton abi timings_def) calls"
  shows "pix_fmt s = skeleton_fill_pix_format abi s (pix_fmt s) \<and> input s \<le> 1
     \<and> tvnorms s = (if input s = 0 then STD_ALL abi else 0)
     \<and> unat (sizeimage (pix_fmt s)) = 2 * unat (width (pix_fmt s)) * unat (height (pix_fmt s))
     \<and> unat (width (pix_fmt s)) \<le> 1920 \<and> unat (height (pix_fmt s)) \<le> 1080"
proof -
  have i: "skel_inv abi s"
    using skel.run_inv [of lib abi "initial_skeleton abi timings_def" calls] assms initial_inv by simp
  then have "pix_fmt s = skeleton_fill_pix_format abi s (pix_fmt s)" by (simp add: skel_inv_def)
  with i fill_size [of abi s "pix_fmt s"] show ?thesis by (simp add: skel_inv_def)
qed

definition sample_v4l2 :: v4l2_abi where
  "sample_v4l2 = \<lparr>PIX_FMT_YUYV = 0x56595559, STD_525_60 = 0xf900, STD_625_50 = 0xff00ff, STD_ALL = 0xfff9ff,
     FIELD_NONE = 1, FIELD_TOP = 2, FIELD_INTERLACED = 4, FIELD_ALTERNATE = 7, COLORSPACE_SMPTE170M = 1,
     COLORSPACE_REC709 = 3, CAP_VIDEO_CAPTURE = 1, CAP_READWRITE = 0x1000000, CAP_STREAMING = 0x4000000,
     CAP_DEVICE_CAPS = 0x80000000, INPUT_TYPE_CAMERA = 2, IN_CAP_STD = 4, IN_CAP_DV_TIMINGS = 2,
     CID_BRIGHTNESS = 0x980900, CID_CONTRAST = 0x980901, CID_SATURATION = 0x980902, CID_HUE = 0x980903,
     DV_BT_656_1120 = 0, DV_BT_STD_CEA861 = 1, DV_BT_CAP_INTERLACED = 1, DV_BT_CAP_PROGRESSIVE = 2\<rparr>"

definition sample_lib :: dv_library where
  "sample_lib = \<lparr>valid_dv_timings = (\<lambda>t cap. within cap t),
     find_dv_timings_cap = (\<lambda>t cap. if within cap t then Some t else None),
     match_dv_timings = (\<lambda>t u. t = u), enum_dv_timings_cap = (\<lambda>_ _. Inl EINVAL)\<rparr>"

definition hd_timings :: "u32 \<Rightarrow> u32 \<Rightarrow> u32 \<Rightarrow> v4l2_dv_timings" where
  "hd_timings w h i = \<lparr>bt_width = w, bt_height = h, bt_interlaced = i, bt_rest = []\<rparr>"

lemma sample_lib_ok: "dv_library_ok sample_lib"
  by (auto simp: dv_library_ok_def sample_lib_def split: if_splits)

lemma sample_timings_within: "within (skel_timings_cap sample_v4l2) (hd_timings 1280 720 0)"
  by (simp add: within_def skel_timings_cap_def hd_timings_def)

theorem skel_format_consistent_witness:
  "let idle = \<lparr>vb2_is_busy = False, num_buffers = 0, fileio_is_active = False\<rparr>;
       s = foldl (skel_step sample_v4l2 sample_lib) (initial_skeleton sample_v4l2 (hd_timings 1280 720 0))
         [(idle, SInput 1), (idle, SDvTimings (hd_timings 1920 1080 1))]
   in unat (sizeimage (pix_fmt s)) = 2 * unat (width (pix_fmt s)) * unat (height (pix_fmt s))
     \<and> width (pix_fmt s) = 1920 \<and> height (pix_fmt s) = 540"
proof -
  let ?s = "foldl (skel_step sample_v4l2 sample_lib) (initial_skeleton sample_v4l2 (hd_timings 1280 720 0))
      [(\<lparr>vb2_is_busy = False, num_buffers = 0, fileio_is_active = False\<rparr>, SInput 1),
       (\<lparr>vb2_is_busy = False, num_buffers = 0, fileio_is_active = False\<rparr>, SDvTimings (hd_timings 1920 1080 1))]"
  have "width (pix_fmt ?s) = 1920 \<and> height (pix_fmt ?s) = 540" by code_simp
  with skel_format_consistent [OF sample_lib_ok sample_timings_within refl] show ?thesis
    by (simp only: Let_def)
qed

section \<open>Buffers\<close>

lemma busy_keeps:
  assumes "vb2_is_busy vq"
  shows "pix_fmt (skel_step abi lib s (vq, c)) = pix_fmt s"
  using assms
  by (cases c)
    (auto simp: skel_step_def skeleton_s_fmt_vid_cap_def skeleton_s_std_def skeleton_s_dv_timings_def
      skeleton_s_input_def split: sum.splits option.splits)

lemma busy_run_keeps:
  "list_all (\<lambda>x. vb2_is_busy (fst x)) calls \<Longrightarrow> pix_fmt (foldl (skel_step abi lib) s calls) = pix_fmt s"
  by (induction calls arbitrary: s) (auto simp: busy_keeps)

text \<open>
  C4. Buffers stay large enough: a buffer at least as large as \<open>queue_setup\<close> asked for is
  accepted by \<open>buffer_prepare\<close> after any calls made while buffers are allocated, with a
  payload of exactly one image, which lies inside the buffer.
\<close>
theorem busy_buffers_fit:
  assumes "queue_setup abi vq fmt n s0 = (Inr (nb, np, sz), s1)"
    and "list_all (\<lambda>x. vb2_is_busy (fst x)) calls"
    and "s2 = foldl (skel_step abi lib) s1 calls" and "ucast sz \<le> plane_size vb"
  shows "buffer_prepare s2 vb = Inr (vb\<lparr>payload := ucast (sizeimage (pix_fmt s0))\<rparr>)
     \<and> (ucast (sizeimage (pix_fmt s0)) :: u64) \<le> plane_size vb"
proof -
  have p: "pix_fmt s2 = pix_fmt s0"
    using assms(1) busy_run_keeps [OF assms(2), of abi lib s1] unfolding assms(3)
    by (auto simp: queue_setup_def Let_def split: if_splits option.splits)
  have "sizeimage (pix_fmt s0) \<le> sz"
    using assms(1) by (auto simp: queue_setup_def Let_def not_less split: if_splits option.splits)
  then have "(ucast (sizeimage (pix_fmt s0)) :: u64) \<le> ucast sz"
    by (simp add: word_le_nat_alt unat_ucast_up)
  with assms(4) have "(ucast (sizeimage (pix_fmt s0)) :: u64) \<le> plane_size vb" by (rule order_trans [rotated])
  with p show ?thesis by (simp add: buffer_prepare_def Let_def not_less)
qed

theorem busy_buffers_fit_witness:
  "let s0 = initial_skeleton sample_v4l2 (hd_timings 1280 720 0);
       vq = \<lparr>vb2_is_busy = True, num_buffers = 0, fileio_is_active = False\<rparr>;
       s1 = snd (queue_setup sample_v4l2 vq None 1 s0);
       vb = \<lparr>buf_index = 0, plane_size = 829440, payload = 0\<rparr>
   in buffer_prepare (foldl (skel_step sample_v4l2 sample_lib) s1 [(vq, SInput 1), (vq, SStd 0xf900)]) vb =
     Inr (vb\<lparr>payload := 829440\<rparr>)"
proof -
  let ?s0 = "initial_skeleton sample_v4l2 (hd_timings 1280 720 0)"
  let ?vq = "\<lparr>vb2_is_busy = True, num_buffers = 0, fileio_is_active = False\<rparr>"
  let ?s1 = "snd (queue_setup sample_v4l2 ?vq None 1 ?s0)"
  have q: "queue_setup sample_v4l2 ?vq None 1 ?s0 = (Inr (3, 1, 829440), ?s1)"
  proof -
    have "fst (queue_setup sample_v4l2 ?vq None 1 ?s0) = Inr (3, 1, 829440)" by code_simp
    then show ?thesis by (metis prod.collapse)
  qed
  have s: "sizeimage (pix_fmt ?s0) = 829440" by code_simp
  have l: "list_all (\<lambda>x. vb2_is_busy (fst x)) [(?vq, SInput 1), (?vq, SStd 0xf900)]" by simp
  from busy_buffers_fit [OF q l refl, of "\<lparr>buf_index = 0, plane_size = 829440, payload = 0\<rparr>" sample_lib] s
  show ?thesis by (simp add: Let_def)
qed

text \<open>Runs of the queue operations, with the buffers given back so far.\<close>

datatype queue_op = QQueue skel_buffer | QStart | QStop | QIrq

fun queue_step ::
  "skeleton \<times> (skel_buffer \<times> vb2_buffer_state) list \<Rightarrow> queue_op
    \<Rightarrow> skeleton \<times> (skel_buffer \<times> vb2_buffer_state) list" where
  "queue_step (s, given) (QQueue b) = (buffer_queue b s, given)"
| "queue_step (s, given) QStart = (let (ret, bs, s') = start_streaming s in (s', given @ bs))"
| "queue_step (s, given) QStop = (let (bs, s') = stop_streaming s in (s', given @ bs))"
| "queue_step (s, given) QIrq = (skeleton_irq s, given)"

fun queued :: "queue_op list \<Rightarrow> skel_buffer list" where
  "queued [] = []"
| "queued (QQueue b # xs) = b # queued xs"
| "queued (_ # xs) = queued xs"

lemmas queue_defs = buffer_queue_def start_streaming_def stop_streaming_def return_all_buffers_def
  skeleton_irq_def Let_def

lemma queue_step_conserves:
  "mset (map fst (snd (queue_step x op))) + mset (buf_list (fst (queue_step x op))) =
   mset (map fst (snd x)) + mset (buf_list (fst x)) + mset (queued [op])"
  by (cases x; cases op) (simp_all add: queue_defs comp_def)

lemma queued_Cons: "queued (op # xs) = queued [op] @ queued xs"
  by (cases op) simp_all

lemma queue_run_conserves:
  "mset (map fst (snd (foldl queue_step x xs))) + mset (buf_list (fst (foldl queue_step x xs))) =
   mset (map fst (snd x)) + mset (buf_list (fst x)) + mset (queued xs)"
proof (induction xs arbitrary: x)
  case (Cons op xs)
  show ?case unfolding foldl_Cons Cons queue_step_conserves queued_Cons [of op xs]
    by (simp add: ac_simps)
qed simp

lemma queue_step_gives_errors:
  "snd ` set (snd x) \<subseteq> {BUF_STATE_ERROR} \<Longrightarrow> snd ` set (snd (queue_step x op)) \<subseteq> {BUF_STATE_ERROR}"
  by (cases x; cases op) (auto simp: queue_defs)

interpretation given_back: inv_machine queue_step "\<lambda>x. snd ` set (snd x) \<subseteq> {BUF_STATE_ERROR}"
  by unfold_locales (rule queue_step_gives_errors)

text \<open>
  C24. No buffer is lost or given back twice: after any sequence of queueing, starting, stopping
  and interrupts, the buffers given back together with those still in the list are exactly the
  buffers queued, counted with multiplicity; after a stop the list is empty, so that every
  buffer has been given back.
\<close>
theorem queue_buffers_returned:
  "let (s', given) = foldl queue_step (initial_skeleton abi t, []) (xs @ [QStop]) in
   mset (map fst given) = mset (queued xs) \<and> buf_list s' = []
   \<and> set (map snd given) \<subseteq> {BUF_STATE_ERROR}"
proof -
  let ?x = "foldl queue_step (initial_skeleton abi t, []) xs"
  have "snd ` set (snd ?x) \<subseteq> {BUF_STATE_ERROR}" by (rule given_back.run_inv) simp
  moreover have "mset (map fst (snd ?x)) + mset (buf_list (fst ?x)) = mset (queued xs)"
    using queue_run_conserves [of "(initial_skeleton abi t, [])" xs]
    by (simp add: initial_skeleton_def refill_def Let_def)
  ultimately show ?thesis by (cases ?x) (auto simp: queue_defs multiset.map_comp comp_def)
qed

text \<open>\<open>queue_setup\<close> asks for enough buffers for three in all, unless the sum wraps around.\<close>

lemma queue_setup_three:
  assumes "fst (queue_setup abi vq fmt n s) = Inr (nb, np, sz)"
    and "unat (num_buffers vq) + unat n < 2 ^ 32"
  shows "3 \<le> unat (num_buffers vq) + unat nb \<and> np = 1"
proof -
  have e: "unat (num_buffers vq + n) = unat (num_buffers vq) + unat n"
    by (rule unat_add_lem [THEN iffD1]) (use assms(2) in simp)
  have nb: "nb = (if num_buffers vq + n < 3 then 3 - num_buffers vq else n)" "np = 1"
    using assms(1) by (auto simp: queue_setup_def Let_def split: if_splits option.splits)
  show ?thesis
  proof (cases "num_buffers vq + n < 3")
    case True
    then have "unat (num_buffers vq) \<le> 3" using e by (simp add: word_less_nat_alt)
    then have "unat (3 - num_buffers vq) = 3 - unat (num_buffers vq)"
      by (subst unat_sub) (simp_all add: word_le_nat_alt)
    with nb True show ?thesis by simp
  qed (use nb e in \<open>simp add: word_less_nat_alt not_less\<close>)
qed

section \<open>Probing\<close>

text \<open>
  C26. Resources of probing and removing: a successful probe holds the PCI device, the V4L2
  device, the controls, the allocation context and the video device, and removing releases all
  of them; a failed probe releases whatever it acquired, in order, except that the PCI device
  stays enabled when there is no memory for the driver's data.
\<close>
theorem skeleton_probe_resources:
  "(case skeleton_probe abi t a of
     (Inr s, tr) \<Rightarrow>
       run_ev {} tr = Some {PciEnabled, V4l2Registered, CtrlHandler, AllocCtx, VideoRegistered}
       \<and> run_ev {} (tr @ skeleton_remove) = Some {} \<and> s = initial_skeleton abi t
   | (Inl e, tr) \<Rightarrow>
       e \<noteq> 0 \<and> run_ev {} tr =
         Some (if p_enable a = 0 \<and> p_dma_mask a = 0 \<and> \<not> p_kzalloc a then {PciEnabled} else {}))"
  by (simp add: skeleton_probe_def skeleton_remove_def Let_def insert_Diff_if insert_commute)

section \<open>Types of results\<close>

text \<open>What a call may return: a result of its kind, with texts that fit their fields and formats that are consistent.\<close>

fun fmt_typed :: "v4l2_abi \<Rightarrow> skel_out \<Rightarrow> bool" where
  "fmt_typed abi (OutFmt p) \<longleftrightarrow> pixelformat p = PIX_FMT_YUYV abi \<and> bytesperline p = width p * 2
     \<and> sizeimage p = bytesperline p * height p \<and> pix_priv p = 0"
| "fmt_typed abi r \<longleftrightarrow> False"

fun result_typed :: "v4l2_abi \<Rightarrow> skel_ioctl \<Rightarrow> skel_out \<Rightarrow> bool" where
  "result_typed abi (QueryCap n p) r \<longleftrightarrow> (\<exists>c. r = OutCap c \<and> length (cap_driver c) < 16 \<and> length (cap_card c) < 32
     \<and> length (cap_bus_info c) < 32 \<and> device_caps c AND all_caps c = device_caps c)"
| "result_typed abi (TryFmt f) r \<longleftrightarrow> fmt_typed abi r"
| "result_typed abi (SFmt f) r \<longleftrightarrow> fmt_typed abi r"
| "result_typed abi GFmt r \<longleftrightarrow> (\<exists>p. r = OutFmt p)"
| "result_typed abi (EnumFmt i) r \<longleftrightarrow> (\<exists>d. r = OutFmtDesc d \<and> length (fmt_description d) < 32 \<and> fmt_pixelformat d = PIX_FMT_YUYV abi)"
| "result_typed abi GStd r \<longleftrightarrow> (\<exists>s. r = OutStd s)"
| "result_typed abi (SStd s) r \<longleftrightarrow> r = OutUnit"
| "result_typed abi (QueryStd s) r \<longleftrightarrow> r = OutStd s"
| "result_typed abi (SDvTimings t) r \<longleftrightarrow> (\<exists>t'. r = OutTimings t')"
| "result_typed abi GDvTimings r \<longleftrightarrow> (\<exists>t'. r = OutTimings t')"
| "result_typed abi (EnumDvTimings i) r \<longleftrightarrow> (\<exists>t'. r = OutTimings t')"
| "result_typed abi (QueryDvTimings t) r \<longleftrightarrow> r = OutTimings t"
| "result_typed abi DvTimingsCap r \<longleftrightarrow> r = OutTimingsCap (skel_timings_cap abi)"
| "result_typed abi (EnumInput i) r \<longleftrightarrow> (\<exists>x. r = OutInput x \<and> length (in_name x) < 32)"
| "result_typed abi GInput r \<longleftrightarrow> (\<exists>i. r = OutIndex i)"
| "result_typed abi (SInput i) r \<longleftrightarrow> r = OutUnit"

text \<open>The errors of a call; enumerating timings passes on those of the library.\<close>

fun error_typed :: "skel_ioctl \<Rightarrow> v4l2_error \<Rightarrow> bool" where
  "error_typed (TryFmt f) e \<longleftrightarrow> e = EINVAL"
| "error_typed (SFmt f) e \<longleftrightarrow> e \<in> {EINVAL, EBUSY}"
| "error_typed (EnumFmt i) e \<longleftrightarrow> e = EINVAL"
| "error_typed GStd e \<longleftrightarrow> e = ENODATA"
| "error_typed (SStd s) e \<longleftrightarrow> e \<in> {ENODATA, EBUSY}"
| "error_typed (QueryStd s) e \<longleftrightarrow> e = ENODATA"
| "error_typed (SDvTimings t) e \<longleftrightarrow> e \<in> {ENODATA, EINVAL, EBUSY}"
| "error_typed GDvTimings e \<longleftrightarrow> e = ENODATA"
| "error_typed (EnumDvTimings i) e \<longleftrightarrow> True"
| "error_typed (QueryDvTimings t) e \<longleftrightarrow> e = ENODATA"
| "error_typed DvTimingsCap e \<longleftrightarrow> e = ENODATA"
| "error_typed (EnumInput i) e \<longleftrightarrow> e = EINVAL"
| "error_typed (SInput i) e \<longleftrightarrow> e \<in> {EINVAL, EBUSY}"
| "error_typed c e \<longleftrightarrow> False"

fun sets :: "skel_ioctl \<Rightarrow> bool" where
  "sets (SFmt f) = True"
| "sets (SStd s) = True"
| "sets (SDvTimings t) = True"
| "sets (SInput i) = True"
| "sets c = False"

lemma fill_pix_typed: "fmt_typed abi (OutFmt (skeleton_fill_pix_format abi skel pix))"
  by (simp add: skeleton_fill_pix_format_def Let_def)

lemma strlcpy_fits: "0 < n \<Longrightarrow> length (strlcpy n s) < n"
  by (simp add: strlcpy_def)

lemma caps_subset: "(a :: u32) AND (a OR b) = a"
  by (simp add: bit_eq_iff bit_simps)

lemmas skel_calls = skeleton_querycap_def skeleton_try_fmt_vid_cap_def skeleton_s_fmt_vid_cap_def
  skeleton_enum_fmt_vid_cap_def skeleton_g_std_def skeleton_s_std_def skeleton_querystd_def
  skeleton_s_dv_timings_def skeleton_g_dv_timings_def skeleton_enum_dv_timings_def
  skeleton_query_dv_timings_def skeleton_dv_timings_cap_def skeleton_enum_input_def skeleton_s_input_def



end
