(* ===== verification/Getdelays.thy ===== *)
theory Getdelays
  imports Doc_Prelude
begin

text \<open>
  Model of \<open>src/Documentation/accounting/getdelays.c\<close>: requests to and replies from the
  taskstats interface of the kernel over generic netlink. Messages are byte lists with the wire
  format of netlink (a header of 16 bytes, a generic header of 4, attributes of a 4 byte header
  and a payload, everything aligned to 4). Numbers of commands and attributes are the record
  \<open>gd_abi\<close>; the layouts of \<open>struct taskstats\<close> and \<open>struct cgroupstats\<close> are
  arguments. A read outside the message buffer and a loop that does not end have the value
  \<open>None\<close>. Uninitialised bytes of the message buffer are an argument too.
\<close>

record gd_abi =
  GENL_ID_CTRL :: u16
  NLM_F_REQUEST :: u16
  NLMSG_ERROR :: u16
  CTRL_CMD_GETFAMILY :: u8
  CTRL_ATTR_FAMILY_NAME :: u16
  CTRL_ATTR_FAMILY_ID :: u16
  TASKSTATS_CMD_GET :: u8
  CMD_ATTR_UNSPEC :: u16
  CMD_ATTR_PID :: u16
  CMD_ATTR_TGID :: u16
  CMD_ATTR_REGISTER_CPUMASK :: u16
  CMD_ATTR_DEREGISTER_CPUMASK :: u16
  TYPE_NULL :: u16
  TYPE_PID :: u16
  TYPE_TGID :: u16
  TYPE_STATS :: u16
  TYPE_AGGR_PID :: u16
  TYPE_AGGR_TGID :: u16
  CGROUPSTATS_CMD_GET :: u8
  CGROUPSTATS_CMD_ATTR_FD :: u16
  CGROUPSTATS_TYPE_CGROUP_STATS :: u16
  TASKSTATS_GENL_NAME :: "u8 list"

section \<open>Wire format\<close>

definition NL_ALIGN :: "nat \<Rightarrow> nat" where "NL_ALIGN n = (n + 3) div 4 * 4"

definition NLMSG_HDRLEN :: nat where "NLMSG_HDRLEN = 16"
definition GENL_HDRLEN :: nat where "GENL_HDRLEN = 4"
definition NLA_HDRLEN :: nat where "NLA_HDRLEN = 4"
definition MAX_MSG_SIZE :: nat where "MAX_MSG_SIZE = 1024"
definition MAX_CPUS :: nat where "MAX_CPUS = 32"

definition sizeof_msgtemplate :: nat where "sizeof_msgtemplate = NLMSG_HDRLEN + GENL_HDRLEN + MAX_MSG_SIZE"

definition GENLMSG_DATA :: nat where "GENLMSG_DATA = NLMSG_HDRLEN + GENL_HDRLEN"

definition GENLMSG_PAYLOAD :: "u32 \<Rightarrow> int" where
  "GENLMSG_PAYLOAD nlmsg_len = sint (nlmsg_len - of_nat NLMSG_HDRLEN - of_nat GENL_HDRLEN)"

definition NLA_DATA :: "nat \<Rightarrow> nat" where "NLA_DATA na = na + NLA_HDRLEN"

definition NLA_PAYLOAD :: "u32 \<Rightarrow> int" where "NLA_PAYLOAD len = int (unat len) - int NLA_HDRLEN"

definition NLMSG_OK :: "u32 \<Rightarrow> int \<Rightarrow> bool" where
  "NLMSG_OK nlmsg_len len \<longleftrightarrow>
     int NLMSG_HDRLEN \<le> len \<and> NLMSG_HDRLEN \<le> unat nlmsg_len \<and> int (unat nlmsg_len) \<le> len"

abbreviation nla_len_at :: "u8 list \<Rightarrow> nat \<Rightarrow> u32 option" where
  "nla_len_at buf na \<equiv> rd_word buf na 2"

abbreviation nla_type_at :: "u8 list \<Rightarrow> nat \<Rightarrow> u32 option" where
  "nla_type_at buf na \<equiv> rd_word buf (na + 2) 2"

section \<open>Sending a command\<close>

text \<open>The message \<open>send_cmd\<close> builds on top of the uninitialised bytes \<open>junk\<close>.\<close>

definition nla_len_of :: "nat \<Rightarrow> u16" where "nla_len_of n = of_nat (n + 1 + NLA_HDRLEN)"

definition nlmsg_len_of :: "nat \<Rightarrow> u32" where
  "nlmsg_len_of n = of_nat (NLMSG_HDRLEN + GENL_HDRLEN + NL_ALIGN (unat (nla_len_of n)))"

definition msg_bytes ::
  "gd_abi \<Rightarrow> u8 list \<Rightarrow> u16 \<Rightarrow> u32 \<Rightarrow> u8 \<Rightarrow> u16 \<Rightarrow> u8 list \<Rightarrow> u8 list" where
  "msg_bytes abi junk nlmsg_type nlmsg_pid genl_cmd nla_type nla_data =
     le_bytes 4 (nlmsg_len_of (length nla_data)) @ le_bytes 2 nlmsg_type @ le_bytes 2 (NLM_F_REQUEST abi)
     @ le_bytes 4 (0 :: u32) @ le_bytes 4 nlmsg_pid @ [genl_cmd, 1] @ take 2 (drop 18 junk)
     @ le_bytes 2 (nla_len_of (length nla_data)) @ le_bytes 2 nla_type @ nla_data
     @ drop (24 + length nla_data) junk"

text \<open>
  The loop around \<open>sendto\<close>: the answer to the \<open>k\<close>th call is its result and whether
  \<open>errno\<close> is \<open>EAGAIN\<close> after it. The result is the return value, the bytes handed over and
  the number of calls.
\<close>

partial_function (option) send_loop ::
  "(nat \<Rightarrow> int \<times> bool) \<Rightarrow> nat \<Rightarrow> u8 list \<Rightarrow> u8 list \<Rightarrow> (int \<times> u8 list) option" where
  "send_loop sendto k buf sent =
     (let (r, again) = sendto k in
      if r < int (length buf) then
        (if r > 0 then send_loop sendto (Suc k) (drop (nat r) buf) (sent @ take (nat r) buf)
         else if \<not> again then Some (-1, sent)
         else send_loop sendto (Suc k) buf sent)
      else Some (0, sent @ buf))"

definition send_cmd ::
  "gd_abi \<Rightarrow> u8 list \<Rightarrow> (nat \<Rightarrow> int \<times> bool) \<Rightarrow> u16 \<Rightarrow> u32 \<Rightarrow> u8 \<Rightarrow> u16 \<Rightarrow> u8 list \<Rightarrow> (int \<times> u8 list) option" where
  "send_cmd abi junk sendto nlmsg_type nlmsg_pid genl_cmd nla_type nla_data =
     (let buflen = unat (nlmsg_len_of (length nla_data)) in
      if length nla_data + 24 > sizeof_msgtemplate \<or> buflen > sizeof_msgtemplate then None
      else send_loop sendto 0
        (take buflen (msg_bytes abi junk nlmsg_type nlmsg_pid genl_cmd nla_type nla_data)) [])"

text \<open>Opening the socket: the descriptor or -1, and the trace.\<close>

datatype gd_res = GdLog int | GdSock int | GdContainer int

definition create_nl_socket :: "int \<Rightarrow> int \<Rightarrow> int \<Rightarrow> int \<Rightarrow> int \<times> gd_res ev list" where
  "create_nl_socket rcvbufsz fd setsockopt_rc bind_rc =
     (if fd < 0 then (-1, [])
      else if rcvbufsz \<noteq> 0 \<and> setsockopt_rc < 0 then (-1, [Acq (GdSock fd), Rel (GdSock fd)])
      else if bind_rc < 0 then (-1, [Acq (GdSock fd), Rel (GdSock fd)])
      else (fd, [Acq (GdSock fd)]))"

text \<open>
  \<open>get_family_id\<close>: \<open>ans\<close> is the 276 byte buffer after \<open>recv\<close>, which returned
  \<open>rep_len\<close>.
\<close>

definition family_of :: "gd_abi \<Rightarrow> int \<Rightarrow> u8 list \<Rightarrow> u32 option" where
  "family_of abi rep_len ans =
     (case (rd_word ans 0 4, rd_word ans 4 2) of
        (Some nlmsg_len, Some nlmsg_type) \<Rightarrow>
          if nlmsg_type = ucast (NLMSG_ERROR abi) \<or> rep_len < 0 \<or> \<not> NLMSG_OK nlmsg_len rep_len then Some 0
          else (case nla_len_at ans GENLMSG_DATA of
             None \<Rightarrow> None
           | Some l \<Rightarrow>
               let na = GENLMSG_DATA + NL_ALIGN (unat l) in
               case nla_type_at ans na of
                 None \<Rightarrow> None
               | Some t \<Rightarrow> if t = ucast (CTRL_ATTR_FAMILY_ID abi) then rd_word ans (NLA_DATA na) 2 else Some 0)
      | _ \<Rightarrow> None)"

definition get_family_id ::
  "gd_abi \<Rightarrow> u8 list \<Rightarrow> (nat \<Rightarrow> int \<times> bool) \<Rightarrow> u32 \<Rightarrow> int \<times> u8 list \<Rightarrow> u32 option" where
  "get_family_id abi junk sendto pid reply =
     (case send_cmd abi junk sendto (GENL_ID_CTRL abi) pid (CTRL_CMD_GETFAMILY abi)
             (CTRL_ATTR_FAMILY_NAME abi) (TASKSTATS_GENL_NAME abi @ [0]) of
        None \<Rightarrow> None
      | Some (rc, sent) \<Rightarrow> if rc < 0 then Some 0 else family_of abi (fst reply) (snd reply))"

section \<open>Printing\<close>

record taskstats =
  cpu_count :: u64
  cpu_run_real_total :: u64
  cpu_run_virtual_total :: u64
  cpu_delay_total :: u64
  blkio_count :: u64
  blkio_delay_total :: u64
  swapin_count :: u64
  swapin_delay_total :: u64
  freepages_count :: u64
  freepages_delay_total :: u64
  nvcsw :: u64
  nivcsw :: u64
  ac_comm :: string
  read_bytes :: u64
  write_bytes :: u64
  cancelled_write_bytes :: u64

record cgroupstats =
  nr_sleeping :: u64
  nr_running :: u64
  nr_stopped :: u64
  nr_uninterruptible :: u64
  nr_io_wait :: u64

definition average_ms :: "u64 \<Rightarrow> u64 \<Rightarrow> u64" where
  "average_ms t c = t div 1000000 div (if c \<noteq> 0 then c else 1)"

definition pad :: "nat \<Rightarrow> string \<Rightarrow> string" where
  "pad n s = replicate (n - length s) CHR '' '' @ s"

definition llu15 :: "u64 \<Rightarrow> string" where "llu15 w = pad 15 (show_nat (unat w))"

definition llu :: "u64 \<Rightarrow> string" where "llu w = show_nat (unat w)"

text \<open>The average CPU delay is computed and printed in floating point: \<open>cpu_avg\<close>.\<close>

definition print_delayacct :: "(u64 \<Rightarrow> u64 \<Rightarrow> string) \<Rightarrow> taskstats \<Rightarrow> string" where
  "print_delayacct cpu_avg t =
     [newline, newline] @ ''CPU   '' @ pad 15 ''count'' @ pad 15 ''real total'' @ pad 15 ''virtual total''
     @ pad 15 ''delay total'' @ pad 15 ''delay average'' @ [newline]
     @ ''      '' @ llu15 (cpu_count t) @ llu15 (cpu_run_real_total t) @ llu15 (cpu_run_virtual_total t)
     @ llu15 (cpu_delay_total t) @ pad 15 (cpu_avg (cpu_delay_total t) (cpu_count t)) @ ''ms'' @ [newline]
     @ ''IO    '' @ pad 15 ''count'' @ pad 15 ''delay total'' @ pad 15 ''delay average'' @ [newline]
     @ ''      '' @ llu15 (blkio_count t) @ llu15 (blkio_delay_total t)
     @ llu15 (average_ms (blkio_delay_total t) (blkio_count t)) @ ''ms'' @ [newline]
     @ ''SWAP  '' @ pad 15 ''count'' @ pad 15 ''delay total'' @ pad 15 ''delay average'' @ [newline]
     @ ''      '' @ llu15 (swapin_count t) @ llu15 (swapin_delay_total t)
     @ llu15 (average_ms (swapin_delay_total t) (swapin_count t)) @ ''ms'' @ [newline]
     @ ''RECLAIM  '' @ pad 12 ''count'' @ pad 15 ''delay total'' @ pad 15 ''delay average'' @ [newline]
     @ ''      '' @ llu15 (freepages_count t) @ llu15 (freepages_delay_total t)
     @ llu15 (average_ms (freepages_delay_total t) (freepages_count t)) @ ''ms'' @ [newline]"

definition task_context_switch_counts :: "taskstats \<Rightarrow> string" where
  "task_context_switch_counts t =
     [newline, newline] @ ''Task   '' @ pad 15 ''voluntary'' @ pad 15 ''nonvoluntary'' @ [newline]
     @ ''       '' @ llu15 (nvcsw t) @ llu15 (nivcsw t) @ [newline]"

definition print_cgroupstats :: "cgroupstats \<Rightarrow> string" where
  "print_cgroupstats c =
     ''sleeping '' @ llu (nr_sleeping c) @ '', blocked '' @ llu (nr_io_wait c) @ '', running '' @ llu (nr_running c)
     @ '', stopped '' @ llu (nr_stopped c) @ '', uninterruptible '' @ llu (nr_uninterruptible c) @ [newline]"

definition print_ioacct :: "taskstats \<Rightarrow> string" where
  "print_ioacct t =
     ac_comm t @ '': read='' @ llu (read_bytes t) @ '', write='' @ llu (write_bytes t)
     @ '', cancelled_write='' @ llu (cancelled_write_bytes t) @ [newline]"

section \<open>Reading a reply\<close>

text \<open>What the walk over a reply does: prints, and writes to the log file.\<close>

datatype gd_ev = GdPrint string | GdError string | GdWrite "u8 list"

record gd_opts =
  print_delays :: bool
  print_io_accounting :: bool
  print_task_context_switch_counts :: bool
  write_file :: bool
  listen :: bool

record gd_env =
  ts_at :: "u8 list \<Rightarrow> nat \<Rightarrow> taskstats option"
  cg_at :: "u8 list \<Rightarrow> nat \<Rightarrow> cgroupstats option"
  cpu_avg :: "u64 \<Rightarrow> u64 \<Rightarrow> string"
  write_ok :: bool

datatype gd_next = GdGoOn | GdDone | GdFail

text \<open>The statistics of a task, at attribute \<open>na\<close>.\<close>

definition stats_attr ::
  "gd_env \<Rightarrow> gd_opts \<Rightarrow> u8 list \<Rightarrow> nat \<Rightarrow> (gd_next \<times> gd_ev list) option" where
  "stats_attr env opts buf na =
     (case (ts_at env buf (NLA_DATA na), nla_len_at buf na) of
        (Some t, Some l) \<Rightarrow>
          let pr = (if print_delays opts then [GdPrint (print_delayacct (cpu_avg env) t)] else [])
                 @ (if print_io_accounting opts then [GdPrint (print_ioacct t)] else [])
                 @ (if print_task_context_switch_counts opts then [GdPrint (task_context_switch_counts t)] else [])
          in if write_file opts then
               (case rd_bytes buf (NLA_DATA na) (unat l) of
                  None \<Rightarrow> None
                | Some bs \<Rightarrow>
                    if \<not> write_ok env then Some (GdFail, pr @ [GdError (''write error'' @ [newline])])
                    else Some (if listen opts then GdGoOn else GdDone, pr @ [GdWrite bs]))
             else Some (if listen opts then GdGoOn else GdDone, pr)
      | _ \<Rightarrow> None)"

definition nested_attr ::
  "gd_abi \<Rightarrow> gd_env \<Rightarrow> gd_opts \<Rightarrow> u8 list \<Rightarrow> nat \<Rightarrow> (gd_next \<times> gd_ev list) option" where
  "nested_attr abi env opts buf na =
     (case nla_type_at buf na of
        None \<Rightarrow> None
      | Some ty \<Rightarrow>
          if ty = ucast (TYPE_PID abi) then
            map_option (\<lambda>rtid. (GdGoOn, if print_delays opts
              then [GdPrint (''PID'' @ [CHR 0x09] @ show_int (sint rtid) @ [newline])] else []))
              (rd_word buf (NLA_DATA na) 4)
          else if ty = ucast (TYPE_TGID abi) then
            map_option (\<lambda>rtid. (GdGoOn, if print_delays opts
              then [GdPrint (''TGID'' @ [CHR 0x09] @ show_int (sint rtid) @ [newline])] else []))
              (rd_word buf (NLA_DATA na) 4)
          else if ty = ucast (TYPE_STATS abi) then stats_attr env opts buf na
          else Some (GdGoOn, [GdError (''Unknown nested nla_type '' @ show_nat (unat ty) @ [newline])]))"

text \<open>The inner loop: \<open>na\<close> is moved by the sum of all lengths so far, as in the code.\<close>

partial_function (option) nested_loop ::
  "gd_abi \<Rightarrow> gd_env \<Rightarrow> gd_opts \<Rightarrow> u8 list \<Rightarrow> nat \<Rightarrow> int \<Rightarrow> int \<Rightarrow> gd_ev list \<Rightarrow> (gd_next \<times> gd_ev list) option" where
  "nested_loop abi env opts buf na len2 aggr_len evs =
     (if len2 < aggr_len then
        (case nested_attr abi env opts buf na of
           None \<Rightarrow> None
         | Some (GdGoOn, es) \<Rightarrow>
             (case nla_len_at buf na of
                None \<Rightarrow> None
              | Some l \<Rightarrow>
                  let len2' = len2 + int (NL_ALIGN (unat l)) in
                  nested_loop abi env opts buf (na + nat len2') len2' aggr_len (evs @ es))
         | Some (r, es) \<Rightarrow> Some (r, evs @ es))
      else Some (GdGoOn, evs))"

partial_function (option) attr_loop ::
  "gd_abi \<Rightarrow> gd_env \<Rightarrow> gd_opts \<Rightarrow> u8 list \<Rightarrow> int \<Rightarrow> int \<Rightarrow> gd_ev list \<Rightarrow> (gd_next \<times> gd_ev list) option" where
  "attr_loop abi env opts buf len rep_len evs =
     (if len < rep_len then
        let na = GENLMSG_DATA + nat len in
        case (nla_len_at buf na, nla_type_at buf na) of
          (Some l, Some ty) \<Rightarrow>
            let len' = len + int (NL_ALIGN (unat l)) in
            if ty = ucast (TYPE_AGGR_TGID abi) \<or> ty = ucast (TYPE_AGGR_PID abi) then
              (case nested_loop abi env opts buf (NLA_DATA na) 0 (NLA_PAYLOAD l) evs of
                 Some (GdGoOn, evs') \<Rightarrow> attr_loop abi env opts buf len' rep_len evs'
               | r \<Rightarrow> r)
            else if ty = ucast (CGROUPSTATS_TYPE_CGROUP_STATS abi) then
              (case cg_at env buf (NLA_DATA na) of
                 None \<Rightarrow> None
               | Some c \<Rightarrow> attr_loop abi env opts buf len' rep_len (evs @ [GdPrint (print_cgroupstats c)]))
            else if ty = ucast (TYPE_NULL abi) then attr_loop abi env opts buf len' rep_len evs
            else attr_loop abi env opts buf len' rep_len
                   (evs @ [GdError (''Unknown nla_type '' @ show_nat (unat ty) @ [newline])])
        | _ \<Rightarrow> None
      else Some (GdGoOn, evs))"

text \<open>One turn of the receive loop; a reply is the result of \<open>recv\<close> and the buffer after it.\<close>

definition handle_reply ::
  "gd_abi \<Rightarrow> gd_env \<Rightarrow> gd_opts \<Rightarrow> int \<times> u8 list \<Rightarrow> (gd_next \<times> gd_ev list) option" where
  "handle_reply abi env opts reply =
     (let (rep_len, buf) = reply in
      if rep_len < 0 then Some (GdGoOn, [GdError ''nonfatal reply error''])
      else case (rd_word buf 0 4, rd_word buf 4 2) of
        (Some nlmsg_len, Some nlmsg_type) \<Rightarrow>
          if nlmsg_type = ucast (NLMSG_ERROR abi) \<or> \<not> NLMSG_OK nlmsg_len rep_len
          then Some (GdDone, [GdError ''fatal reply error''])
          else attr_loop abi env opts buf 0 (GENLMSG_PAYLOAD nlmsg_len) []
      | _ \<Rightarrow> None)"

text \<open>
  The receive loop over the replies that arrive; \<open>GdGoOn\<close> at the end of the list: it waits
  for another one.
\<close>

fun receive_loop ::
  "gd_abi \<Rightarrow> gd_env \<Rightarrow> gd_opts \<Rightarrow> (int \<times> u8 list) list \<Rightarrow> (gd_next \<times> gd_ev list) option" where
  "receive_loop abi env opts [] = Some (GdGoOn, [])"
| "receive_loop abi env opts (r # rs) =
     (case handle_reply abi env opts r of
        None \<Rightarrow> None
      | Some (GdGoOn, es) \<Rightarrow>
          if listen opts then map_option (\<lambda>(n, es'). (n, es @ es')) (receive_loop abi env opts rs)
          else Some (GdDone, es)
      | Some (n, es) \<Rightarrow> Some (n, es))"

section \<open>The program\<close>

record gd_cfg = gd_opts +
  rcvbufsz :: int
  cpumask :: "u8 list option"
  tid :: int
  cmd_type :: u16
  container :: "string option"
  logfile :: "string option"
  forking :: bool

definition gd_defaults :: "gd_abi \<Rightarrow> gd_cfg" where
  "gd_defaults abi = \<lparr>print_delays = False, print_io_accounting = False, print_task_context_switch_counts = False,
     write_file = False, listen = False, rcvbufsz = 0, cpumask = None, tid = 0, cmd_type = CMD_ATTR_UNSPEC abi,
     container = None, logfile = None, forking = False\<rparr>"

datatype gd_exit = GdExit int | GdExec

text \<open>
  One option as \<open>getopt\<close> delivers it, without its message. \<open>fork_rc\<close> and
  \<open>exec_rc\<close> answer the calls of \<open>-c\<close>; in the child the program becomes another
  one (\<open>GdExec\<close>).
\<close>

definition gd_bytes :: "string \<Rightarrow> u8 list" where
  "gd_bytes s = map (\<lambda>c. of_nat (of_char c)) s"

definition gd_option ::
  "gd_abi \<Rightarrow> int \<Rightarrow> int \<Rightarrow> char \<times> string \<Rightarrow> gd_cfg \<Rightarrow> (gd_exit + gd_cfg) option" where
  "gd_option abi fork_rc exec_rc opt cfg =
     (let (c, optarg) = opt in
      if c = CHR ''d'' then Some (Inr (cfg\<lparr>print_delays := True\<rparr>))
      else if c = CHR ''i'' then Some (Inr (cfg\<lparr>print_io_accounting := True\<rparr>))
      else if c = CHR ''q'' then Some (Inr (cfg\<lparr>print_task_context_switch_counts := True\<rparr>))
      else if c = CHR ''C'' then Some (Inr (cfg\<lparr>container := Some optarg\<rparr>))
      else if c = CHR ''w'' then Some (Inr (cfg\<lparr>logfile := Some optarg\<rparr>))
      else if c = CHR ''r'' then
        map_option (\<lambda>n. if n < 0 then Inl (GdExit 1) else Inr (cfg\<lparr>rcvbufsz := n\<rparr>)) (atoi optarg)
      else if c = CHR ''m'' then
        Some (Inr (cfg\<lparr>cpumask := Some (gd_bytes (take (100 + 6 * MAX_CPUS - 1) optarg))\<rparr>))
      else if c = CHR ''t'' then
        map_option (\<lambda>n. if n = 0 then Inl (GdExit 1) else Inr (cfg\<lparr>tid := n, cmd_type := CMD_ATTR_TGID abi\<rparr>))
          (atoi optarg)
      else if c = CHR ''p'' then
        map_option (\<lambda>n. if n = 0 then Inl (GdExit 1) else Inr (cfg\<lparr>tid := n, cmd_type := CMD_ATTR_PID abi\<rparr>))
          (atoi optarg)
      else if c = CHR ''c'' then
        Some (if fork_rc < 0 then Inl (GdExit 1)
              else if fork_rc = 0 then Inl (if exec_rc < 0 then GdExit (-1) else GdExec)
              else Inr (cfg\<lparr>tid := fork_rc, cmd_type := CMD_ATTR_PID abi, forking := True\<rparr>))
      else if c = CHR ''v'' then Some (Inr cfg)
      else if c = CHR ''l'' then Some (Inr (cfg\<lparr>listen := True\<rparr>))
      else Some (Inl (GdExit (-1))))"

fun gd_options ::
  "gd_abi \<Rightarrow> int \<Rightarrow> int \<Rightarrow> (char \<times> string) list \<Rightarrow> gd_cfg \<Rightarrow> (gd_exit + gd_cfg) option" where
  "gd_options abi fork_rc exec_rc [] cfg = Some (Inr cfg)"
| "gd_options abi fork_rc exec_rc (x # xs) cfg =
     (if forking cfg then Some (Inr cfg)
      else case gd_option abi fork_rc exec_rc x cfg of
        Some (Inr cfg') \<Rightarrow> gd_options abi fork_rc exec_rc xs cfg'
      | r \<Rightarrow> r)"

record gd_ans = gd_env +
  a_fork :: int
  a_exec :: int
  a_log :: int
  a_socket :: int
  a_setsockopt :: int
  a_bind :: int
  a_pid :: u32
  a_junk :: "u8 list"
  a_send :: "nat \<Rightarrow> nat \<Rightarrow> int \<times> bool"
  a_family :: "int \<times> u8 list"
  a_container :: int
  a_replies :: "(int \<times> u8 list) list"

text \<open>
  Where a run ends: the exit status, or waiting for replies for ever; with the events, the
  messages handed to the kernel and the trace of descriptors.
\<close>

datatype gd_end = GdReturn int | GdExits int | GdWaits

type_synonym gd_run = "gd_end \<times> gd_ev list \<times> u8 list list \<times> gd_res ev list"

definition gd_close :: "int \<Rightarrow> int \<Rightarrow> int \<Rightarrow> gd_res ev list" where
  "gd_close nl_sd fd cfd =
     [Rel (GdSock nl_sd)] @ (if fd \<noteq> 0 then [Rel (GdLog fd)] else [])
     @ (if cfd \<noteq> 0 then [Rel (GdContainer cfd)] else [])"

text \<open>
  The code behind the labels \<open>done\<close> and \<open>err\<close>.
\<close>

definition gd_done ::
  "gd_abi \<Rightarrow> gd_ans \<Rightarrow> gd_cfg \<Rightarrow> u16 \<Rightarrow> int \<Rightarrow> int \<Rightarrow> int \<Rightarrow> gd_ev list \<Rightarrow> u8 list list \<Rightarrow> gd_res ev list \<Rightarrow> gd_run option" where
  "gd_done abi a cfg fam nl_sd fd cfd evs msgs tr =
     (case cpumask cfg of
        None \<Rightarrow> Some (GdReturn 0, evs, msgs, tr @ gd_close nl_sd fd cfd)
      | Some msk \<Rightarrow>
          (case send_cmd abi (a_junk a) (a_send a 4) fam (a_pid a) (TASKSTATS_CMD_GET abi)
                  (CMD_ATTR_DEREGISTER_CPUMASK abi) (msk @ [0]) of
             None \<Rightarrow> None
           | Some (rc, m) \<Rightarrow>
               if rc < 0 then Some (GdExits rc, evs @ [GdError ''error sending deregister cpumask''], msgs @ [m], tr)
               else Some (GdReturn 0, evs, msgs @ [m], tr @ gd_close nl_sd fd cfd)))"

definition gd_receive ::
  "gd_abi \<Rightarrow> gd_ans \<Rightarrow> gd_cfg \<Rightarrow> u16 \<Rightarrow> int \<Rightarrow> int \<Rightarrow> int \<Rightarrow> u8 list list \<Rightarrow> gd_res ev list \<Rightarrow> gd_run option" where
  "gd_receive abi a cfg fam nl_sd fd cfd msgs tr =
     (let env = gd_env.truncate a; opts = (gd_opts.truncate cfg)\<lparr>write_file := (fd \<noteq> 0)\<rparr> in
      case receive_loop abi env opts (a_replies a) of
        None \<Rightarrow> None
      | Some (GdGoOn, evs) \<Rightarrow> Some (GdWaits, evs, msgs, tr)
      | Some (GdFail, evs) \<Rightarrow> Some (GdExits 1, evs, msgs, tr)
      | Some (GdDone, evs) \<Rightarrow> gd_done abi a cfg fam nl_sd fd cfd evs msgs tr)"

text \<open>
  The commands between opening the socket and receiving: the CPU mask, the task, the container.
\<close>

definition gd_container ::
  "gd_abi \<Rightarrow> gd_ans \<Rightarrow> gd_cfg \<Rightarrow> u16 \<Rightarrow> int \<Rightarrow> int \<Rightarrow> u8 list list \<Rightarrow> gd_res ev list \<Rightarrow> gd_run option" where
  "gd_container abi a cfg fam nl_sd fd msgs tr =
     (case container cfg of
        None \<Rightarrow>
          if cpumask cfg = None \<and> tid cfg = 0
          then Some (GdReturn 0, [GdError ''usage''], msgs, tr @ gd_close nl_sd fd 0)
          else gd_receive abi a cfg fam nl_sd fd 0 msgs tr
      | Some path \<Rightarrow>
          let cfd = a_container a in
          if cfd < 0
          then Some (GdReturn 0, [GdError ''error opening container file''], msgs, tr @ gd_close nl_sd fd cfd)
          else (case send_cmd abi (a_junk a) (a_send a 3) fam (a_pid a) (CGROUPSTATS_CMD_GET abi)
                       (CGROUPSTATS_CMD_ATTR_FD abi) (le_bytes 4 (word_of_int cfd :: u32)) of
                  None \<Rightarrow> None
                | Some (rc, m) \<Rightarrow>
                    let tr' = tr @ [Acq (GdContainer cfd)] in
                    if rc < 0 then Some (GdReturn 0, [GdError ''error sending cgroupstats command''], msgs @ [m],
                      tr' @ gd_close nl_sd fd cfd)
                    else gd_receive abi a cfg fam nl_sd fd cfd (msgs @ [m]) tr'))"

definition gd_task ::
  "gd_abi \<Rightarrow> gd_ans \<Rightarrow> gd_cfg \<Rightarrow> u16 \<Rightarrow> int \<Rightarrow> int \<Rightarrow> u8 list list \<Rightarrow> gd_res ev list \<Rightarrow> gd_run option" where
  "gd_task abi a cfg fam nl_sd fd msgs tr =
     (if tid cfg \<noteq> 0 \<and> container cfg \<noteq> None
      then Some (GdReturn 0, [GdError ''Select either -t or -C, not both''], msgs, tr @ gd_close nl_sd fd 0)
      else if tid cfg \<noteq> 0 then
        (case send_cmd abi (a_junk a) (a_send a 2) fam (a_pid a) (TASKSTATS_CMD_GET abi) (cmd_type cfg)
                (le_bytes 4 (word_of_int (tid cfg) :: u32)) of
           None \<Rightarrow> None
         | Some (rc, m) \<Rightarrow>
             if rc < 0 then
               gd_done abi a cfg fam nl_sd fd 0 [GdError ''error sending tid/tgid cmd''] (msgs @ [m]) tr
             else gd_container abi a cfg fam nl_sd fd (msgs @ [m]) tr)
      else gd_container abi a cfg fam nl_sd fd msgs tr)"

definition gd_mask ::
  "gd_abi \<Rightarrow> gd_ans \<Rightarrow> gd_cfg \<Rightarrow> u16 \<Rightarrow> int \<Rightarrow> int \<Rightarrow> u8 list list \<Rightarrow> gd_res ev list \<Rightarrow> gd_run option" where
  "gd_mask abi a cfg fam nl_sd fd msgs tr =
     (case cpumask cfg of
        None \<Rightarrow> gd_task abi a cfg fam nl_sd fd msgs tr
      | Some msk \<Rightarrow>
          (case send_cmd abi (a_junk a) (a_send a 1) fam (a_pid a) (TASKSTATS_CMD_GET abi)
                  (CMD_ATTR_REGISTER_CPUMASK abi) (msk @ [0]) of
             None \<Rightarrow> None
           | Some (rc, m) \<Rightarrow>
               if rc < 0
               then Some (GdReturn 0, [GdError ''error sending register cpumask''], msgs @ [m], tr @ gd_close nl_sd fd 0)
               else gd_task abi a cfg fam nl_sd fd (msgs @ [m]) tr))"

definition getdelays_run :: "gd_abi \<Rightarrow> gd_ans \<Rightarrow> gd_cfg \<Rightarrow> gd_run option" where
  "getdelays_run abi a cfg =
     (let fd = (if logfile cfg = None then 0 else a_log a);
          tr = (if logfile cfg = None then [] else [Acq (GdLog fd)])
      in if logfile cfg \<noteq> None \<and> fd = -1 then Some (GdExits 1, [GdError ''Cannot open output file''], [], [])
         else
           let (nl_sd, tr1) = create_nl_socket (rcvbufsz cfg) (a_socket a) (a_setsockopt a) (a_bind a) in
           if nl_sd < 0 then Some (GdExits 1, [GdError ''error creating Netlink socket''], [], tr @ tr1)
           else case get_family_id abi (a_junk a) (a_send a 0) (a_pid a) (a_family a) of
             None \<Rightarrow> None
           | Some fam \<Rightarrow>
               if (ucast fam :: u16) = 0
               then Some (GdReturn 0, [GdError ''Error getting family id''], [], tr @ tr1 @ gd_close nl_sd fd 0)
               else gd_mask abi a cfg (ucast fam) nl_sd fd [] (tr @ tr1))"

definition getdelays_main :: "gd_abi \<Rightarrow> gd_ans \<Rightarrow> (char \<times> string) list \<Rightarrow> (gd_exit + gd_run) option" where
  "getdelays_main abi a argv =
     (case gd_options abi (a_fork a) (a_exec a) argv (gd_defaults abi) of
        None \<Rightarrow> None
      | Some (Inl e) \<Rightarrow> Some (Inl e)
      | Some (Inr cfg) \<Rightarrow> map_option Inr (getdelays_run abi a cfg))"

section \<open>What is sent\<close>

lemma le_bytes_parts: "length (le_bytes 4 (w :: u32)) = 4" "length (le_bytes 2 (v :: u16)) = 2"
  by simp_all

lemma send_loop_result:
  assumes "send_loop sendto k buf sent = Some (rc, out)"
  shows "rc = 0 \<and> out = sent @ buf \<or> rc = -1 \<and> (\<exists>rest. sent @ buf = out @ rest)"
proof -
  have "send_loop sendto k buf sent = Some y \<Longrightarrow>
     fst y = 0 \<and> snd y = sent @ buf \<or> fst y = -1 \<and> (\<exists>rest. sent @ buf = snd y @ rest)" for y
  proof (induction rule: send_loop.raw_induct [rotated, consumes 1, case_names step])
    case (step f sendto k buf sent y)
    obtain r again where s: "sendto k = (r, again)" by fastforce
    show ?case
    proof (cases "r < int (length buf)")
      case True
      show ?thesis
      proof (cases "r > 0")
        case True
        with step(2) \<open>r < int (length buf)\<close> s
        have "f sendto (Suc k) (drop (nat r) buf) (sent @ take (nat r) buf) = Some y" by simp
        from step(1) [OF this] show ?thesis by simp
      next
        case False
        with step \<open>r < int (length buf)\<close> s show ?thesis by (auto split: if_splits)
      qed
    next
      case False
      with step(2) s show ?thesis by auto
    qed
  qed
  with assms show ?thesis by fastforce
qed


lemma send_loop_eagain:
  assumes "\<forall>j < d. fst (sendto (k + j)) \<le> 0 \<and> snd (sendto (k + j))" and "buf \<noteq> []"
  shows "send_loop sendto k buf sent = send_loop sendto (k + d) buf sent"
  using assms(1)
proof (induction d arbitrary: k)
  case (Suc d)
  obtain r again where s: "sendto k = (r, again)" by fastforce
  have "r \<le> 0" "again" using Suc.prems s by (auto dest: spec [of _ 0])
  moreover have "r < int (length buf)" using \<open>r \<le> 0\<close> assms(2) by (cases buf) simp_all
  ultimately have "send_loop sendto k buf sent = send_loop sendto (Suc k) buf sent"
    using s by (subst send_loop.simps) simp
  also have "\<dots> = send_loop sendto (Suc k + d) buf sent"
  proof (rule Suc.IH, intro allI impI)
    fix j assume "j < d"
    then show "fst (sendto (Suc k + j)) \<le> 0 \<and> snd (sendto (Suc k + j))" using Suc.prems [rule_format, of "Suc j"] by simp
  qed
  finally show ?case by simp
qed simp

lemma send_loop_returns:
  assumes "\<And>k. \<exists>k' \<ge> k. 0 < fst (sendto k') \<or> \<not> snd (sendto k')" and "buf \<noteq> []"
  shows "\<exists>y. send_loop sendto k buf sent = Some y"
  using assms(2)
proof (induction "length buf" arbitrary: k buf sent rule: less_induct)
  case less
  let ?P = "\<lambda>n. 0 < fst (sendto (k + n)) \<or> \<not> snd (sendto (k + n))"
  obtain k' where "k \<le> k'" "0 < fst (sendto k') \<or> \<not> snd (sendto k')" using assms(1) by blast
  then have ex: "?P (k' - k)" by simp
  define d where "d = (LEAST n. ?P n)"
  have d: "?P d" unfolding d_def using ex by (rule LeastI)
  have before: "\<forall>j < d. fst (sendto (k + j)) \<le> 0 \<and> snd (sendto (k + j))"
  proof (intro allI impI)
    fix j assume "j < d"
    then have "\<not> ?P j" unfolding d_def by (rule not_less_Least)
    then show "fst (sendto (k + j)) \<le> 0 \<and> snd (sendto (k + j))" by simp
  qed
  obtain r again where s: "sendto (k + d) = (r, again)" by fastforce
  have "\<exists>y. send_loop sendto (k + d) buf sent = Some y"
  proof (cases "0 < r \<and> r < int (length buf)")
    case True
    then have "length (drop (nat r) buf) < length buf" "drop (nat r) buf \<noteq> []"
      using less.prems by auto
    from less.hyps [OF this, of "Suc (k + d)" "sent @ take (nat r) buf"] True s show ?thesis
      by (subst send_loop.simps) simp
  next
    case False
    with s d less.prems show ?thesis by (subst send_loop.simps) auto
  qed
  then show ?case using send_loop_eagain [OF before less.prems] by simp
qed

text \<open>The fields of a message of \<open>send_cmd\<close>.\<close>

definition nl_fields :: "u8 list \<Rightarrow> u16 \<Rightarrow> u32 \<Rightarrow> u8 \<Rightarrow> u16 \<Rightarrow> u8 list \<Rightarrow> bool" where
  "nl_fields out ty pid cmd aty data \<longleftrightarrow>
     length out = 20 + NL_ALIGN (length data + 5)
     \<and> rd_word out 0 4 = Some (of_nat (length out)) \<and> rd_word out 4 2 = Some (ucast ty)
     \<and> rd_word out 12 4 = Some pid \<and> rd_bytes out 16 2 = Some [cmd, 1]
     \<and> rd_word out 20 2 = Some (of_nat (length data + 5)) \<and> rd_word out 22 2 = Some (ucast aty)
     \<and> rd_bytes out 24 (length data) = Some data"

lemma nla_len_of_small: "n \<le> 1019 \<Longrightarrow> unat (nla_len_of n) = n + 5"
  unfolding nla_len_of_def NLA_HDRLEN_def by (subst unat_of_nat_u16) simp_all

lemma NL_ALIGN_bounds: "n \<le> NL_ALIGN n" "NL_ALIGN n \<le> n + 3" "n \<le> 1024 \<Longrightarrow> NL_ALIGN n \<le> 1024"
  by (simp_all add: NL_ALIGN_def)

lemma nlmsg_len_of_small: "n \<le> 1019 \<Longrightarrow> unat (nlmsg_len_of n) = 20 + NL_ALIGN (n + 5)"
  using NL_ALIGN_bounds(3) [of "n + 5"]
  unfolding nlmsg_len_of_def NLMSG_HDRLEN_def GENL_HDRLEN_def
  by (subst unat_of_nat_u32) (simp_all add: nla_len_of_small)

lemma msg_fields:
  assumes "length data \<le> 1019" and "length junk = 1044"
  shows "nl_fields (take (unat (nlmsg_len_of (length data))) (msg_bytes abi junk ty pid cmd aty data))
     ty pid cmd aty data"
proof -
  let ?m = "msg_bytes abi junk ty pid cmd aty data" and ?n = "unat (nlmsg_len_of (length data))"
  let ?l = "le_bytes 4 (nlmsg_len_of (length data))" and ?t = "le_bytes 2 ty" and ?p = "le_bytes 4 pid"
  let ?j = "take 2 (drop 18 junk)" and ?a = "le_bytes 2 (nla_len_of (length data))" and ?b = "le_bytes 2 aty"
  let ?f = "le_bytes 2 (NLM_F_REQUEST abi)" and ?z = "le_bytes 4 (0 :: u32)" and ?r = "drop (24 + length data) junk"
  have n: "?n = 20 + NL_ALIGN (length data + 5)" by (rule nlmsg_len_of_small [OF assms(1)])
  have len: "length ?m = 1044" using assms by (simp add: msg_bytes_def)
  have le: "?n \<le> length ?m" using n len NL_ALIGN_bounds(3) [of "length data + 5"] assms(1) by simp
  have ge: "24 + length data \<le> ?n" using n NL_ALIGN_bounds(1) [of "length data + 5"] by simp
  have w: "rd_word (take ?n ?m) off k = rd_word ?m off k" if "off + k \<le> 24" for off k
    using that ge by (intro rd_word_take le) simp
  have b: "rd_bytes (take ?n ?m) off k = rd_bytes ?m off k" if "off + k \<le> 24 + length data" for off k
    using that ge by (intro rd_bytes_take le) simp
  have "rd_word ?m 0 4 = Some (of_le ?l)"
    unfolding msg_bytes_def by (rule rd_word_mid [of "[]", unfolded append_Nil]) simp_all
  then have 1: "rd_word ?m 0 4 = Some (nlmsg_len_of (length data))"
    by (simp add: le_simps take_bit_word_eq_self del: le_bytes.simps)
  have "rd_word (?l @ ?t @ (?f @ ?z @ ?p @ [cmd, 1] @ ?j @ ?a @ ?b @ data @ ?r)) 4 2 = Some (of_le ?t)"
    by (rule rd_word_mid) simp_all
  then have 2: "rd_word ?m 4 2 = Some (ucast ty)" by (simp only: msg_bytes_def of_le_u16)
  have "rd_word ((?l @ ?t @ ?f @ ?z) @ ?p @ ([cmd, 1] @ ?j @ ?a @ ?b @ data @ ?r)) 12 4 = Some (of_le ?p)"
    by (rule rd_word_mid) simp_all
  then have 3: "rd_word ?m 12 4 = Some pid"
    by (simp add: msg_bytes_def le_simps take_bit_word_eq_self del: le_bytes.simps)
  have "rd_bytes ((?l @ ?t @ ?f @ ?z @ ?p) @ [cmd, 1] @ (?j @ ?a @ ?b @ data @ ?r)) 16 2 = Some [cmd, 1]"
    by (rule rd_bytes_mid) simp_all
  then have 4: "rd_bytes ?m 16 2 = Some [cmd, 1]" by (simp only: msg_bytes_def append_assoc)
  have "rd_word ((?l @ ?t @ ?f @ ?z @ ?p @ [cmd, 1] @ ?j) @ ?a @ (?b @ data @ ?r)) 20 2 = Some (of_le ?a)"
    by (rule rd_word_mid) (simp_all add: assms)
  then have 5: "rd_word ?m 20 2 = Some (ucast (nla_len_of (length data)))"
    by (simp only: msg_bytes_def append_assoc of_le_u16)
  have "rd_word ((?l @ ?t @ ?f @ ?z @ ?p @ [cmd, 1] @ ?j @ ?a) @ ?b @ (data @ ?r)) 22 2 = Some (of_le ?b)"
    by (rule rd_word_mid) (simp_all add: assms)
  then have 6: "rd_word ?m 22 2 = Some (ucast aty)"
    by (simp only: msg_bytes_def append_assoc of_le_u16)
  have "rd_bytes ((?l @ ?t @ ?f @ ?z @ ?p @ [cmd, 1] @ ?j @ ?a @ ?b) @ data @ ?r) 24 (length data) = Some data"
    by (rule rd_bytes_mid) (simp_all add: assms)
  then have 7: "rd_bytes ?m 24 (length data) = Some data" by (simp only: msg_bytes_def append_assoc)
  have "unat (ucast (nla_len_of (length data)) :: u32) = length data + 5"
    using nla_len_of_small [OF assms(1)] assms(1)
    by (simp add: unsigned_ucast_eq take_bit_nat_eq_self_iff)
  then have 8: "(ucast (nla_len_of (length data)) :: u32) = of_nat (length data + 5)"
    by (metis of_nat_unat ucast_id)
  have 9: "length (take ?n ?m) = ?n" using le by simp
  have 10: "nlmsg_len_of (length data) = of_nat ?n" by simp
  have "rd_word (take ?n ?m) 0 4 = Some (of_nat ?n)" using w [of 0 4] 1 10 by simp
  moreover have "rd_word (take ?n ?m) 4 2 = Some (ucast ty)" "rd_word (take ?n ?m) 12 4 = Some pid"
    "rd_bytes (take ?n ?m) 16 2 = Some [cmd, 1]" "rd_word (take ?n ?m) 22 2 = Some (ucast aty)"
    using w [of 4 2] w [of 12 4] w [of 22 2] b [of 16 2] 2 3 4 6 by simp_all
  moreover have "rd_word (take ?n ?m) 20 2 = Some (of_nat (length data + 5))"
    using w [of 20 2] 5 8 by (simp del: of_nat_add)
  moreover have "rd_bytes (take ?n ?m) 24 (length data) = Some data" using b [of 24 "length data"] 7 by simp
  ultimately show ?thesis unfolding nl_fields_def 9 using n by blast
qed



definition sample_gd :: gd_abi where
  "sample_gd = \<lparr>GENL_ID_CTRL = 16, NLM_F_REQUEST = 1, NLMSG_ERROR = 2, CTRL_CMD_GETFAMILY = 3,
     CTRL_ATTR_FAMILY_NAME = 2, CTRL_ATTR_FAMILY_ID = 1, TASKSTATS_CMD_GET = 1, CMD_ATTR_UNSPEC = 0,
     CMD_ATTR_PID = 1, CMD_ATTR_TGID = 2, CMD_ATTR_REGISTER_CPUMASK = 3, CMD_ATTR_DEREGISTER_CPUMASK = 4,
     TYPE_NULL = 6, TYPE_PID = 1, TYPE_TGID = 2, TYPE_STATS = 3, TYPE_AGGR_PID = 4, TYPE_AGGR_TGID = 5,
     CGROUPSTATS_CMD_GET = 4, CGROUPSTATS_CMD_ATTR_FD = 1, CGROUPSTATS_TYPE_CGROUP_STATS = 1,
     TASKSTATS_GENL_NAME = gd_bytes ''TASKSTATS''\<rparr>"


section \<open>What is reported\<close>

text \<open>An attribute of a reply and the reply to a query for a task.\<close>

definition nl_attr :: "u16 \<Rightarrow> u8 list \<Rightarrow> u8 list" where
  "nl_attr ty p = le_bytes 2 (of_nat (4 + length p) :: u16) @ le_bytes 2 ty @ p
     @ replicate (NL_ALIGN (length p) - length p) 0"

definition stats_body :: "gd_abi \<Rightarrow> u16 \<Rightarrow> u16 \<Rightarrow> u32 \<Rightarrow> u8 list \<Rightarrow> u8 list" where
  "stats_body abi aty idty task stats =
     nl_attr aty (nl_attr idty (le_bytes 4 task) @ nl_attr (TYPE_STATS abi) stats)"

definition stats_reply :: "gd_abi \<Rightarrow> u16 \<Rightarrow> u8 list \<Rightarrow> u16 \<Rightarrow> u16 \<Rightarrow> u32 \<Rightarrow> u8 list \<Rightarrow> u8 list" where
  "stats_reply abi ty gh aty idty task stats =
     le_bytes 4 (of_nat (20 + length (stats_body abi aty idty task stats)) :: u32) @ le_bytes 2 ty @ gh
     @ stats_body abi aty idty task stats"

lemma NL_ALIGN_add4: "NL_ALIGN (4 + n) = 4 + NL_ALIGN n" "NL_ALIGN (8 + n) = 8 + NL_ALIGN n"
  "NL_ALIGN (12 + n) = 12 + NL_ALIGN n" "NL_ALIGN (NL_ALIGN n) = NL_ALIGN n" "NL_ALIGN 8 = 8" "NL_ALIGN 4 = 4"
  unfolding NL_ALIGN_def by presburger+

lemma length_nl_attr: "length (nl_attr ty p) = 4 + NL_ALIGN (length p)"
  using NL_ALIGN_bounds(1) [of "length p"] by (simp add: nl_attr_def)

lemma nl_attr_fields:
  assumes "length pre = off" and "4 + length p < 2 ^ 16"
  shows "rd_word (pre @ nl_attr ty p @ r) off 2 = Some (of_nat (4 + length p))"
    and "rd_word (pre @ nl_attr ty p @ r) (off + 2) 2 = Some (ucast ty)"
    and "rd_bytes (pre @ nl_attr ty p @ r) (off + 4) (length p) = Some p"
proof -
  let ?l = "le_bytes 2 (of_nat (4 + length p) :: u16)" and ?t = "le_bytes 2 ty"
  let ?z = "replicate (NL_ALIGN (length p) - length p) 0"
  have "rd_word (pre @ ?l @ (?t @ p @ ?z @ r)) off 2 = Some (of_le ?l)"
    using assms(1) by (intro rd_word_mid) simp_all
  moreover have "(ucast (of_nat (4 + length p) :: u16) :: u32) = of_nat (4 + length p)"
    by (subst word_unat_eq_iff)
      (use assms(2) in \<open>simp add: unsigned_ucast_eq unat_of_nat take_bit_nat_eq_self del: of_nat_add\<close>)
  ultimately show "rd_word (pre @ nl_attr ty p @ r) off 2 = Some (of_nat (4 + length p))"
    by (simp only: nl_attr_def append_assoc of_le_u16)
  have "rd_word ((pre @ ?l) @ ?t @ (p @ ?z @ r)) (off + 2) 2 = Some (of_le ?t)"
    using assms(1) by (intro rd_word_mid) simp_all
  then show "rd_word (pre @ nl_attr ty p @ r) (off + 2) 2 = Some (ucast ty)"
    by (simp only: nl_attr_def append_assoc of_le_u16)
  have "rd_bytes ((pre @ ?l @ ?t) @ p @ (?z @ r)) (off + 4) (length p) = Some p"
    using assms(1) by (intro rd_bytes_mid) simp_all
  then show "rd_bytes (pre @ nl_attr ty p @ r) (off + 4) (length p) = Some p"
    by (simp only: nl_attr_def append_assoc)
qed

definition reply_types :: "gd_abi \<Rightarrow> u16 \<Rightarrow> u16 \<Rightarrow> string \<Rightarrow> bool" where
  "reply_types abi aty idty label \<longleftrightarrow>
     distinct [TYPE_PID abi, TYPE_TGID abi, TYPE_STATS abi]
     \<and> (aty = TYPE_AGGR_PID abi \<and> idty = TYPE_PID abi \<and> label = ''PID''
        \<or> aty = TYPE_AGGR_TGID abi \<and> idty = TYPE_TGID abi \<and> label = ''TGID'')"

definition stats_prints :: "gd_env \<Rightarrow> gd_opts \<Rightarrow> taskstats \<Rightarrow> gd_ev list" where
  "stats_prints env opts t =
     (if print_delays opts then [GdPrint (print_delayacct (cpu_avg env) t)] else [])
     @ (if print_io_accounting opts then [GdPrint (print_ioacct t)] else [])
     @ (if print_task_context_switch_counts opts then [GdPrint (task_context_switch_counts t)] else [])"

lemma unat_ucast_u16: "unat (ucast (x :: u16) :: u32) = unat x"
  using unat_u16_less [of x] by (simp add: unsigned_ucast_eq take_bit_nat_eq_self_iff del: unat_u16_less)

lemma ucast_u16_inj: "(ucast (x :: u16) :: u32) = ucast y \<longleftrightarrow> x = y"
  by (metis unat_ucast_u16 word_unat_eq_iff)

lemma genlmsg_payload: "b < 1025 \<Longrightarrow> GENLMSG_PAYLOAD (of_nat (20 + b)) = int b"
proof -
  assume b: "b < 1025"
  have "(of_nat (20 + b) :: u32) - 16 - 4 = of_nat b" by simp
  moreover have "unat (of_nat b :: u32) = b" using b by (intro unat_of_nat_u32) simp
  ultimately show ?thesis
    using b sint_small [of "of_nat b :: u32"]
    by (simp add: GENLMSG_PAYLOAD_def NLMSG_HDRLEN_def GENL_HDRLEN_def del: of_nat_add)
qed

text \<open>The reads of the walk over a reply.\<close>

lemma stats_reply_reads:
  assumes "length gh = 14" and "length stats \<le> 1000"
    and "buf = stats_reply abi ty gh aty idty task stats @ rest"
  shows "rd_word buf 0 4 = Some (of_nat (36 + NL_ALIGN (length stats)))" and "rd_word buf 4 2 = Some (ucast ty)"
    and "nla_len_at buf 20 = Some (of_nat (16 + NL_ALIGN (length stats)))" and "nla_type_at buf 20 = Some (ucast aty)"
    and "nla_len_at buf 24 = Some 8" and "nla_type_at buf 24 = Some (ucast idty)" and "rd_word buf 28 4 = Some task"
    and "nla_len_at buf 32 = Some (of_nat (4 + length stats))" and "nla_type_at buf 32 = Some (ucast (TYPE_STATS abi))"
    and "length (stats_reply abi ty gh aty idty task stats) = 36 + NL_ALIGN (length stats)"
proof -
  let ?I = "nl_attr idty (le_bytes 4 task)" and ?S = "nl_attr (TYPE_STATS abi) stats"
  let ?body = "stats_body abi aty idty task stats"
  let ?l = "le_bytes 4 (of_nat (20 + length ?body) :: u32)" and ?t = "le_bytes 2 ty"
  let ?h = "le_bytes 2 (of_nat (4 + length (?I @ ?S)) :: u16) @ le_bytes 2 aty"
  let ?z = "replicate (NL_ALIGN (length (?I @ ?S)) - length (?I @ ?S)) 0"
  have al: "NL_ALIGN (length stats) \<le> 1003" using NL_ALIGN_bounds(2) [of "length stats"] assms(2) by simp
  have I: "length ?I = 8" by (simp add: length_nl_attr NL_ALIGN_add4)
  have IS: "length (?I @ ?S) = 12 + NL_ALIGN (length stats)" using I by (simp add: length_nl_attr)
  have body: "length ?body = 16 + NL_ALIGN (length stats)"
    unfolding stats_body_def length_nl_attr IS by (simp add: NL_ALIGN_add4)
  show "length (stats_reply abi ty gh aty idty task stats) = 36 + NL_ALIGN (length stats)"
    using assms(1) body by (simp add: stats_reply_def)
  have buf: "buf = (?l @ ?t @ gh) @ nl_attr aty (?I @ ?S) @ rest"
    by (simp add: assms(3) stats_reply_def stats_body_def)
  have "rd_word ([] @ ?l @ (?t @ gh @ ?body @ rest)) 0 4 = Some (of_le ?l)" by (rule rd_word_mid) simp_all
  then show "rd_word buf 0 4 = Some (of_nat (36 + NL_ALIGN (length stats)))"
    unfolding assms(3) stats_reply_def body
    by (simp add: le_simps take_bit_word_eq_self del: le_bytes.simps of_nat_add)
  have "rd_word (?l @ ?t @ (gh @ ?body @ rest)) 4 2 = Some (of_le ?t)" by (rule rd_word_mid) simp_all
  then show "rd_word buf 4 2 = Some (ucast ty)"
    by (simp only: assms(3) stats_reply_def append_assoc of_le_u16)
  have p20: "length (?l @ ?t @ gh) = 20" using assms(1) by simp
  have small: "4 + length (?I @ ?S) < 2 ^ 16" unfolding IS using al by simp
  show "nla_len_at buf 20 = Some (of_nat (16 + NL_ALIGN (length stats)))"
    using nl_attr_fields(1) [OF p20 small, of aty rest] unfolding buf IS by simp
  show "nla_type_at buf 20 = Some (ucast aty)"
    using nl_attr_fields(2) [OF p20 small, of aty rest] unfolding buf .
  have buf24: "buf = (?l @ ?t @ gh @ ?h) @ ?I @ (?S @ ?z @ rest)"
    unfolding buf nl_attr_def [of aty] by (simp del: replicate_add)
  have p24: "length (?l @ ?t @ gh @ ?h) = 24" using assms(1) by simp
  have s4: "4 + length (le_bytes 4 task) < 2 ^ 16" by simp
  show "nla_len_at buf 24 = Some 8" using nl_attr_fields(1) [OF p24 s4, of idty "?S @ ?z @ rest"] buf24 by simp
  show "nla_type_at buf 24 = Some (ucast idty)"
    using nl_attr_fields(2) [OF p24 s4, of idty "?S @ ?z @ rest"] buf24 by simp
  have "rd_bytes buf 28 4 = Some (le_bytes 4 task)"
    using nl_attr_fields(3) [OF p24 s4, of idty "?S @ ?z @ rest"] buf24 by simp
  then show "rd_word buf 28 4 = Some task"
    by (simp add: rd_word_def le_simps take_bit_word_eq_self del: le_bytes.simps)
  have buf32: "buf = (?l @ ?t @ gh @ ?h @ ?I) @ ?S @ (?z @ rest)" unfolding buf24 by simp
  have p32: "length (?l @ ?t @ gh @ ?h @ ?I) = 32" using assms(1) I by simp
  have s: "4 + length stats < 2 ^ 16" using assms(2) by simp
  show "nla_len_at buf 32 = Some (of_nat (4 + length stats))"
    using nl_attr_fields(1) [OF p32 s, of "TYPE_STATS abi" "?z @ rest"] buf32 by simp
  show "nla_type_at buf 32 = Some (ucast (TYPE_STATS abi))"
    using nl_attr_fields(2) [OF p32 s, of "TYPE_STATS abi" "?z @ rest"] buf32 by simp
qed

lemma unat_of_nat_small: "n < 2000 \<Longrightarrow> unat (of_nat n :: u32) = n"
  by (rule unat_of_nat_u32) simp

text \<open>
  C17. What a query reports: for the kernel's reply to a query for a process or a thread group,
  with the identifier and \<open>n\<close> bytes of statistics, the walk over the reply prints the
  identifier and then the statistics that were asked for, decoded at their place, and is done
  (unless it listens for more). With a log file it writes \<open>n + 4\<close> bytes, the statistics and
  the four bytes that follow them.
\<close>
theorem reply_reported:
  assumes "length gh = 14" and "length stats \<le> 1000" and "ty \<noteq> NLMSG_ERROR abi"
    and "reply_types abi aty idty label"
    and "buf = stats_reply abi ty gh aty idty task stats @ rest"
    and "rep_len = int (length (stats_reply abi ty gh aty idty task stats))"
    and "40 + length stats \<le> length buf" and "ts_at env buf 36 = Some t" and "write_ok env" and "\<not> listen opts"
  shows "handle_reply abi env opts (rep_len, buf) =
     Some (GdDone,
       (if print_delays opts then [GdPrint (label @ [CHR 0x09] @ show_int (sint task) @ [newline])] else [])
       @ stats_prints env opts t
       @ (if write_file opts then [GdWrite (take (length stats + 4) (drop 36 buf))] else []))"
proof -
  note r = stats_reply_reads [OF assms(1,2,5)]
  let ?n = "NL_ALIGN (length stats)"
  have n: "?n \<le> 1003" using NL_ALIGN_bounds(2) [of "length stats"] assms(2) by simp
  have ok: "NLMSG_OK (of_nat (36 + ?n)) rep_len"
    using n by (simp add: NLMSG_OK_def NLMSG_HDRLEN_def assms(6) r(10) unat_of_nat_small del: of_nat_add)
  have pay: "GENLMSG_PAYLOAD (of_nat (36 + ?n)) = int (16 + ?n)"
    using n genlmsg_payload [of "16 + ?n"] by (simp add: add.assoc [symmetric] del: of_nat_add)
  have agg: "NLA_PAYLOAD (of_nat (16 + ?n)) = int (12 + ?n)"
    using n by (simp add: NLA_PAYLOAD_def NLA_HDRLEN_def unat_of_nat_small del: of_nat_add)
  have l32: "unat (of_nat (4 + length stats) :: u32) = 4 + length stats"
    using assms(2) by (intro unat_of_nat_small) simp
  have idn: "idty \<noteq> TYPE_STATS abi" "TYPE_PID abi \<noteq> TYPE_TGID abi"
    "TYPE_STATS abi \<noteq> TYPE_PID abi" "TYPE_STATS abi \<noteq> TYPE_TGID abi"
    "idty = TYPE_PID abi \<and> label = ''PID'' \<or> idty = TYPE_TGID abi \<and> label = ''TGID''"
    "aty = TYPE_AGGR_TGID abi \<or> aty = TYPE_AGGR_PID abi"
    using assms(4) by (auto simp: reply_types_def)
  have st: "stats_attr env opts buf 32 = Some (GdDone, stats_prints env opts t
      @ (if write_file opts then [GdWrite (take (length stats + 4) (drop 36 buf))] else []))"
    using assms(7-10) l32 r(8)
    by (simp add: stats_attr_def NLA_DATA_def NLA_HDRLEN_def stats_prints_def rd_bytes_def Let_def add.commute
        del: of_nat_add)
  have n24: "nested_attr abi env opts buf 24 = Some (GdGoOn,
      if print_delays opts then [GdPrint (label @ [CHR 0x09] @ show_int (sint task) @ [newline])] else [])"
    using r(6,7) idn by (auto simp: nested_attr_def ucast_u16_inj NLA_DATA_def NLA_HDRLEN_def)
  have n32: "nested_attr abi env opts buf 32 = stats_attr env opts buf 32"
    using r(9) idn(3,4) by (simp add: nested_attr_def ucast_u16_inj)
  have "nested_loop abi env opts buf 32 8 (int (12 + ?n)) evs =
      Some (GdDone, evs @ stats_prints env opts t
        @ (if write_file opts then [GdWrite (take (length stats + 4) (drop 36 buf))] else []))" for evs
    by (subst nested_loop.simps) (simp add: n32 st)
  then have loop: "nested_loop abi env opts buf 24 0 (int (12 + ?n)) [] =
      Some (GdDone, (if print_delays opts then [GdPrint (label @ [CHR 0x09] @ show_int (sint task) @ [newline])] else [])
        @ stats_prints env opts t
        @ (if write_file opts then [GdWrite (take (length stats + 4) (drop 36 buf))] else []))"
    using r(5) by (subst nested_loop.simps) (simp add: n24 NL_ALIGN_add4 Let_def)
  have "attr_loop abi env opts buf 0 (int (16 + ?n)) [] = nested_loop abi env opts buf 24 0 (int (12 + ?n)) []"
    using r(3,4) idn(6) agg loop
    by (subst attr_loop.simps) (auto simp: GENLMSG_DATA_def NLMSG_HDRLEN_def GENL_HDRLEN_def NLA_DATA_def
        NLA_HDRLEN_def Let_def ucast_u16_inj simp del: of_nat_add)
  then show ?thesis
    using r(1,2) assms(3) ok pay loop assms(6) r(10)
    by (simp add: handle_reply_def ucast_u16_inj del: of_nat_add)
qed


definition sample_task :: taskstats where
  "sample_task = \<lparr>cpu_count = 1, cpu_run_real_total = 2, cpu_run_virtual_total = 3, cpu_delay_total = 4,
     blkio_count = 0, blkio_delay_total = 0, swapin_count = 0, swapin_delay_total = 0, freepages_count = 0,
     freepages_delay_total = 0, nvcsw = 5, nivcsw = 6, ac_comm = ''sh'', read_bytes = 0, write_bytes = 0,
     cancelled_write_bytes = 0\<rparr>"

definition sample_gd_env :: gd_env where
  "sample_gd_env = \<lparr>ts_at = (\<lambda>_ _. Some sample_task), cg_at = (\<lambda>_ _. None), cpu_avg = (\<lambda>_ _. ''0.000''), write_ok = True\<rparr>"

definition sample_gd_opts :: gd_opts where
  "sample_gd_opts = \<lparr>print_delays = False, print_io_accounting = False, print_task_context_switch_counts = False,
     write_file = True, listen = False\<rparr>"

definition sample_reply :: "u8 list" where
  "sample_reply = stats_reply sample_gd 20 (replicate 14 0) 4 1 4711 [7, 8, 9, 10]"

theorem reply_reported_witness:
  "handle_reply sample_gd sample_gd_env sample_gd_opts (40, sample_reply @ [0, 0, 0, 0, 5, 5]) =
     Some (GdDone, [GdWrite [7, 8, 9, 10, 0, 0, 0, 0]])"
proof -
  let ?buf = "sample_reply @ [0, 0, 0, 0, 5, 5]"
  have len: "length sample_reply = 40" by code_simp
  have d: "take 8 (drop 36 ?buf) = [7, 8, 9, 10, 0, 0, 0, 0]" by code_simp
  have "handle_reply sample_gd sample_gd_env sample_gd_opts (40, ?buf) =
     Some (GdDone,
       (if print_delays sample_gd_opts then [GdPrint (''PID'' @ [CHR 0x09] @ show_int (sint (4711 :: u32)) @ [newline])] else [])
       @ stats_prints sample_gd_env sample_gd_opts sample_task
       @ (if write_file sample_gd_opts then [GdWrite (take (length [7, 8, 9, 10 :: u8] + 4) (drop 36 ?buf))] else []))"
  proof (rule reply_reported [where ty = 20 and gh = "replicate 14 0" and aty = 4 and idty = 1])
    show "reply_types sample_gd 4 1 ''PID''" by (simp add: reply_types_def sample_gd_def)
    show "?buf = stats_reply sample_gd 20 (replicate 14 0) 4 1 4711 [7, 8, 9, 10] @ [0, 0, 0, 0, 5, 5]"
      by (simp only: sample_reply_def)
    show "(40 :: int) = int (length (stats_reply sample_gd 20 (replicate 14 0) 4 1 4711 [7, 8, 9, 10]))"
      using len by (simp add: sample_reply_def)
  qed (simp_all add: len sample_gd_def sample_gd_env_def sample_gd_opts_def)
  moreover have "length [7, 8, 9, 10 :: u8] + 4 = 8" by simp
  ultimately show ?thesis
    by (simp only: d) (simp add: sample_gd_opts_def stats_prints_def)
qed

text \<open>
  Replies with more than two nested attributes: after two nested attributes of aligned
  lengths \<open>A1\<close> and \<open>A2\<close>, the walk looks for the third one \<open>A1\<close> bytes behind the place
  where it is, because the position is advanced by the sum of the lengths instead of the last
  length.
\<close>
theorem nested_loop_misplaces_third:
  assumes "nla_len_at buf na = Some l1" and "nla_len_at buf (na + NL_ALIGN (unat l1)) = Some l2"
    and "nested_attr abi env opts buf na = Some (GdGoOn, es1)"
    and "nested_attr abi env opts buf (na + NL_ALIGN (unat l1)) = Some (GdGoOn, es2)"
    and "int (NL_ALIGN (unat l1) + NL_ALIGN (unat l2)) < aggr_len"
  shows "nested_loop abi env opts buf na 0 aggr_len evs =
     nested_loop abi env opts buf (na + NL_ALIGN (unat l1) + NL_ALIGN (unat l2) + NL_ALIGN (unat l1))
       (int (NL_ALIGN (unat l1) + NL_ALIGN (unat l2))) aggr_len (evs @ es1 @ es2)"
proof -
  let ?a = "NL_ALIGN (unat l1)" and ?b = "NL_ALIGN (unat l2)"
  have "nested_loop abi env opts buf na 0 aggr_len evs =
      nested_loop abi env opts buf (na + ?a) (int ?a) aggr_len (evs @ es1)"
    using assms by (subst nested_loop.simps) (simp add: Let_def)
  also have "\<dots> = nested_loop abi env opts buf (na + ?a + nat (int ?a + int ?b)) (int ?a + int ?b) aggr_len
      ((evs @ es1) @ es2)"
    using assms by (subst nested_loop.simps) (simp add: Let_def)
  also have "nat (int ?a + int ?b) = ?a + ?b" by simp
  finally show ?thesis by (simp add: ac_simps)
qed

theorem nested_loop_misplaces_third_witness:
  "let buf = nl_attr 9 [] @ nl_attr 9 [] @ nl_attr 1 [1, 0, 0, 0] @ replicate 20 0 in
   nested_loop sample_gd sample_gd_env sample_gd_opts buf 0 0 16 [] =
     nested_loop sample_gd sample_gd_env sample_gd_opts buf 12 8 16
       ([GdError (''Unknown nested nla_type '' @ ''9'' @ [newline])]
        @ [GdError (''Unknown nested nla_type '' @ ''9'' @ [newline])])"
proof -
  let ?buf = "nl_attr 9 [] @ nl_attr 9 [] @ nl_attr 1 [1, 0, 0, 0] @ replicate 20 0"
  let ?e = "[GdError (''Unknown nested nla_type '' @ ''9'' @ [newline])]"
  have l: "nla_len_at ?buf 0 = Some 4" "nla_len_at ?buf 4 = Some 4" by code_simp+
  have n: "nested_attr sample_gd sample_gd_env sample_gd_opts ?buf 0 = Some (GdGoOn, ?e)"
    "nested_attr sample_gd sample_gd_env sample_gd_opts ?buf 4 = Some (GdGoOn, ?e)" by code_simp+
  from nested_loop_misplaces_third [where buf = ?buf and na = 0 and abi = sample_gd and env = sample_gd_env
      and opts = sample_gd_opts and evs = "[]" and aggr_len = 16, OF l(1) _ n(1)] l n
  show ?thesis by (simp add: NL_ALIGN_add4 Let_def)
qed

text \<open>A run that returns closes every descriptor it opened, exactly once.\<close>

lemma gd_close_all:
  assumes "0 < fd \<or> fd = 0" and "0 < cfd \<or> cfd = 0"
    and "run_ev {} tr = Some ({GdSock s} \<union> (if fd = 0 then {} else {GdLog fd}) \<union> (if cfd = 0 then {} else {GdContainer cfd}))"
  shows "run_ev {} (tr @ gd_close s fd cfd) = Some {}"
  using assms by (auto simp: gd_close_def trace_simps insert_Diff_if)

lemma gd_done_closes:
  assumes "gd_done abi a cfg fam s fd cfd evs msgs tr = Some (GdReturn rc, evs', msgs', tr')"
    and "0 < fd \<or> fd = 0" and "0 < cfd \<or> cfd = 0"
    and "run_ev {} tr = Some ({GdSock s} \<union> (if fd = 0 then {} else {GdLog fd}) \<union> (if cfd = 0 then {} else {GdContainer cfd}))"
  shows "rc = 0 \<and> run_ev {} tr' = Some {}"
  using assms(1) gd_close_all [OF assms(2-4)]
  by (auto simp: gd_done_def split: option.splits if_splits)

lemma gd_receive_closes:
  assumes "gd_receive abi a cfg fam s fd cfd msgs tr = Some (GdReturn rc, evs', msgs', tr')"
    and "0 < fd \<or> fd = 0" and "0 < cfd \<or> cfd = 0"
    and "run_ev {} tr = Some ({GdSock s} \<union> (if fd = 0 then {} else {GdLog fd}) \<union> (if cfd = 0 then {} else {GdContainer cfd}))"
  shows "rc = 0 \<and> run_ev {} tr' = Some {}"
  using assms(1) gd_done_closes [OF _ assms(2-4)]
  by (auto simp: gd_receive_def Let_def split: option.splits gd_next.splits)

lemma gd_container_closes:
  assumes "gd_container abi a cfg fam s fd msgs tr = Some (GdReturn rc, evs', msgs', tr')"
    and "0 < fd \<or> fd = 0" and "0 < a_container a"
    and "run_ev {} tr = Some ({GdSock s} \<union> (if fd = 0 then {} else {GdLog fd}))"
  shows "rc = 0 \<and> run_ev {} tr' = Some {}"
proof -
  have c0: "run_ev {} tr = Some ({GdSock s} \<union> (if fd = 0 then {} else {GdLog fd}) \<union> (if (0 :: int) = 0 then {} else {GdContainer 0}))"
    using assms(4) by simp
  have c1: "run_ev {} (tr @ [Acq (GdContainer (a_container a))]) =
      Some ({GdSock s} \<union> (if fd = 0 then {} else {GdLog fd}) \<union> (if a_container a = 0 then {} else {GdContainer (a_container a)}))"
    using assms(3,4) by (auto simp: trace_simps)
  show ?thesis
    using assms(1) gd_receive_closes [OF _ assms(2) _ c0] gd_receive_closes [OF _ assms(2) _ c1]
      gd_close_all [OF assms(2) _ c0] gd_close_all [OF assms(2) _ c1] assms(3)
    by (auto simp: gd_container_def Let_def split: option.splits if_splits)
qed

lemma gd_task_closes:
  assumes "gd_task abi a cfg fam s fd msgs tr = Some (GdReturn rc, evs', msgs', tr')"
    and "0 < fd \<or> fd = 0" and "0 < a_container a"
    and "run_ev {} tr = Some ({GdSock s} \<union> (if fd = 0 then {} else {GdLog fd}))"
  shows "rc = 0 \<and> run_ev {} tr' = Some {}"
proof -
  have c0: "run_ev {} tr = Some ({GdSock s} \<union> (if fd = 0 then {} else {GdLog fd}) \<union> (if (0 :: int) = 0 then {} else {GdContainer 0}))"
    using assms(4) by simp
  show ?thesis
    using assms(1) gd_container_closes [OF _ assms(2-4)] gd_done_closes [OF _ assms(2) _ c0]
      gd_close_all [OF assms(2) _ c0]
    by (auto simp: gd_task_def split: option.splits if_splits)
qed

lemma gd_mask_closes:
  assumes "gd_mask abi a cfg fam s fd msgs tr = Some (GdReturn rc, evs', msgs', tr')"
    and "0 < fd \<or> fd = 0" and "0 < a_container a"
    and "run_ev {} tr = Some ({GdSock s} \<union> (if fd = 0 then {} else {GdLog fd}))"
  shows "rc = 0 \<and> run_ev {} tr' = Some {}"
proof -
  have c0: "run_ev {} tr = Some ({GdSock s} \<union> (if fd = 0 then {} else {GdLog fd}) \<union> (if (0 :: int) = 0 then {} else {GdContainer 0}))"
    using assms(4) by simp
  show ?thesis
    using assms(1) gd_task_closes [OF _ assms(2-4)] gd_close_all [OF assms(2) _ c0]
    by (auto simp: gd_mask_def split: option.splits if_splits)
qed

text \<open>
  Resources of a run: whatever the options and the answers of the kernel, a run that
  returns does so with status 0 and has closed the socket, the log file and the container
  directory exactly once (descriptors above 0, as the system gives them).
\<close>
theorem getdelays_run_closes:
  assumes "getdelays_run abi a cfg = Some (GdReturn rc, evs, msgs, tr)"
    and "0 < a_log a" and "0 < a_container a"
  shows "rc = 0 \<and> run_ev {} tr = Some {}"
proof -
  let ?fd = "if logfile cfg = None then 0 else a_log a"
  let ?tr = "if logfile cfg = None then [] else [Acq (GdLog ?fd)]"
  obtain s tr1 where c: "create_nl_socket (rcvbufsz cfg) (a_socket a) (a_setsockopt a) (a_bind a) = (s, tr1)"
    by fastforce
  have fd: "0 < ?fd \<or> ?fd = 0" using assms(2) by simp
  have s: "0 \<le> s" using assms(1) c by (auto simp: getdelays_run_def Let_def split: if_splits)
  then have "tr1 = [Acq (GdSock s)]" using c by (auto simp: create_nl_socket_def split: if_splits)
  then have r: "run_ev {} (?tr @ tr1) = Some ({GdSock s} \<union> (if ?fd = 0 then {} else {GdLog ?fd}))"
    using assms(2) by (auto simp: trace_simps)
  then have r0: "run_ev {} (?tr @ tr1) = Some ({GdSock s} \<union> (if ?fd = 0 then {} else {GdLog ?fd})
      \<union> (if (0 :: int) = 0 then {} else {GdContainer 0}))" by simp
  show ?thesis
    using assms(1) c s gd_mask_closes [OF _ fd assms(3) r] gd_close_all [OF fd _ r0]
    by (auto simp: getdelays_run_def Let_def split: option.splits if_splits)
qed


definition sample_gd_ans :: gd_ans where
  "sample_gd_ans = \<lparr>ts_at = (\<lambda>_ _. None), cg_at = (\<lambda>_ _. None), cpu_avg = (\<lambda>_ _. []), write_ok = True,
     a_fork = -1, a_exec = -1, a_log = 3, a_socket = 4, a_setsockopt = 0, a_bind = 0, a_pid = 7,
     a_junk = replicate 1044 0, a_send = (\<lambda>_ _. (-1, False)), a_family = (-1, replicate 276 0),
     a_container = 5, a_replies = []\<rparr>"

theorem getdelays_run_closes_witness:
  "\<exists>evs msgs tr. getdelays_run sample_gd sample_gd_ans ((gd_defaults sample_gd)\<lparr>logfile := Some ''log''\<rparr>) =
       Some (GdReturn 0, evs, msgs, tr) \<and> run_ev {} tr = Some {}"
proof -
  have "send_loop (\<lambda>_. (-1, False)) k buf sent = (if int (length buf) \<le> -1 then Some (0, sent @ buf) else Some (-1, sent))"
    for k buf sent by (subst send_loop.simps) auto
  then have "get_family_id sample_gd (a_junk sample_gd_ans) (a_send sample_gd_ans 0) (a_pid sample_gd_ans)
      (a_family sample_gd_ans) = Some 0"
    by (simp add: get_family_id_def send_cmd_def sample_gd_ans_def sample_gd_def gd_bytes_def Let_def
        nlmsg_len_of_small sizeof_msgtemplate_def NLMSG_HDRLEN_def GENL_HDRLEN_def MAX_MSG_SIZE_def NL_ALIGN_def)
  then obtain evs msgs tr where r: "getdelays_run sample_gd sample_gd_ans ((gd_defaults sample_gd)\<lparr>logfile := Some ''log''\<rparr>) =
       Some (GdReturn 0, evs, msgs, tr)"
    by (simp add: getdelays_run_def create_nl_socket_def gd_defaults_def sample_gd_ans_def)
  have "run_ev {} tr = Some {}"
    using getdelays_run_closes [OF r] by (simp add: sample_gd_ans_def)
  with r show ?thesis by blast
qed

end
