(* ===== verification/Cxacru_Cf.thy ===== *)
theory Cxacru_Cf
  imports Doc_Prelude
begin

text \<open>
  Model of \<open>src/Documentation/networking/cxacru-cf.py\<close>, which turns a modem configuration, a
  packed list of 32-bit little-endian values, into the text of an attribute file. Standard input is
  the list of its bytes; the result is the exit status and the texts on the two outputs.
\<close>

function cf_loop :: "nat \<Rightarrow> u8 list \<Rightarrow> int \<times> string \<times> string" where
  "cf_loop i input =
     (let buf = take 4 input in
      if length buf = 0 then (0, [newline], [])
      else if length buf \<noteq> 4 then
        (1, [newline], ''Error: read '' @ show_nat (length buf) @ '' not 4 bytes'' @ [newline])
      else
        case cf_loop (i + 1) (drop 4 input) of (r, outp, errs) \<Rightarrow>
          (r, (if i > 0 then '' '' else []) @ show_hex i @ ''='' @ show_nat (unat (of_le buf :: u32)) @ outp, errs))"
  by auto
termination
  by (relation "measure (\<lambda>(i, input). length input)") auto

declare cf_loop.simps [simp del]

definition cxacru_cf :: "u8 list \<Rightarrow> int \<times> string \<times> string" where
  "cxacru_cf input = cf_loop 0 input"

section \<open>The printed configuration\<close>

definition cf_entry :: "nat \<Rightarrow> u32 \<Rightarrow> string" where
  "cf_entry i v = show_hex i @ ''='' @ show_nat (unat v)"

fun cf_text :: "nat \<Rightarrow> u32 list \<Rightarrow> string" where
  "cf_text i [] = [newline]"
| "cf_text i (v # vs) = (if i > 0 then '' '' else []) @ cf_entry i v @ cf_text (i + 1) vs"

lemma u32_le_bytes: "of_le (le_bytes 4 v) = (v :: u32)"
  using take_bit_length_eq [of v] by (simp add: of_le_le_bytes)

lemma cf_loop_values:
  assumes "length rest < 4"
  shows "cf_loop i (concat (map (le_bytes 4) vs) @ rest) =
    (if rest = [] then (0, cf_text i vs, [])
     else (1, cf_text i vs, ''Error: read '' @ show_nat (length rest) @ '' not 4 bytes'' @ [newline]))"
proof (induction vs arbitrary: i)
  case Nil
  then show ?case using assms by (simp add: cf_loop.simps [of i rest])
next
  case (Cons v vs)
  let ?in = "concat (map (le_bytes 4) (v # vs)) @ rest"
  have "take 4 ?in = le_bytes 4 v" "drop 4 ?in = concat (map (le_bytes 4) vs) @ rest" by simp_all
  then have "cf_loop i ?in = (case cf_loop (i + 1) (concat (map (le_bytes 4) vs) @ rest) of (r, outp, errs) \<Rightarrow>
      (r, (if i > 0 then '' '' else []) @ show_hex i @ ''='' @ show_nat (unat v) @ outp, errs))"
    unfolding cf_loop.simps [of i ?in] by (simp only: Let_def length_le_bytes u32_le_bytes) simp
  then show ?case unfolding Cons.IH by (simp add: cf_entry_def)
qed

text \<open>
  A file of whole 32-bit values is printed completely, one entry per value with its index in
  hexadecimal; bytes behind the last whole value are an error that is reported after the text.
\<close>

lemma cxacru_cf_prints:
  assumes "length rest < 4"
  shows "cxacru_cf (concat (map (le_bytes 4) vs) @ rest) =
    (if rest = [] then (0, cf_text 0 vs, [])
     else (1, cf_text 0 vs, ''Error: read '' @ show_nat (length rest) @ '' not 4 bytes'' @ [newline]))"
  unfolding cxacru_cf_def using assms by (rule cf_loop_values)

text \<open>The text determines the values.\<close>

lemma digits_then_inject:
  assumes "\<forall>c \<in> set a \<union> set b. is_digit c" and "a @ x = b @ y"
    and "x \<noteq> []" "y \<noteq> []" "\<not> is_digit (hd x)" "\<not> is_digit (hd y)"
  shows "a = b \<and> x = y"
proof -
  have t: "takeWhile is_digit (c @ z) = c" if "\<forall>d \<in> set c. is_digit d" "z \<noteq> []" "\<not> is_digit (hd z)" for c z
    using that by (cases z) (simp_all add: takeWhile_append2)
  have "a = b" using t [of a x] t [of b y] assms by auto
  with assms(2) show ?thesis by simp
qed

lemma cf_text_start: "cf_text (Suc i) vs \<noteq> [] \<and> \<not> is_digit (hd (cf_text (Suc i) vs))"
  by (cases vs) (simp_all add: is_digit_def)

lemma cf_text_Cons_long: "cf_text i (v # vs) \<noteq> cf_text i []"
proof -
  have "0 < length (cf_text (i + 1) vs)" using cf_text_start [of i vs] by simp
  then have "1 < length (cf_text i (v # vs))" by (simp add: cf_entry_def)
  then show ?thesis by (metis cf_text.simps(1) length_Cons less_irrefl list.size(3) One_nat_def)
qed

lemma cf_text_inject: "cf_text i vs = cf_text i ws \<Longrightarrow> vs = ws"
proof (induction vs arbitrary: i ws)
  case Nil
  then show ?case using cf_text_Cons_long [of i] by (cases ws) (metis+)
next
  case (Cons v vs)
  show ?case
  proof (cases ws)
    case Nil
    with Cons.prems cf_text_Cons_long [of i v vs] show ?thesis by simp
  next
    case (Cons w ws')
    with Cons.prems have "show_nat (unat v) @ cf_text (Suc i) vs = show_nat (unat w) @ cf_text (Suc i) ws'"
      by (simp add: cf_entry_def)
    then have "show_nat (unat v) = show_nat (unat w) \<and> cf_text (Suc i) vs = cf_text (Suc i) ws'"
      using show_nat_digits cf_text_start by (intro digits_then_inject) auto
    with Cons.IH [of "Suc i" ws'] Cons show ?thesis by (simp add: show_nat_inject word_unat_eq_iff)
  qed
qed

lemma cxacru_cf_inject:
  fixes vs ws :: "u32 list"
  assumes "fst (snd (cxacru_cf (concat (map (le_bytes 4) vs)))) = fst (snd (cxacru_cf (concat (map (le_bytes 4) ws))))"
  shows "vs = ws"
proof -
  have "cxacru_cf (concat (map (le_bytes 4) us)) = (0, cf_text 0 us, [])" for us :: "u32 list"
    using cxacru_cf_prints [of "[]" us] by simp
  with assms have "cf_text 0 vs = cf_text 0 ws" by simp
  then show ?thesis by (rule cf_text_inject)
qed

end
