(* ===== verification/Spec2Isabelle.thy ===== *)
theory Spec2Isabelle
  imports Doc_Prelude Vdso_Test Aliasing_Test Testptp Hpet_Example Dslm Freefall Cn_Test Txtimestamp Timestamping
    Spidev_Fdx Spidev_Test Watchdog Disable_Tsc Gptimers_Example Crc32hash Cfag12864b Vrl4 Parse_Vdso Mei_Amt
    Configfs_Macros Mpss_Wait Mpss_Daemon V4l2_Skeleton Getdelays Cxacru_Cf
begin

text \<open>
  A verification library for the programs of the Linux kernel documentation tree
  (\<open>src/Documentation\<close>). The tree holds example programs, test programs and example kernel
  modules, each of them small and independent of most others; a few work together: the network and
  block back ends of the MPSS daemon and its card control, the vDSO parser and its two test programs,
  the connector module and its listener, the two versions of the configfs module.

  \<^bold>\<open>Foundations.\<close>

  \<^item> \<open>Doc_Prelude\<close>: machine integers (\<open>u8\<close> to \<open>u64\<close>), little-endian bytes,
    printed numbers, \<open>atoi\<close> and other functions of the C library, division towards zero,
    traces of acquired and released resources (\<open>run_ev\<close>), and two interfaces:
    \<open>acquire_release\<close> (an initialisation and its clean-up leave nothing behind) and
    \<open>inv_machine\<close> (operations that keep an invariant).
  \<^item> \<open>Io_Trace\<close>: programs that are sequences of system calls and printed lines. A state is the
    history of calls and the lines so far; the system answers a call as a function of the history.
    Lemmas compose what steps may do (\<open>does\<close>) and what they do exactly (\<open>makes\<close>).

  \<^bold>\<open>Programs and theories.\<close>

  \<^item> \<open>Crc32hash\<close> (\<open>pcmcia/crc32hash.c\<close>): the bit loop \<open>crc32\<close> and \<open>main\<close>. The
    loop equals the table-driven CRC-32 and detects every burst of up to four bytes.
  \<^item> \<open>Cfag12864b\<close> (\<open>auxdisplay/cfag12864b-example.c\<close>): the drawing functions on the
    mapped buffer refine operations on pixels (interface \<open>pixel_op\<close>); a session shows its six
    pictures and releases what it holds.
  \<^item> \<open>Vrl4\<close> (\<open>arm/SH-Mobile/vrl4.c\<close>): the header, the read and write loops that retry, and the
    image written, over any world in which \<open>read\<close> and \<open>write\<close> take place.
  \<^item> \<open>Parse_Vdso\<close> (\<open>vDSO/parse_vdso.c\<close>): ELF tables in a memory of bytes; initialisation,
    versions, the hash chain and lookup. \<open>Vdso_Test\<close> (\<open>vDSO/vdso_standalone_test_x86.c\<close>,
    \<open>vDSO/vdso_test.c\<close>): both test programs on top of the parser, and that they agree.
  \<^item> \<open>Getdelays\<close> (\<open>accounting/getdelays.c\<close>): netlink messages to and from the taskstats
    interface, the option loop and \<open>main\<close>: requests arrive as one message, replies are reported.
  \<^item> \<open>Mei_Amt\<close> (\<open>misc-devices/mei/mei-amt-version.c\<close>): the MEI client, the AMT commands, the
    checks of the response, \<open>main\<close>: what is reported, what is released, and what overruns.
  \<^item> \<open>Configfs_Api\<close>, \<open>Configfs_Explicit\<close>, \<open>Configfs_Macros\<close>
    (\<open>filesystems/configfs\<close>): the types of configfs and the interface \<open>storeme_attr\<close>
    of a stored number, both versions of the module with their attribute tables, item types, loading and
    unloading: values stay in range, loading rolls back, the versions agree.
  \<^item> \<open>Mpss_Sysfs\<close>, \<open>Mpss_Virtio\<close>, \<open>Mpss_Wait\<close>, \<open>Mpss_Block\<close>,
    \<open>Mpss_Daemon\<close> (\<open>mic/mpssd\<close>): entries of sysfs; device pages, rings, copies and the turns of
    the network and console threads; their waiting loops and the threads as a whole (interface
    \<open>turn_machine\<close>); block requests on the backend file; and following the state of a card with
    shutdown, restart and resume. Lengths handed to the kernel are right, loops end when the card keeps
    its side, a restart request boots the card, and nothing else does.
  \<^item> \<open>V4l2_Skeleton\<close> (\<open>video4linux/v4l2-pci-skeleton.c\<close>): the device as a record, every
    ioctl handler, the buffer queue, controls, probe and remove. The format is consistent after any
    calls, results have their types, buffers fit and are given back once, probe releases on failure.
  \<^item> \<open>Testptp\<close> (\<open>ptp/testptp.c\<close>), \<open>Hpet_Example\<close> (\<open>timers/hpet_example.c\<close>),
    \<open>Spidev_Fdx\<close> and \<open>Spidev_Test\<close> (\<open>spi\<close>), \<open>Watchdog\<close> (\<open>watchdog/src\<close>):
    programs on \<open>Io_Trace\<close>: which calls are made in which order, what is closed, what is printed.
    The conversion of \<open>testptp\<close> in double precision is exact.
  \<^item> \<open>Aliasing_Test\<close> (\<open>ia64/aliasing-test.c\<close>): recursive scans of directory trees equal a
    flat iteration. \<open>Dslm\<close> and \<open>Freefall\<close> (\<open>laptops\<close>): the accounting of disk states;
    heads are parked exactly while an alarm is pending.
  \<^item> \<open>Ucon\<close> and \<open>Cn_Test\<close> (\<open>connector\<close>): messages as bytes, the listener and the kernel
    module, and the two together: each tick of the module is printed once, in order.
  \<^item> \<open>Txtimestamp\<close>, \<open>Hwtstamp_Config\<close>, \<open>Timestamping\<close>
    (\<open>networking/timestamping\<close>): packets, error queue and reports; names of the configuration;
    the schedule of packets. \<open>Cxacru_Cf\<close> (\<open>networking/cxacru-cf.py\<close>): the printed
    configuration determines the values.
  \<^item> \<open>Disable_Tsc\<close> (\<open>prctl\<close>): the stress tests as machines that consume attempts to read
    the counter. \<open>Gptimers_Example\<close> (\<open>blackfin\<close>): interrupt handler, loading, unloading.

  \<^bold>\<open>Conventions.\<close> A definition has the name of the C function it translates, or of the part of
  \<open>main\<close> it is. Structures are records, enumerations datatypes; integers keep their width where
  they can wrap. Errors are values: \<open>None\<close> is an access outside a buffer, another undefined
  operation, a failed assertion or a computation that does not return, as the text before the
  definition says; a sum or a number is an error the program reports. The kernel, the C library where it
  talks to the system, devices and header constants are arguments; what a theorem needs of them is a
  hypothesis, and a witness shows that it can hold. Loops that may not end are
  \<open>partial_function (option)\<close>, and that they return is proved where it is claimed; loops without
  an exit are given by the list of the answers of their turns, so no bound or fuel is chosen anywhere.
  Container pointers of the kernel (\<open>container_of\<close>) are the object itself.

  \<^bold>\<open>Not modelled.\<close> Help and usage texts are one line of output; log messages are left out
  where only their wording would be repeated, and so are blocks that are not compiled (\<open>#ifdef TODO\<close>
  in the V4L2 driver, with its interrupt handler, \<open>#ifdef DEBUG\<close> in the daemon, \<open>#if 0\<close> in
  \<open>cn_test.c\<close>) and tables that only name functions of a framework. Locks and memory ordering are
  not modelled: each thread or handler is sequential, with the others in its answers. The assembler
  stubs of the standalone vDSO test, the 32-bit ELF class and big-endian machines are not instantiated.
  \<open>devicetree/bindings/sound/ak4554.c\<close> holds no code. \<open>filesystems/dnotify_test.c\<close> only
  shows a kernel interface, \<open>target/tcm_mod_builder.py\<close> prints source text from templates, and the
  Perl and shell scripts work with regular expressions and commands over files outside the tree.
\<close>

end
